theory Spec2Isabelle
  imports Main "HOL-Library.Word"
begin

unbundle bit_operations_syntax

section \<open>The distributed executor (multi\_executor.c)\<close>

text \<open>
  The scan callbacks of \<^verbatim>\<open>CitusCustomExecMethods\<close> are embedded as functions on an
  explicit scan state and an explicit world. The world holds what the callbacks reach
  outside the scan state: the job directories on the master node with their task files,
  the job directories remembered by the current resource owner, and a log of the calls
  made to collaborators, in the order they are made.

  An \<^verbatim>\<open>ereport(ERROR, ...)\<close> is a value: a function that can raise returns the error
  together with the scan state and world reached at the raise.
\<close>

type_synonym tuple = "int list"

record Task =
  taskJobId :: nat
  taskId :: nat

record Job =
  jobId :: nat
  taskList :: "Task list"

datatype MultiExecutorType =
    MULTI_EXECUTOR_INVALID_FIRST
  | MULTI_EXECUTOR_REAL_TIME
  | MULTI_EXECUTOR_TASK_TRACKER
  | MULTI_EXECUTOR_ROUTER

text \<open>A tuplestore opened with \<^verbatim>\<open>tuplestore_begin_heap\<close>: the tuples put so far and the
  position of the read pointer.\<close>

record Tuplestorestate =
  tuples :: "tuple list"
  readpos :: nat

text \<open>\<^verbatim>\<open>CitusScanState\<close>, with the fields the callbacks read: the worker job of the
  multi plan, the executor type, \<^verbatim>\<open>es_top_eflags\<close> of the executor state, and the two
  fields the callbacks write. A \<^verbatim>\<open>NULL\<close> tuplestore pointer is \<open>None\<close>.\<close>

record CitusScanState =
  workerJob :: Job
  executorType :: MultiExecutorType
  es_top_eflags :: "32 word"
  finishedUnderlyingScan :: bool
  tuplestorestate :: "Tuplestorestate option"

datatype exec_error =
    CouldNotCreateDirectory nat
  | CouldNotOpenFile nat nat
  | TaskExecutionFailed Task

datatype exec_event =
    CreateDirectoryCall nat
  | RememberJobDirectoryCall nat
  | MultiRealTimeExecuteCall nat
  | MultiTaskTrackerExecuteCall nat
  | WorkerCall Task
  | BeginCopyFromCall nat nat
  | TuplestoreBegin
  | TuplestoreEnd
  | Warning string

record executor_world =
  jobDirectories :: "nat \<Rightarrow> (nat \<Rightarrow> tuple list option) option"
  rememberedJobDirectories :: "nat list"
  executorLog :: "exec_event list"

definition logCall :: "exec_event \<Rightarrow> executor_world \<Rightarrow> executor_world" where
  "logCall e w = w\<lparr>executorLog := executorLog w @ [e]\<rparr>"

text \<open>\<^verbatim>\<open>EXEC_FLAG_EXPLAIN_ONLY\<close> of PostgreSQL's executor.h.\<close>

definition EXEC_FLAG_EXPLAIN_ONLY :: "32 word" where
  "EXEC_FLAG_EXPLAIN_ONLY = 1"

text \<open>Modelled from the spec: \<^verbatim>\<open>CreateDirectory\<close> is not in the sources. It creates
  the job-scoped working directory, empty; like \<^verbatim>\<open>mkdir\<close> it fails when the directory
  is already there.\<close>

definition CreateDirectory :: "nat \<Rightarrow> executor_world \<Rightarrow> exec_error option \<times> executor_world" where
  "CreateDirectory job w =
     (let w1 = logCall (CreateDirectoryCall job) w in
      case jobDirectories w1 job of
        Some files \<Rightarrow> (Some (CouldNotCreateDirectory job), w1)
      | None \<Rightarrow> (None, w1\<lparr>jobDirectories := (jobDirectories w1)(job \<mapsto> Map.empty)\<rparr>))"

text \<open>Modelled from the spec: \<^verbatim>\<open>ResourceOwnerEnlargeJobDirectories\<close> and
  \<^verbatim>\<open>ResourceOwnerRememberJobDirectory\<close> are not in the sources. They register the
  directory with the current resource owner, for cleanup when the owner is released.\<close>

definition ResourceOwnerRememberJobDirectory :: "nat \<Rightarrow> executor_world \<Rightarrow> executor_world" where
  "ResourceOwnerRememberJobDirectory job w =
     (let w1 = logCall (RememberJobDirectoryCall job) w in
      w1\<lparr>rememberedJobDirectories := job # rememberedJobDirectories w1\<rparr>)"

text \<open>Modelled from the spec: the task dispatch of the two executors is not in the
  sources. It runs the tasks of the job against the workers (\<open>run\<close> is the worker client: the rows a task
  yields, or \<open>None\<close> when every candidate replica fails) and spools the rows of a task
  into the task's file of the job directory. Files spooled before a failing task stay.\<close>

fun ExecuteTasks ::
  "(Task \<Rightarrow> tuple list option) \<Rightarrow> Task list \<Rightarrow> executor_world \<Rightarrow> exec_error option \<times> executor_world"
where
  "ExecuteTasks run [] w = (None, w)"
| "ExecuteTasks run (t # ts) w =
     (let w1 = logCall (WorkerCall t) w in
      case run t of
        None \<Rightarrow> (Some (TaskExecutionFailed t), w1)
      | Some rows \<Rightarrow>
          (case jobDirectories w1 (taskJobId t) of
             None \<Rightarrow> (Some (CouldNotOpenFile (taskJobId t) (taskId t)), w1)
           | Some files \<Rightarrow>
               ExecuteTasks run ts
                 (w1\<lparr>jobDirectories :=
                    (jobDirectories w1)(taskJobId t \<mapsto> files(taskId t \<mapsto> rows))\<rparr>)))"

text \<open>Modelled from the spec: \<^verbatim>\<open>MultiRealTimeExecute\<close> is not in the sources. It is the
  executor of the immediate strategy: it runs all tasks of the job.\<close>

definition MultiRealTimeExecute ::
  "(Task \<Rightarrow> tuple list option) \<Rightarrow> Job \<Rightarrow> executor_world \<Rightarrow> exec_error option \<times> executor_world"
where
  "MultiRealTimeExecute run job w =
     ExecuteTasks run (taskList job) (logCall (MultiRealTimeExecuteCall (jobId job)) w)"

text \<open>Modelled from the spec: \<^verbatim>\<open>MultiTaskTrackerExecute\<close> is not in the sources. It is
  the executor of the managed strategy: it hands the tasks of the job to the task tracker,
  which runs them.\<close>

definition MultiTaskTrackerExecute ::
  "(Task \<Rightarrow> tuple list option) \<Rightarrow> Job \<Rightarrow> executor_world \<Rightarrow> exec_error option \<times> executor_world"
where
  "MultiTaskTrackerExecute run job w =
     ExecuteTasks run (taskList job) (logCall (MultiTaskTrackerExecuteCall (jobId job)) w)"

text \<open>The tuplestore primitives of PostgreSQL that the callbacks use.\<close>

definition tuplestore_begin_heap :: "Tuplestorestate" where
  "tuplestore_begin_heap = \<lparr>tuples = [], readpos = 0\<rparr>"

definition tuplestore_putvalues :: "Tuplestorestate \<Rightarrow> tuple \<Rightarrow> Tuplestorestate" where
  "tuplestore_putvalues store row = store\<lparr>tuples := tuples store @ [row]\<rparr>"

text \<open>\<^verbatim>\<open>tuplestore_gettupleslot(store, true, false, slot)\<close>: the next tuple in forward
  direction, advancing the read pointer; an empty slot (\<open>None\<close>) at the end.\<close>

definition tuplestore_gettupleslot :: "Tuplestorestate \<Rightarrow> tuple option \<times> Tuplestorestate" where
  "tuplestore_gettupleslot store =
     (if readpos store < length (tuples store)
      then (Some (tuples store ! readpos store), store\<lparr>readpos := Suc (readpos store)\<rparr>)
      else (None, store))"

text \<open>The inner \<^verbatim>\<open>while (true)\<close> loop of \<^verbatim>\<open>CitusExecScan\<close>: \<^verbatim>\<open>NextCopyFrom\<close> hands
  out the rows of the opened file one by one, each is put into the tuplestore, and the
  loop ends when no next row is found.\<close>

fun CopyRows :: "tuple list \<Rightarrow> Tuplestorestate \<Rightarrow> Tuplestorestate" where
  "CopyRows [] store = store"
| "CopyRows (row # rows) store = CopyRows rows (tuplestore_putvalues store row)"

text \<open>The \<^verbatim>\<open>foreach\<close> over the worker task list: \<^verbatim>\<open>BeginCopyFrom\<close> opens the task's
  file in the directory of the task's own job id and raises when the file cannot be
  opened; the store filled so far stays in the scan state at the raise.\<close>

fun LoadTaskFiles ::
  "Task list \<Rightarrow> Tuplestorestate \<Rightarrow> executor_world \<Rightarrow>
     exec_error option \<times> Tuplestorestate \<times> executor_world"
where
  "LoadTaskFiles [] store w = (None, store, w)"
| "LoadTaskFiles (workerTask # rest) store w =
     (let w1 = logCall (BeginCopyFromCall (taskJobId workerTask) (taskId workerTask)) w in
      case jobDirectories w1 (taskJobId workerTask) of
        None \<Rightarrow> (Some (CouldNotOpenFile (taskJobId workerTask) (taskId workerTask)), store, w1)
      | Some files \<Rightarrow>
          (case files (taskId workerTask) of
             None \<Rightarrow>
               (Some (CouldNotOpenFile (taskJobId workerTask) (taskId workerTask)), store, w1)
           | Some rows \<Rightarrow> LoadTaskFiles rest (CopyRows rows store) w1))"

text \<open>The body of \<^verbatim>\<open>if (!scanState->finishedUnderlyingScan)\<close> in \<^verbatim>\<open>CitusExecScan\<close>.
  The \<^verbatim>\<open>Assert\<close> on the tuplestore pointer is compiled out of production builds and
  has no branch here.\<close>

definition UnderlyingScan ::
  "(Task \<Rightarrow> tuple list option) \<Rightarrow> CitusScanState \<Rightarrow> executor_world \<Rightarrow>
     exec_error option \<times> CitusScanState \<times> executor_world"
where
  "UnderlyingScan run scanState w =
     (case CreateDirectory (jobId (workerJob scanState)) w of
        (Some e, w1) \<Rightarrow> (Some e, scanState, w1)
      | (None, w1) \<Rightarrow>
          (let w2 = ResourceOwnerRememberJobDirectory (jobId (workerJob scanState)) w1 in
           case
             (if es_top_eflags scanState AND EXEC_FLAG_EXPLAIN_ONLY \<noteq> 0 then (None, w2)
              else if executorType scanState = MULTI_EXECUTOR_REAL_TIME
                then MultiRealTimeExecute run (workerJob scanState) w2
              else if executorType scanState = MULTI_EXECUTOR_TASK_TRACKER
                then MultiTaskTrackerExecute run (workerJob scanState) w2
              else (None, w2))
           of
             (Some e, w3) \<Rightarrow> (Some e, scanState, w3)
           | (None, w3) \<Rightarrow>
               (case LoadTaskFiles (taskList (workerJob scanState)) tuplestore_begin_heap
                       (logCall TuplestoreBegin w3) of
                  (Some e, store, w4) \<Rightarrow>
                    (Some e, scanState\<lparr>tuplestorestate := Some store\<rparr>, w4)
                | (None, store, w4) \<Rightarrow>
                    (None,
                     scanState\<lparr>tuplestorestate := Some store, finishedUnderlyingScan := True\<rparr>,
                     w4))))"

text \<open>\<^verbatim>\<open>CitusExecScan\<close>: the result is the tuple of the result slot, \<open>None\<close> for an
  empty slot as for the \<^verbatim>\<open>NULL\<close> returned without a tuplestore.\<close>

definition CitusExecScan ::
  "(Task \<Rightarrow> tuple list option) \<Rightarrow> CitusScanState \<Rightarrow> executor_world \<Rightarrow>
     (exec_error + tuple option) \<times> CitusScanState \<times> executor_world"
where
  "CitusExecScan run scanState w =
     (case (if \<not> finishedUnderlyingScan scanState then UnderlyingScan run scanState w
            else (None, scanState, w)) of
        (Some e, s1, w1) \<Rightarrow> (Inl e, s1, w1)
      | (None, s1, w1) \<Rightarrow>
          (case tuplestorestate s1 of
             Some tupleStore \<Rightarrow>
               (case tuplestore_gettupleslot tupleStore of
                  (slot, tupleStore') \<Rightarrow>
                    (Inr slot, s1\<lparr>tuplestorestate := Some tupleStore'\<rparr>, w1))
           | None \<Rightarrow> (Inr None, s1, w1)))"

text \<open>\<^verbatim>\<open>CitusEndScan\<close>: \<^verbatim>\<open>tuplestore_end\<close> releases the store's storage.\<close>

definition CitusEndScan ::
  "CitusScanState \<Rightarrow> executor_world \<Rightarrow> CitusScanState \<times> executor_world"
where
  "CitusEndScan scanState w =
     (case tuplestorestate scanState of
        Some store \<Rightarrow> (scanState\<lparr>tuplestorestate := None\<rparr>, logCall TuplestoreEnd w)
      | None \<Rightarrow> (scanState, w))"

text \<open>\<^verbatim>\<open>CitusReScan\<close>: the pointer is set to \<^verbatim>\<open>NULL\<close> with no \<^verbatim>\<open>tuplestore_end\<close>, the
  underlying scan is marked finished, and a warning is logged.\<close>

definition CitusReScan ::
  "CitusScanState \<Rightarrow> executor_world \<Rightarrow> CitusScanState \<times> executor_world"
where
  "CitusReScan scanState w =
     (scanState\<lparr>tuplestorestate := None, finishedUnderlyingScan := True\<rparr>,
      logCall (Warning ''unsupported at this point'') w)"

subsection \<open>Draining the scan\<close>

text \<open>The tuples a scan has left to read. The first call of the scan finishes the
  underlying scan, and each later call that returns a tuple advances the read pointer, so
  a loop over the scan ends.\<close>

definition remainingTuples :: "CitusScanState \<Rightarrow> nat" where
  "remainingTuples s =
     (case tuplestorestate s of None \<Rightarrow> 0 | Some store \<Rightarrow> length (tuples store) - readpos store)"

lemma UnderlyingScan_finished:
  "UnderlyingScan run s w = (None, s1, w1) \<Longrightarrow> finishedUnderlyingScan s1"
  by (auto simp: UnderlyingScan_def Let_def split: prod.splits option.splits if_splits)

lemma CitusExecScan_finished:
  "CitusExecScan run s w = (Inr r, s1, w1) \<Longrightarrow> finishedUnderlyingScan s1"
  by (auto simp: CitusExecScan_def split: prod.splits option.splits if_splits
           dest: UnderlyingScan_finished)

lemma CitusExecScan_advances:
  "finishedUnderlyingScan s \<Longrightarrow> CitusExecScan run s w = (Inr (Some row), s1, w1) \<Longrightarrow>
     remainingTuples s1 < remainingTuples s"
  by (auto simp: CitusExecScan_def remainingTuples_def tuplestore_gettupleslot_def
           split: prod.splits option.splits if_splits)

text \<open>Modelled from the spec: \<open>Drain\<close> is the caller of the scan, which is not in the
  sources. It calls \<^verbatim>\<open>CitusExecScan\<close> until the call returns no tuple or raises, and
  collects the tuples returned.\<close>

function Drain ::
  "(Task \<Rightarrow> tuple list option) \<Rightarrow> CitusScanState \<Rightarrow> executor_world \<Rightarrow>
     (exec_error + tuple list) \<times> CitusScanState \<times> executor_world"
where
  "Drain run scanState w =
     (case CitusExecScan run scanState w of
        (Inl e, s1, w1) \<Rightarrow> (Inl e, s1, w1)
      | (Inr None, s1, w1) \<Rightarrow> (Inr [], s1, w1)
      | (Inr (Some row), s1, w1) \<Rightarrow>
          (case Drain run s1 w1 of
             (Inl e, s2, w2) \<Rightarrow> (Inl e, s2, w2)
           | (Inr rows, s2, w2) \<Rightarrow> (Inr (row # rows), s2, w2)))"
  by pat_completeness auto
termination
proof (relation "measures [\<lambda>(run, s, w). if finishedUnderlyingScan s then 0 else 1,
                           \<lambda>(run, s, w). remainingTuples s]", goal_cases)
  case 1 show ?case by simp
next
  case (2 run scanState w x1 x2 x3 x4 x5 x6)
  then have scan: "CitusExecScan run scanState w = (Inr (Some x4), x5, x6)"
    by simp
  have fin: "finishedUnderlyingScan x5"
    using scan by (rule CitusExecScan_finished)
  show ?case
  proof (cases "finishedUnderlyingScan scanState")
    case True
    from True scan have "remainingTuples x5 < remainingTuples scanState"
      by (rule CitusExecScan_advances)
    with True fin show ?thesis by simp
  next
    case False
    with fin show ?thesis by simp
  qed
qed

declare Drain.simps [simp del]


subsection \<open>What the scan reads, and example scans\<close>

text \<open>Log entries that are calls to workers: a call of an executor, or a task run on a
  worker.\<close>

fun isWorkerEvent :: "exec_event \<Rightarrow> bool" where
  "isWorkerEvent (MultiRealTimeExecuteCall job) = True"
| "isWorkerEvent (MultiTaskTrackerExecuteCall job) = True"
| "isWorkerEvent (WorkerCall t) = True"
| "isWorkerEvent e = False"

text \<open>What \<^verbatim>\<open>BeginCopyFrom\<close> finds for a task: the rows of the task's file, if the
  job directory and the file exist.\<close>

definition TaskFileRows :: "executor_world \<Rightarrow> Task \<Rightarrow> tuple list option" where
  "TaskFileRows w t =
     (case jobDirectories w (taskJobId t) of None \<Rightarrow> None | Some files \<Rightarrow> files (taskId t))"

text \<open>The tasks whose files the loading loop opens or tries to open: all of them up to
  and including the first whose file is missing.\<close>

fun AttemptedTasks :: "executor_world \<Rightarrow> Task list \<Rightarrow> Task list" where
  "AttemptedTasks w [] = []"
| "AttemptedTasks w (t # ts) =
     t # (case TaskFileRows w t of None \<Rightarrow> [] | Some rows \<Rightarrow> AttemptedTasks w ts)"

text \<open>The rows of all task files in task order, if every file exists.\<close>

fun TaskFilesRows :: "executor_world \<Rightarrow> Task list \<Rightarrow> tuple list option" where
  "TaskFilesRows w [] = Some []"
| "TaskFilesRows w (t # ts) =
     (case TaskFileRows w t of
        None \<Rightarrow> None
      | Some rows \<Rightarrow>
          (case TaskFilesRows w ts of None \<Rightarrow> None | Some rest \<Rightarrow> Some (rows @ rest)))"

definition BeginCopyFromCalls :: "Task list \<Rightarrow> exec_event list" where
  "BeginCopyFromCalls ts = map (\<lambda>t. BeginCopyFromCall (taskJobId t) (taskId t)) ts"

definition withJobDirectory :: "nat \<Rightarrow> executor_world \<Rightarrow> executor_world" where
  "withJobDirectory job w = w\<lparr>jobDirectories := (jobDirectories w)(job \<mapsto> Map.empty)\<rparr>"

text \<open>The world in which an explain-only scan starts to load the task files: the job
  directory created and remembered, the tuplestore opened.\<close>

definition explainWorld :: "nat \<Rightarrow> executor_world \<Rightarrow> executor_world" where
  "explainWorld job w =
     logCall TuplestoreBegin
       (ResourceOwnerRememberJobDirectory job
          ((logCall (CreateDirectoryCall job) w)
             \<lparr>jobDirectories := (jobDirectories w)(job \<mapsto> Map.empty)\<rparr>))"

text \<open>\<^verbatim>\<open>CitusEndScan\<close> called a number of times in a row.\<close>

fun EndScanTimes ::
  "nat \<Rightarrow> CitusScanState \<Rightarrow> executor_world \<Rightarrow> CitusScanState \<times> executor_world"
where
  "EndScanTimes 0 s w = (s, w)"
| "EndScanTimes (Suc n) s w = (case CitusEndScan s w of (s', w') \<Rightarrow> EndScanTimes n s' w')"

text \<open>Example scans of job 7 with task 1, whose worker yields two rows.\<close>

definition example_task :: Task where
  "example_task = \<lparr>taskJobId = 7, taskId = 1\<rparr>"

definition example_job :: Job where
  "example_job = \<lparr>jobId = 7, taskList = [example_task]\<rparr>"

definition example_run :: "Task \<Rightarrow> tuple list option" where
  "example_run t = Some [[1], [2]]"

definition empty_world :: executor_world where
  "empty_world = \<lparr>jobDirectories = Map.empty, rememberedJobDirectories = [], executorLog = []\<rparr>"

definition realtime_scan :: CitusScanState where
  "realtime_scan =
     \<lparr>workerJob = example_job, executorType = MULTI_EXECUTOR_REAL_TIME, es_top_eflags = 0,
      finishedUnderlyingScan = False, tuplestorestate = None\<rparr>"

definition explain_scan :: CitusScanState where
  "explain_scan =
     \<lparr>workerJob = example_job, executorType = MULTI_EXECUTOR_REAL_TIME,
      es_top_eflags = EXEC_FLAG_EXPLAIN_ONLY,
      finishedUnderlyingScan = False, tuplestorestate = None\<rparr>"

definition spooled_scan :: CitusScanState where
  "spooled_scan =
     \<lparr>workerJob = example_job, executorType = MULTI_EXECUTOR_REAL_TIME, es_top_eflags = 0,
      finishedUnderlyingScan = True,
      tuplestorestate = Some \<lparr>tuples = [[1], [2]], readpos = 0\<rparr>\<rparr>"

definition first_scan ::
  "(exec_error + tuple list) \<times> CitusScanState \<times> executor_world" where
  "first_scan = Drain example_run realtime_scan empty_world"

definition second_scan ::
  "(exec_error + tuple list) \<times> CitusScanState \<times> executor_world" where
  "second_scan =
     Drain example_run
       (fst (CitusReScan (fst (snd first_scan)) (snd (snd first_scan))))
       (snd (CitusReScan (fst (snd first_scan)) (snd (snd first_scan))))"

definition explain_no_task_scan :: CitusScanState where
  "explain_no_task_scan =
     \<lparr>workerJob = \<lparr>jobId = 7, taskList = []\<rparr>, executorType = MULTI_EXECUTOR_REAL_TIME,
      es_top_eflags = EXEC_FLAG_EXPLAIN_ONLY,
      finishedUnderlyingScan = False, tuplestorestate = None\<rparr>"


section \<open>Reference tables (reference\_table\_utils.c)\<close>

text \<open>
  The metadata the replicator reads and writes is a record of the catalog tables, each a
  list of rows in table order, together with the two sequences that number new rows, the
  locks taken, and a log of the commands sent to workers and of the catalog mutations, in
  the order they are made. A function that can raise returns the error, if any, together
  with the state reached at the raise; what the enclosing transaction of the metadata
  store does with that state afterwards is outside these sources.
\<close>

datatype ShardState = FILE_INVALID | FILE_FINALIZED | FILE_CACHED | FILE_INACTIVE | FILE_TO_DELETE

datatype PartitionMethodChar =
  DISTRIBUTE_BY_APPEND | DISTRIBUTE_BY_HASH | DISTRIBUTE_BY_RANGE | DISTRIBUTE_BY_NONE

datatype ReplicationModel =
  REPLICATION_MODEL_COORDINATOR | REPLICATION_MODEL_STREAMING | REPLICATION_MODEL_2PC

datatype LockMode = AccessShareLock | ExclusiveLock

datatype HeldLock =
    ShardDistributionMetadataLock nat LockMode
  | ShardResourceLock nat LockMode
  | DistNodeRelationLock LockMode

record ShardPlacement =
  placementId :: nat
  placementShardId :: nat
  shardState :: ShardState
  nodeName :: string
  nodePort :: nat

record WorkerNode =
  workerName :: string
  workerPort :: nat

record ShardInterval =
  relationId :: nat
  shardId :: nat
  storageType :: char
  minValue :: "string option"
  maxValue :: "string option"

text \<open>A row of \<^verbatim>\<open>pg_dist_partition\<close> and a row of \<^verbatim>\<open>pg_dist_colocation\<close>.\<close>

record PartitionRow =
  logicalrelid :: nat
  partmethod :: PartitionMethodChar
  partkey :: "string option"
  colocationid :: nat
  repmodel :: ReplicationModel

record ColocationRow =
  groupColocationId :: nat
  shardcount :: nat
  replicationfactor :: nat
  distributioncolumntype :: nat

datatype error =
    OperationNotAllowedOnNode
  | RelationNotDistributed nat
  | AlreadyReferenceTable nat
  | ShardCountNotOne nat
  | PartOfForeignConstraint nat
  | NoHealthyPlacement nat
  | WorkerCommandFailed string nat
  | NullPointerDereference
  | NoPartitionEntry nat
  | NoShardEntry nat
  | NoPlacementEntry nat
  | NoColocationEntry nat

datatype event =
    Notice string nat
  | SendCommandList string nat string "string list" bool
  | InsertShardPlacementRowCall ShardPlacement
  | UpdateShardPlacementStateCall nat ShardState
  | UpdateColocationGroupReplicationFactorCall nat nat
  | CreateColocationGroupCall ColocationRow
  | DeletePartitionRowCall nat
  | DeleteColocationGroupCall nat
  | DeleteShardRowCall nat
  | InsertIntoPgDistPartitionCall PartitionRow
  | InsertShardRowCall ShardInterval

record metadata =
  pg_dist_partition :: "PartitionRow list"
  pg_dist_shard :: "ShardInterval list"
  pg_dist_shard_placement :: "ShardPlacement list"
  pg_dist_colocation :: "ColocationRow list"
  pg_dist_node :: "WorkerNode list"
  placementid_seq :: nat
  colocationid_seq :: nat
  heldLocks :: "HeldLock list"
  events :: "event list"

text \<open>What the replicator takes from collaborators that are not in the sources and that
  it only reads: the group of the local node, the foreign-key commands of a shard, whether
  a table is referenced by a foreign key, the commands that copy a shard from a source
  node, the owner of a table, the storage type of its shards, and whether a worker runs
  and commits a command list sent to it.\<close>

record collaborators =
  GetLocalGroupId :: nat
  CopyShardForeignConstraintCommandList :: "ShardInterval \<Rightarrow> string list"
  TableReferenced :: "nat \<Rightarrow> bool"
  CopyShardCommandList :: "ShardInterval \<Rightarrow> string \<Rightarrow> nat \<Rightarrow> string list"
  TableOwner :: "nat \<Rightarrow> string"
  ShardStorageType :: "nat \<Rightarrow> char"
  workerCommits :: "string \<Rightarrow> nat \<Rightarrow> string list \<Rightarrow> bool"

definition INVALID_PLACEMENT_ID :: nat where
  "INVALID_PLACEMENT_ID = 0"

definition INVALID_COLOCATION_ID :: nat where
  "INVALID_COLOCATION_ID = 0"

definition InvalidOid :: nat where
  "InvalidOid = 0"

definition logEvent :: "event \<Rightarrow> metadata \<Rightarrow> metadata" where
  "logEvent e st = st\<lparr>events := events st @ [e]\<rparr>"

definition acquireLock :: "HeldLock \<Rightarrow> metadata \<Rightarrow> metadata" where
  "acquireLock l st = st\<lparr>heldLocks := List.insert l (heldLocks st)\<rparr>"

subsection \<open>Helpers that are not in the sources\<close>

text \<open>Modelled from the spec: \<^verbatim>\<open>EnsureSchemaNode\<close> is not in the sources. It is the guard
  on the role of the local node: it raises unless the local group is the schema node's,
  group 0.\<close>

definition EnsureSchemaNode :: "collaborators \<Rightarrow> error option" where
  "EnsureSchemaNode env = (if GetLocalGroupId env \<noteq> 0 then Some OperationNotAllowedOnNode else None)"

text \<open>Modelled from the spec: \<^verbatim>\<open>IsDistributedTable\<close> is not in the sources. A table is
  distributed when it has a partition row, the row keyed by its table id.\<close>

definition IsDistributedTable :: "metadata \<Rightarrow> nat \<Rightarrow> bool" where
  "IsDistributedTable st relation =
     (find (\<lambda>row. logicalrelid row = relation) (pg_dist_partition st) \<noteq> None)"

text \<open>Modelled from the spec: \<^verbatim>\<open>PartitionMethod\<close> is not in the sources. It is the
  partition method of the table's partition row; a table without one is not distributed.\<close>

definition PartitionMethod :: "metadata \<Rightarrow> nat \<Rightarrow> error + PartitionMethodChar" where
  "PartitionMethod st relation =
     (case find (\<lambda>row. logicalrelid row = relation) (pg_dist_partition st) of
        None \<Rightarrow> Inl (RelationNotDistributed relation)
      | Some row \<Rightarrow> Inr (partmethod row))"

text \<open>Modelled from the spec: \<^verbatim>\<open>TableColocationId\<close> is not in the sources. It is the
  colocation id of the table's partition row.\<close>

definition TableColocationId :: "metadata \<Rightarrow> nat \<Rightarrow> error + nat" where
  "TableColocationId st relation =
     (case find (\<lambda>row. logicalrelid row = relation) (pg_dist_partition st) of
        None \<Rightarrow> Inl (RelationNotDistributed relation)
      | Some row \<Rightarrow> Inr (colocationid row))"

text \<open>Modelled from the spec: \<^verbatim>\<open>LoadShardIntervalList\<close> is not in the sources. It lists
  the shards of a table: the shard rows that name the table.\<close>

definition LoadShardIntervalList :: "metadata \<Rightarrow> nat \<Rightarrow> ShardInterval list" where
  "LoadShardIntervalList st relation =
     filter (\<lambda>shardInterval. relationId shardInterval = relation) (pg_dist_shard st)"

text \<open>Modelled from the spec: \<^verbatim>\<open>ShardPlacementList\<close> is not in the sources. It lists
  the placements of a shard: the placement rows that name the shard.\<close>

definition ShardPlacementList :: "metadata \<Rightarrow> nat \<Rightarrow> ShardPlacement list" where
  "ShardPlacementList st shard =
     filter (\<lambda>placement. placementShardId placement = shard) (pg_dist_shard_placement st)"

text \<open>Modelled from the spec: \<^verbatim>\<open>WorkerNodeList\<close> is not in the sources. It lists the
  worker nodes.\<close>

definition WorkerNodeList :: "metadata \<Rightarrow> WorkerNode list" where
  "WorkerNodeList st = pg_dist_node st"

text \<open>\<^verbatim>\<open>linitial\<close> of PostgreSQL's lists reads through the head cell: on \<^verbatim>\<open>NIL\<close> it
  dereferences a null pointer.\<close>

definition linitial :: "'a list \<Rightarrow> error + 'a" where
  "linitial l = (case l of [] \<Rightarrow> Inl NullPointerDereference | x # xs \<Rightarrow> Inr x)"

text \<open>Modelled from the spec: \<^verbatim>\<open>FinalizedShardPlacementList\<close> is not in the sources. It
  lists the healthy placements of a shard, those in state \<^verbatim>\<open>FILE_FINALIZED\<close>.\<close>

definition FinalizedShardPlacementList :: "metadata \<Rightarrow> nat \<Rightarrow> ShardPlacement list" where
  "FinalizedShardPlacementList st shard =
     filter (\<lambda>placement. shardState placement = FILE_FINALIZED) (ShardPlacementList st shard)"

text \<open>Modelled from the spec: \<^verbatim>\<open>FinalizedShardPlacement\<close> is not in the sources. It picks
  one healthy placement of the shard, the first in the shard's placement list, and with
  \<^verbatim>\<open>missingOk\<close> false it raises when the shard has none.\<close>

definition FinalizedShardPlacement ::
  "metadata \<Rightarrow> nat \<Rightarrow> bool \<Rightarrow> error + ShardPlacement option" where
  "FinalizedShardPlacement st shard missingOk =
     (case FinalizedShardPlacementList st shard of
        [] \<Rightarrow> (if missingOk then Inr None else Inl (NoHealthyPlacement shard))
      | placement # rest \<Rightarrow> Inr (Some placement))"

text \<open>Modelled from the spec: \<^verbatim>\<open>SearchShardPlacementInList\<close> is not in the sources. It
  returns the first placement of the list on the given node, and \<^verbatim>\<open>NULL\<close> when there is
  none and \<^verbatim>\<open>missingOk\<close> is true.\<close>

definition SearchShardPlacementInList ::
  "ShardPlacement list \<Rightarrow> string \<Rightarrow> nat \<Rightarrow> bool \<Rightarrow> error + ShardPlacement option" where
  "SearchShardPlacementInList shardPlacementList name port missingOk =
     (case find (\<lambda>placement. nodeName placement = name \<and> nodePort placement = port)
             shardPlacementList of
        None \<Rightarrow> (if missingOk then Inr None else Inl (NoPlacementEntry 0))
      | Some placement \<Rightarrow> Inr (Some placement))"

text \<open>The comparison of two strings byte by byte, as \<^verbatim>\<open>strncmp\<close> of the C library makes
  it on names shorter than its length bound.\<close>

fun strcmp :: "string \<Rightarrow> string \<Rightarrow> int" where
  "strcmp [] [] = 0"
| "strcmp [] (b # bs) = - 1"
| "strcmp (a # as) [] = 1"
| "strcmp (a # as) (b # bs) =
     (if a = b then strcmp as bs else int (of_char a) - int (of_char b))"

text \<open>Modelled from the spec: \<^verbatim>\<open>CompareWorkerNodes\<close> is not in the sources. Worker nodes
  are ordered by name, then by port.\<close>

definition CompareWorkerNodes :: "WorkerNode \<Rightarrow> WorkerNode \<Rightarrow> int" where
  "CompareWorkerNodes a b =
     (let nameCompare = strcmp (workerName a) (workerName b) in
      if nameCompare \<noteq> 0 then nameCompare else int (workerPort a) - int (workerPort b))"

text \<open>Modelled from the spec: \<^verbatim>\<open>SortList\<close> is not in the sources. It sorts a list by a
  comparison function; here by insertion.\<close>

fun insertSorted :: "('a \<Rightarrow> 'a \<Rightarrow> int) \<Rightarrow> 'a \<Rightarrow> 'a list \<Rightarrow> 'a list" where
  "insertSorted compare x [] = [x]"
| "insertSorted compare x (y # ys) =
     (if compare x y \<le> 0 then x # y # ys else y # insertSorted compare x ys)"

fun SortList :: "'a list \<Rightarrow> ('a \<Rightarrow> 'a \<Rightarrow> int) \<Rightarrow> 'a list" where
  "SortList [] compare = []"
| "SortList (x # xs) compare = insertSorted compare x (SortList xs compare)"

text \<open>Modelled from the spec: \<^verbatim>\<open>SendCommandListToWorkerInSingleTransaction\<close> is not in the
  sources. It runs the command list on the worker inside one transaction of that worker
  alone; it returns nothing, so a failure of the worker is a raise.\<close>

definition SendCommandListToWorkerInSingleTransaction ::
  "collaborators \<Rightarrow> string \<Rightarrow> nat \<Rightarrow> string \<Rightarrow> string list \<Rightarrow> metadata \<Rightarrow>
     error option \<times> metadata"
where
  "SendCommandListToWorkerInSingleTransaction env name port owner commandList st =
     (if workerCommits env name port commandList
      then (None, logEvent (SendCommandList name port owner commandList True) st)
      else (Some (WorkerCommandFailed name port),
            logEvent (SendCommandList name port owner commandList False) st))"

text \<open>Modelled from the spec: \<^verbatim>\<open>InsertShardPlacementRow\<close> is not in the sources. It
  inserts a placement row, appended to the table and numbered from the placement sequence
  when it is given the invalid placement id. The shard length, which the replicator passes
  as 0 and never reads, is not kept in the row.\<close>

definition InsertShardPlacementRow ::
  "nat \<Rightarrow> nat \<Rightarrow> ShardState \<Rightarrow> nat \<Rightarrow> string \<Rightarrow> nat \<Rightarrow> metadata \<Rightarrow> metadata" where
  "InsertShardPlacementRow shard placement state shardLength name port st =
     (let newId = (if placement = INVALID_PLACEMENT_ID then placementid_seq st else placement);
          st1 = (if placement = INVALID_PLACEMENT_ID
                 then st\<lparr>placementid_seq := Suc (placementid_seq st)\<rparr> else st);
          row = \<lparr>placementId = newId, placementShardId = shard, shardState = state,
                 nodeName = name, nodePort = port\<rparr>
      in logEvent (InsertShardPlacementRowCall row)
           (st1\<lparr>pg_dist_shard_placement := pg_dist_shard_placement st1 @ [row]\<rparr>))"

text \<open>Modelled from the spec: \<^verbatim>\<open>UpdateShardPlacementState\<close> is not in the sources. It
  updates the placement state of the rows with the given placement id, the key of the
  table, and raises when there is none.\<close>

definition UpdateShardPlacementState ::
  "nat \<Rightarrow> ShardState \<Rightarrow> metadata \<Rightarrow> error option \<times> metadata" where
  "UpdateShardPlacementState placement state st =
     (case find (\<lambda>row. placementId row = placement) (pg_dist_shard_placement st) of
        None \<Rightarrow> (Some (NoPlacementEntry placement), st)
      | Some found \<Rightarrow>
          (None,
           logEvent (UpdateShardPlacementStateCall placement state)
             (st\<lparr>pg_dist_shard_placement :=
                  map (\<lambda>row. if placementId row = placement then row\<lparr>shardState := state\<rparr>
                             else row)
                      (pg_dist_shard_placement st)\<rparr>)))"

text \<open>Modelled from the spec: \<^verbatim>\<open>ColocationId\<close> is not in the sources. It looks a
  colocation group up by shard count, replication factor and distribution column type, and
  returns the invalid id when there is none.\<close>

definition ColocationId :: "metadata \<Rightarrow> nat \<Rightarrow> nat \<Rightarrow> nat \<Rightarrow> nat" where
  "ColocationId st shardCount replicationFactor distributionColumnType =
     (case find (\<lambda>row. shardcount row = shardCount \<and> replicationfactor row = replicationFactor \<and>
                        distributioncolumntype row = distributionColumnType)
             (pg_dist_colocation st) of
        None \<Rightarrow> INVALID_COLOCATION_ID
      | Some row \<Rightarrow> groupColocationId row)"

text \<open>Modelled from the spec: \<^verbatim>\<open>CreateColocationGroup\<close> is not in the sources. It
  creates a colocation group with the given shard count, replication factor and
  distribution column type, numbered from the colocation sequence.\<close>

definition CreateColocationGroup :: "nat \<Rightarrow> nat \<Rightarrow> nat \<Rightarrow> metadata \<Rightarrow> nat \<times> metadata" where
  "CreateColocationGroup shardCount replicationFactor distributionColumnType st =
     (let row = \<lparr>groupColocationId = colocationid_seq st, shardcount = shardCount,
                 replicationfactor = replicationFactor,
                 distributioncolumntype = distributionColumnType\<rparr>
      in (colocationid_seq st,
          logEvent (CreateColocationGroupCall row)
            (st\<lparr>colocationid_seq := Suc (colocationid_seq st),
                pg_dist_colocation := pg_dist_colocation st @ [row]\<rparr>)))"

text \<open>Modelled from the spec: \<^verbatim>\<open>UpdateColocationGroupReplicationFactor\<close> is not in the
  sources. It updates the replication factor of the colocation group with the given id and
  raises when there is none.\<close>

definition UpdateColocationGroupReplicationFactor ::
  "nat \<Rightarrow> nat \<Rightarrow> metadata \<Rightarrow> error option \<times> metadata" where
  "UpdateColocationGroupReplicationFactor colocation replicationFactor st =
     (case find (\<lambda>row. groupColocationId row = colocation) (pg_dist_colocation st) of
        None \<Rightarrow> (Some (NoColocationEntry colocation), st)
      | Some found \<Rightarrow>
          (None,
           logEvent (UpdateColocationGroupReplicationFactorCall colocation replicationFactor)
             (st\<lparr>pg_dist_colocation :=
                  map (\<lambda>row. if groupColocationId row = colocation
                             then row\<lparr>replicationfactor := replicationFactor\<rparr> else row)
                      (pg_dist_colocation st)\<rparr>)))"

text \<open>The delete of the first row of a table that a scan by key finds.\<close>

fun deleteFirst :: "('a \<Rightarrow> bool) \<Rightarrow> 'a list \<Rightarrow> 'a list" where
  "deleteFirst P [] = []"
| "deleteFirst P (x # xs) = (if P x then xs else x # deleteFirst P xs)"

text \<open>Modelled from the spec: \<^verbatim>\<open>DeleteColocationGroupIfNoTablesBelong\<close> is not in the
  sources. It deletes the row of a valid colocation group when no partition row names the
  group.\<close>

definition DeleteColocationGroupIfNoTablesBelong :: "nat \<Rightarrow> metadata \<Rightarrow> metadata" where
  "DeleteColocationGroupIfNoTablesBelong colocation st =
     (if colocation \<noteq> INVALID_COLOCATION_ID \<and>
         filter (\<lambda>row. colocationid row = colocation) (pg_dist_partition st) = [] \<and>
         find (\<lambda>row. groupColocationId row = colocation) (pg_dist_colocation st) \<noteq> None
      then logEvent (DeleteColocationGroupCall colocation)
             (st\<lparr>pg_dist_colocation :=
                  deleteFirst (\<lambda>row. groupColocationId row = colocation) (pg_dist_colocation st)\<rparr>)
      else st)"

text \<open>Modelled from the spec: \<^verbatim>\<open>DeletePartitionRow\<close> is not in the sources. It deletes
  the partition row of the table and raises when there is none.\<close>

definition DeletePartitionRow :: "nat \<Rightarrow> metadata \<Rightarrow> error option \<times> metadata" where
  "DeletePartitionRow relation st =
     (case find (\<lambda>row. logicalrelid row = relation) (pg_dist_partition st) of
        None \<Rightarrow> (Some (NoPartitionEntry relation), st)
      | Some found \<Rightarrow>
          (None,
           logEvent (DeletePartitionRowCall relation)
             (st\<lparr>pg_dist_partition :=
                  deleteFirst (\<lambda>row. logicalrelid row = relation) (pg_dist_partition st)\<rparr>)))"

text \<open>Modelled from the spec: \<^verbatim>\<open>DeleteShardRow\<close> is not in the sources. It deletes the
  shard row of the shard and raises when there is none.\<close>

definition DeleteShardRow :: "nat \<Rightarrow> metadata \<Rightarrow> error option \<times> metadata" where
  "DeleteShardRow shard st =
     (case find (\<lambda>row. shardId row = shard) (pg_dist_shard st) of
        None \<Rightarrow> (Some (NoShardEntry shard), st)
      | Some found \<Rightarrow>
          (None,
           logEvent (DeleteShardRowCall shard)
             (st\<lparr>pg_dist_shard := deleteFirst (\<lambda>row. shardId row = shard) (pg_dist_shard st)\<rparr>)))"

text \<open>Modelled from the spec: \<^verbatim>\<open>InsertIntoPgDistPartition\<close> is not in the sources. It
  inserts a partition row.\<close>

definition InsertIntoPgDistPartition ::
  "nat \<Rightarrow> PartitionMethodChar \<Rightarrow> string option \<Rightarrow> nat \<Rightarrow> ReplicationModel \<Rightarrow> metadata \<Rightarrow> metadata"
where
  "InsertIntoPgDistPartition relation method distributionColumn colocation replicationModel st =
     (let row = \<lparr>logicalrelid = relation, partmethod = method, partkey = distributionColumn,
                 colocationid = colocation, repmodel = replicationModel\<rparr>
      in logEvent (InsertIntoPgDistPartitionCall row)
           (st\<lparr>pg_dist_partition := pg_dist_partition st @ [row]\<rparr>))"

text \<open>Modelled from the spec: \<^verbatim>\<open>InsertShardRow\<close> is not in the sources. It inserts a
  shard row.\<close>

definition InsertShardRow ::
  "nat \<Rightarrow> nat \<Rightarrow> char \<Rightarrow> string option \<Rightarrow> string option \<Rightarrow> metadata \<Rightarrow> metadata" where
  "InsertShardRow relation shard storage shardMinValue shardMaxValue st =
     (let row = \<lparr>relationId = relation, shardId = shard, storageType = storage,
                 minValue = shardMinValue, maxValue = shardMaxValue\<rparr>
      in logEvent (InsertShardRowCall row) (st\<lparr>pg_dist_shard := pg_dist_shard st @ [row]\<rparr>))"

subsection \<open>The functions of reference\_table\_utils.c\<close>

text \<open>\<^verbatim>\<open>CreateReferenceTableColocationId\<close>.\<close>

definition CreateReferenceTableColocationId :: "metadata \<Rightarrow> nat \<times> metadata" where
  "CreateReferenceTableColocationId st =
     (let workerNodeList = WorkerNodeList st;
          shardCount = 1;
          replicationFactor = length workerNodeList;
          distributionColumnType = InvalidOid;
          colocation = ColocationId st shardCount replicationFactor distributionColumnType
      in if colocation = INVALID_COLOCATION_ID
         then CreateColocationGroup shardCount replicationFactor distributionColumnType st
         else (colocation, st))"

text \<open>\<^verbatim>\<open>ConvertToReferenceTableMetadata\<close>.\<close>

definition ConvertToReferenceTableMetadata ::
  "collaborators \<Rightarrow> nat \<Rightarrow> nat \<Rightarrow> metadata \<Rightarrow> error option \<times> metadata" where
  "ConvertToReferenceTableMetadata env relation shard st =
     (case TableColocationId st relation of
        Inl e \<Rightarrow> (Some e, st)
      | Inr currentColocationId \<Rightarrow>
          (case CreateReferenceTableColocationId st of
             (newColocationId, st1) \<Rightarrow>
               (case DeletePartitionRow relation st1 of
                  (Some e, st2) \<Rightarrow> (Some e, st2)
                | (None, st2) \<Rightarrow>
                    (case DeleteShardRow shard
                            (DeleteColocationGroupIfNoTablesBelong currentColocationId st2) of
                       (Some e, st3) \<Rightarrow> (Some e, st3)
                     | (None, st3) \<Rightarrow>
                         (None,
                          InsertShardRow relation shard (ShardStorageType env relation) None None
                            (InsertIntoPgDistPartition relation DISTRIBUTE_BY_NONE None
                               newColocationId REPLICATION_MODEL_2PC st3))))))"

text \<open>The body of the \<^verbatim>\<open>foreach\<close> over the sorted worker nodes in
  \<^verbatim>\<open>ReplicateShardToAllWorkers\<close>.\<close>

definition ReplicateShardToWorker ::
  "collaborators \<Rightarrow> ShardInterval \<Rightarrow> ShardPlacement list \<Rightarrow> string \<Rightarrow> string list \<Rightarrow>
     WorkerNode \<Rightarrow> metadata \<Rightarrow> error option \<times> metadata"
where
  "ReplicateShardToWorker env shardInterval shardPlacementList tableOwner ddlCommandList
       workerNode st =
     (case SearchShardPlacementInList shardPlacementList (workerName workerNode)
             (workerPort workerNode) True of
        Inl e \<Rightarrow> (Some e, st)
      | Inr targetPlacement \<Rightarrow>
          (if (case targetPlacement of None \<Rightarrow> True
               | Some target \<Rightarrow> shardState target \<noteq> FILE_FINALIZED)
           then
             (case SendCommandListToWorkerInSingleTransaction env (workerName workerNode)
                     (workerPort workerNode) tableOwner ddlCommandList
                     (logEvent (Notice (workerName workerNode) (workerPort workerNode)) st) of
                (Some e, st1) \<Rightarrow> (Some e, st1)
              | (None, st1) \<Rightarrow>
                  (case targetPlacement of
                     None \<Rightarrow>
                       (None,
                        InsertShardPlacementRow (shardId shardInterval) INVALID_PLACEMENT_ID
                          FILE_FINALIZED 0 (workerName workerNode) (workerPort workerNode) st1)
                   | Some target \<Rightarrow>
                       UpdateShardPlacementState (placementId target) FILE_FINALIZED st1))
           else (None, st)))"

fun ReplicateShardToWorkers ::
  "collaborators \<Rightarrow> ShardInterval \<Rightarrow> ShardPlacement list \<Rightarrow> string \<Rightarrow> string list \<Rightarrow>
     WorkerNode list \<Rightarrow> metadata \<Rightarrow> error option \<times> metadata"
where
  "ReplicateShardToWorkers env shardInterval shardPlacementList tableOwner ddlCommandList [] st =
     (None, st)"
| "ReplicateShardToWorkers env shardInterval shardPlacementList tableOwner ddlCommandList
       (workerNode # rest) st =
     (case ReplicateShardToWorker env shardInterval shardPlacementList tableOwner ddlCommandList
             workerNode st of
        (Some e, st1) \<Rightarrow> (Some e, st1)
      | (None, st1) \<Rightarrow>
          ReplicateShardToWorkers env shardInterval shardPlacementList tableOwner ddlCommandList
            rest st1)"

text \<open>\<^verbatim>\<open>ReplicateShardToAllWorkers\<close>. The placement list is read once, before the loop.
  With \<^verbatim>\<open>missingOk\<close> false the source placement is never \<^verbatim>\<open>NULL\<close>; reading its node
  name through \<^verbatim>\<open>NULL\<close> would be a null dereference.\<close>

definition ReplicateShardToAllWorkers ::
  "collaborators \<Rightarrow> ShardInterval \<Rightarrow> metadata \<Rightarrow> error option \<times> metadata" where
  "ReplicateShardToAllWorkers env shardInterval st =
     (let shardPlacementList = ShardPlacementList st (shardId shardInterval) in
      case FinalizedShardPlacement st (shardId shardInterval) False of
        Inl e \<Rightarrow> (Some e, st)
      | Inr None \<Rightarrow> (Some NullPointerDereference, st)
      | Inr (Some sourceShardPlacement) \<Rightarrow>
          (let tableOwner = TableOwner env (relationId shardInterval);
               ddlCommandList =
                 CopyShardCommandList env shardInterval (nodeName sourceShardPlacement)
                   (nodePort sourceShardPlacement);
               st1 = acquireLock (DistNodeRelationLock AccessShareLock) st;
               workerNodeList = SortList (WorkerNodeList st1) CompareWorkerNodes
           in ReplicateShardToWorkers env shardInterval shardPlacementList tableOwner
                ddlCommandList workerNodeList st1))"

text \<open>\<^verbatim>\<open>ReplicateSingleShardTableToAllWorkers\<close>.\<close>

definition ReplicateSingleShardTableToAllWorkers ::
  "collaborators \<Rightarrow> nat \<Rightarrow> metadata \<Rightarrow> error option \<times> metadata" where
  "ReplicateSingleShardTableToAllWorkers env relation st =
     (case linitial (LoadShardIntervalList st relation) of
        Inl e \<Rightarrow> (Some e, st)
      | Inr shardInterval \<Rightarrow>
          (if CopyShardForeignConstraintCommandList env shardInterval \<noteq> [] \<or>
              TableReferenced env relation
           then (Some (PartOfForeignConstraint relation), st)
           else
             (case ReplicateShardToAllWorkers env shardInterval st of
                (Some e, st1) \<Rightarrow> (Some e, st1)
              | (None, st1) \<Rightarrow>
                  ConvertToReferenceTableMetadata env relation (shardId shardInterval) st1)))"

text \<open>\<^verbatim>\<open>upgrade_to_reference_table\<close>.\<close>

definition upgrade_to_reference_table ::
  "collaborators \<Rightarrow> nat \<Rightarrow> metadata \<Rightarrow> error option \<times> metadata" where
  "upgrade_to_reference_table env relation st =
     (case EnsureSchemaNode env of
        Some e \<Rightarrow> (Some e, st)
      | None \<Rightarrow>
          (if \<not> IsDistributedTable st relation then (Some (RelationNotDistributed relation), st)
           else
             (case PartitionMethod st relation of
                Inl e \<Rightarrow> (Some e, st)
              | Inr method \<Rightarrow>
                  (if method = DISTRIBUTE_BY_NONE then (Some (AlreadyReferenceTable relation), st)
                   else if length (LoadShardIntervalList st relation) \<noteq> 1
                     then (Some (ShardCountNotOne relation), st)
                   else
                     (case linitial (LoadShardIntervalList st relation) of
                        Inl e \<Rightarrow> (Some e, st)
                      | Inr shardInterval \<Rightarrow>
                          ReplicateSingleShardTableToAllWorkers env relation
                            (acquireLock (ShardResourceLock (shardId shardInterval) ExclusiveLock)
                               (acquireLock
                                  (ShardDistributionMetadataLock (shardId shardInterval)
                                     ExclusiveLock) st)))))))"

text \<open>\<^verbatim>\<open>ReferenceTableList\<close>: the scan of \<^verbatim>\<open>pg_dist_partition\<close> for the rows with
  partition method \<^verbatim>\<open>DISTRIBUTE_BY_NONE\<close>, collecting their relation ids.\<close>

definition ReferenceTableList :: "metadata \<Rightarrow> nat list" where
  "ReferenceTableList st =
     map logicalrelid (filter (\<lambda>row. partmethod row = DISTRIBUTE_BY_NONE) (pg_dist_partition st))"

text \<open>The \<^verbatim>\<open>foreach\<close> over the reference tables in
  \<^verbatim>\<open>ReplicateAllReferenceTablesToAllNodes\<close>, with the local variable
  \<^verbatim>\<open>currentColocationId\<close> threaded through.\<close>

fun ReplicateReferenceTables ::
  "collaborators \<Rightarrow> nat list \<Rightarrow> nat \<Rightarrow> metadata \<Rightarrow> (error + nat) \<times> metadata" where
  "ReplicateReferenceTables env [] currentColocationId st = (Inr currentColocationId, st)"
| "ReplicateReferenceTables env (referenceTableId # rest) currentColocationId st =
     (case linitial (LoadShardIntervalList st referenceTableId) of
        Inl e \<Rightarrow> (Inl e, st)
      | Inr shardInterval \<Rightarrow>
          (case ReplicateShardToAllWorkers env shardInterval
                  (acquireLock (ShardDistributionMetadataLock (shardId shardInterval) ExclusiveLock)
                     st) of
             (Some e, st1) \<Rightarrow> (Inl e, st1)
           | (None, st1) \<Rightarrow>
               (if currentColocationId = INVALID_COLOCATION_ID
                then (case TableColocationId st1 referenceTableId of
                        Inl e \<Rightarrow> (Inl e, st1)
                      | Inr colocation \<Rightarrow> ReplicateReferenceTables env rest colocation st1)
                else ReplicateReferenceTables env rest currentColocationId st1)))"

text \<open>\<^verbatim>\<open>ReplicateAllReferenceTablesToAllNodes\<close>. The reference table list, the worker
  node list and the worker count are read before the loop.\<close>

definition ReplicateAllReferenceTablesToAllNodes ::
  "collaborators \<Rightarrow> metadata \<Rightarrow> error option \<times> metadata" where
  "ReplicateAllReferenceTablesToAllNodes env st =
     (let referenceTableList = ReferenceTableList st;
          st0 = acquireLock (DistNodeRelationLock AccessShareLock) st;
          workerCount = length (WorkerNodeList st0)
      in case ReplicateReferenceTables env referenceTableList INVALID_COLOCATION_ID st0 of
           (Inl e, st1) \<Rightarrow> (Some e, st1)
         | (Inr currentColocationId, st1) \<Rightarrow>
             (if currentColocationId \<noteq> INVALID_COLOCATION_ID
              then UpdateColocationGroupReplicationFactor currentColocationId workerCount st1
              else (None, st1)))"
subsection \<open>Placements of a shard on a worker, and example clusters\<close>

text \<open>The placement of a shard on a worker that the loop of
  \<^verbatim>\<open>ReplicateShardToAllWorkers\<close> looks at: the first placement row of the shard on the
  node with the worker's name and port.\<close>

definition placementOn :: "nat \<Rightarrow> string \<Rightarrow> nat \<Rightarrow> ShardPlacement list \<Rightarrow> ShardPlacement option" where
  "placementOn shard name port rows =
     find (\<lambda>row. placementShardId row = shard \<and> nodeName row = name \<and> nodePort row = port) rows"

text \<open>A worker holds a healthy placement of a shard when that row exists and is in
  state \<^verbatim>\<open>FILE_FINALIZED\<close>.\<close>

definition finalizedIn :: "nat \<Rightarrow> string \<Rightarrow> nat \<Rightarrow> ShardPlacement list \<Rightarrow> bool" where
  "finalizedIn shard name port rows =
     (case placementOn shard name port rows of
        None \<Rightarrow> False
      | Some row \<Rightarrow> shardState row = FILE_FINALIZED)"

definition finalizedOn :: "metadata \<Rightarrow> nat \<Rightarrow> string \<Rightarrow> nat \<Rightarrow> bool" where
  "finalizedOn st shard name port = finalizedIn shard name port (pg_dist_shard_placement st)"

text \<open>How the placement table during a run relates to the table the run started from,
  whose placement list the loop keeps reading: on a node where the shard had no placement,
  every placement of the shard is finalized; on a node where it had one, the placement
  found has the same placement id, and is finalized if it was.\<close>

definition agrees :: "nat \<Rightarrow> ShardPlacement list \<Rightarrow> ShardPlacement list \<Rightarrow> bool" where
  "agrees shard rows0 rows =
     (\<forall>name port.
        case placementOn shard name port rows0 of
          None \<Rightarrow>
            (\<forall>row \<in> set rows.
               placementShardId row = shard \<and> nodeName row = name \<and> nodePort row = port \<longrightarrow>
               shardState row = FILE_FINALIZED)
        | Some row0 \<Rightarrow>
            (\<exists>row. placementOn shard name port rows = Some row \<and>
                   placementId row = placementId row0 \<and>
                   (shardState row0 = FILE_FINALIZED \<longrightarrow> shardState row = FILE_FINALIZED)))"

text \<open>The row update that \<^verbatim>\<open>UpdateShardPlacementState\<close> makes with state
  \<^verbatim>\<open>FILE_FINALIZED\<close>.\<close>

definition finalize :: "nat \<Rightarrow> ShardPlacement \<Rightarrow> ShardPlacement" where
  "finalize placement row =
     (if placementId row = placement then row\<lparr>shardState := FILE_FINALIZED\<rparr> else row)"

text \<open>The temporal property of a log: every insert of a placement row and every update
  of a placement state sets \<^verbatim>\<open>FILE_FINALIZED\<close> and comes directly after a command list that
  the same worker has committed. The second argument is the worker whose commit is the
  entry just before, if any; an update names a placement id, and its worker is the one
  whose placement in the list \<open>pl\<close> has that id.\<close>

fun finalizedAfterCopy ::
  "ShardPlacement list \<Rightarrow> (string \<times> nat) option \<Rightarrow> event list \<Rightarrow> bool" where
  "finalizedAfterCopy pl committed [] = True"
| "finalizedAfterCopy pl committed (e # rest) =
     (case e of
        SendCommandList name port owner cmds ok \<Rightarrow>
          finalizedAfterCopy pl (if ok then Some (name, port) else None) rest
      | InsertShardPlacementRowCall row \<Rightarrow>
          shardState row = FILE_FINALIZED \<and> committed = Some (nodeName row, nodePort row) \<and>
          finalizedAfterCopy pl None rest
      | UpdateShardPlacementStateCall placement state \<Rightarrow>
          state = FILE_FINALIZED \<and>
          (case committed of
             None \<Rightarrow> False
           | Some (name, port) \<Rightarrow>
               map_option placementId
                 (find (\<lambda>row. nodeName row = name \<and> nodePort row = port) pl) = Some placement) \<and>
          finalizedAfterCopy pl None rest
      | _ \<Rightarrow> finalizedAfterCopy pl None rest)"

text \<open>The log entries a replication of a shard can make: notices, command lists sent
  as the given owner and with the given commands, and placement inserts and updates.\<close>

fun isReplicationEvent :: "string \<Rightarrow> string list \<Rightarrow> event \<Rightarrow> bool" where
  "isReplicationEvent tableOwner ddlCommandList (Notice name port) = True"
| "isReplicationEvent tableOwner ddlCommandList (SendCommandList name port owner cmds ok) =
     (owner = tableOwner \<and> cmds = ddlCommandList)"
| "isReplicationEvent tableOwner ddlCommandList (InsertShardPlacementRowCall row) = True"
| "isReplicationEvent tableOwner ddlCommandList (UpdateShardPlacementStateCall placement state) = True"
| "isReplicationEvent tableOwner ddlCommandList e = False"

text \<open>What the loop over the workers leaves alone: every catalog but the placements, the
  colocation sequence and the locks.\<close>

definition sameCatalogs :: "metadata \<Rightarrow> metadata \<Rightarrow> bool" where
  "sameCatalogs s s' =
     (pg_dist_partition s' = pg_dist_partition s \<and> pg_dist_shard s' = pg_dist_shard s \<and>
      pg_dist_colocation s' = pg_dist_colocation s \<and> pg_dist_node s' = pg_dist_node s \<and>
      colocationid_seq s' = colocationid_seq s \<and> heldLocks s' = heldLocks s)"

text \<open>The log entries of one pass of the loop body for a worker: none when the worker is
  skipped; a notice and a failed command list; or a notice, a committed command list and the
  insert or the update of the worker's placement.\<close>

definition stepLog ::
  "ShardPlacement list \<Rightarrow> string \<Rightarrow> string list \<Rightarrow> WorkerNode \<Rightarrow> event list \<Rightarrow> bool" where
  "stepLog pl owner cmds w evs =
     (evs = [] \<or>
      evs = [Notice (workerName w) (workerPort w),
             SendCommandList (workerName w) (workerPort w) owner cmds False] \<or>
      (\<exists>row. evs = [Notice (workerName w) (workerPort w),
                    SendCommandList (workerName w) (workerPort w) owner cmds True,
                    InsertShardPlacementRowCall row] \<and>
             shardState row = FILE_FINALIZED \<and> nodeName row = workerName w \<and>
             nodePort row = workerPort w) \<or>
      (\<exists>target. evs = [Notice (workerName w) (workerPort w),
                    SendCommandList (workerName w) (workerPort w) owner cmds True,
                    UpdateShardPlacementStateCall (placementId target) FILE_FINALIZED] \<and>
             find (\<lambda>row. nodeName row = workerName w \<and> nodePort row = workerPort w) pl = Some target))"

text \<open>Example clusters: table 1 with shard 100, healthy on node a; workers where named;
  every worker but c commits what it is sent.\<close>

definition example_env :: collaborators where
  "example_env =
     \<lparr>GetLocalGroupId = 0,
      CopyShardForeignConstraintCommandList = (\<lambda>shardInterval. []),
      TableReferenced = (\<lambda>relation. False),
      CopyShardCommandList = (\<lambda>shardInterval name port. [''copy'']),
      TableOwner = (\<lambda>relation. ''owner''),
      ShardStorageType = (\<lambda>relation. CHR ''t''),
      workerCommits = (\<lambda>name port commandList. name \<noteq> ''c'')\<rparr>"

definition example_shard :: ShardInterval where
  "example_shard =
     \<lparr>relationId = 1, shardId = 100, storageType = CHR ''t'',
      minValue = Some ''0'', maxValue = Some ''9''\<rparr>"

definition placement_a :: ShardPlacement where
  "placement_a =
     \<lparr>placementId = 1, placementShardId = 100, shardState = FILE_FINALIZED,
      nodeName = ''a'', nodePort = 5432\<rparr>"

definition placement_b :: ShardPlacement where
  "placement_b =
     \<lparr>placementId = 2, placementShardId = 100, shardState = FILE_FINALIZED,
      nodeName = ''b'', nodePort = 5432\<rparr>"

definition example_metadata :: metadata where
  "example_metadata =
     \<lparr>pg_dist_partition =
        [\<lparr>logicalrelid = 1, partmethod = DISTRIBUTE_BY_HASH, partkey = Some ''id'',
          colocationid = 5, repmodel = REPLICATION_MODEL_COORDINATOR\<rparr>],
      pg_dist_shard = [example_shard],
      pg_dist_shard_placement = [placement_a],
      pg_dist_colocation =
        [\<lparr>groupColocationId = 5, shardcount = 1, replicationfactor = 1,
          distributioncolumntype = 23\<rparr>],
      pg_dist_node = [\<lparr>workerName = ''b'', workerPort = 5432\<rparr>,
                      \<lparr>workerName = ''a'', workerPort = 5432\<rparr>],
      placementid_seq = 2, colocationid_seq = 6, heldLocks = [], events = []\<rparr>"

definition replicated_metadata :: metadata where
  "replicated_metadata =
     example_metadata
       \<lparr>pg_dist_shard_placement := [placement_a, placement_b],
        placementid_seq := 3,
        heldLocks := [DistNodeRelationLock AccessShareLock],
        events := [Notice ''b'' 5432, SendCommandList ''b'' 5432 ''owner'' [''copy''] True,
                   InsertShardPlacementRowCall placement_b]\<rparr>"

definition three_worker_metadata :: metadata where
  "three_worker_metadata =
     example_metadata
       \<lparr>pg_dist_node := [\<lparr>workerName = ''c'', workerPort = 5432\<rparr>,
                         \<lparr>workerName = ''b'', workerPort = 5432\<rparr>,
                         \<lparr>workerName = ''a'', workerPort = 5432\<rparr>]\<rparr>"

definition no_source_metadata :: metadata where
  "no_source_metadata =
     example_metadata\<lparr>pg_dist_shard_placement := [placement_a\<lparr>shardState := FILE_INACTIVE\<rparr>]\<rparr>"

text \<open>The preconditions of the promotion, as the code checks them: the table is
  distributed, is not a reference table, has exactly one shard, is not referenced by a
  foreign key and has no foreign-key commands on a shard.\<close>

definition violatesPrecondition :: "collaborators \<Rightarrow> metadata \<Rightarrow> nat \<Rightarrow> bool" where
  "violatesPrecondition env st relation =
     (\<not> IsDistributedTable st relation \<or>
      PartitionMethod st relation = Inr DISTRIBUTE_BY_NONE \<or>
      length (LoadShardIntervalList st relation) \<noteq> 1 \<or>
      TableReferenced env relation \<or>
      list_ex (\<lambda>shardInterval. CopyShardForeignConstraintCommandList env shardInterval \<noteq> [])
        (LoadShardIntervalList st relation))"

text \<open>An error names a violated rule when it is the error of one of the four
  checks, for this table, and the table violates that check.\<close>

fun namesViolatedRule :: "collaborators \<Rightarrow> metadata \<Rightarrow> nat \<Rightarrow> error \<Rightarrow> bool" where
  "namesViolatedRule env st relation (RelationNotDistributed named) =
     (named = relation \<and> \<not> IsDistributedTable st relation)"
| "namesViolatedRule env st relation (AlreadyReferenceTable named) =
     (named = relation \<and> PartitionMethod st relation = Inr DISTRIBUTE_BY_NONE)"
| "namesViolatedRule env st relation (ShardCountNotOne named) =
     (named = relation \<and> length (LoadShardIntervalList st relation) \<noteq> 1)"
| "namesViolatedRule env st relation (PartOfForeignConstraint named) =
     (named = relation \<and>
      (TableReferenced env relation \<or>
       list_ex (\<lambda>shardInterval. CopyShardForeignConstraintCommandList env shardInterval \<noteq> [])
         (LoadShardIntervalList st relation)))"
| "namesViolatedRule env st relation e = False"

text \<open>No row inserted, updated or deleted, no sequence advanced, nothing logged; only
  locks may differ.\<close>

definition sameRows :: "metadata \<Rightarrow> metadata \<Rightarrow> bool" where
  "sameRows st st' =
     (pg_dist_partition st' = pg_dist_partition st \<and> pg_dist_shard st' = pg_dist_shard st \<and>
      pg_dist_shard_placement st' = pg_dist_shard_placement st \<and>
      pg_dist_colocation st' = pg_dist_colocation st \<and> pg_dist_node st' = pg_dist_node st \<and>
      placementid_seq st' = placementid_seq st \<and> colocationid_seq st' = colocationid_seq st \<and>
      events st' = events st)"

definition reference_metadata :: metadata where
  "reference_metadata =
     example_metadata
       \<lparr>pg_dist_partition :=
          [\<lparr>logicalrelid = 1, partmethod = DISTRIBUTE_BY_NONE, partkey = None,
            colocationid = 5, repmodel = REPLICATION_MODEL_2PC\<rparr>]\<rparr>"

definition two_shard_metadata :: metadata where
  "two_shard_metadata =
     example_metadata
       \<lparr>pg_dist_shard := [example_shard, example_shard\<lparr>shardId := 101\<rparr>]\<rparr>"








text \<open>Log entries that update a replication factor, and log entries that send a
  command list to a worker.\<close>

fun isFactorUpdate :: "event \<Rightarrow> bool" where
  "isFactorUpdate (UpdateColocationGroupReplicationFactorCall colocation factor) = True"
| "isFactorUpdate e = False"

fun isCopy :: "event \<Rightarrow> bool" where
  "isCopy (SendCommandList name port owner cmds ok) = True"
| "isCopy e = False"

text \<open>A reference table is healthy when the shard the loop replicates, its first, has
  a finalized placement on every worker node.\<close>

definition shardHealthy :: "metadata \<Rightarrow> nat \<Rightarrow> bool" where
  "shardHealthy st referenceTableId =
     (case LoadShardIntervalList st referenceTableId of
        [] \<Rightarrow> True
      | shardInterval # others \<Rightarrow>
          list_all
            (\<lambda>workerNode. finalizedOn st (shardId shardInterval) (workerName workerNode)
                             (workerPort workerNode))
            (pg_dist_node st))"

definition referenceTablesHealthy :: "metadata \<Rightarrow> bool" where
  "referenceTablesHealthy st = list_all (shardHealthy st) (ReferenceTableList st)"

text \<open>Runs that change nothing but locks, and runs that leave the partition, shard,
  colocation and node tables alone.\<close>

definition sameData :: "metadata \<Rightarrow> metadata \<Rightarrow> bool" where
  "sameData st st' =
     (pg_dist_partition st' = pg_dist_partition st \<and> pg_dist_shard st' = pg_dist_shard st \<and>
      pg_dist_shard_placement st' = pg_dist_shard_placement st \<and>
      pg_dist_colocation st' = pg_dist_colocation st \<and> pg_dist_node st' = pg_dist_node st \<and>
      events st' = events st)"

definition sameTables :: "metadata \<Rightarrow> metadata \<Rightarrow> bool" where
  "sameTables st st' =
     (pg_dist_partition st' = pg_dist_partition st \<and> pg_dist_shard st' = pg_dist_shard st \<and>
      pg_dist_colocation st' = pg_dist_colocation st \<and> pg_dist_node st' = pg_dist_node st)"

definition reference_cluster :: metadata where
  "reference_cluster =
     example_metadata
       \<lparr>pg_dist_partition :=
          [\<lparr>logicalrelid = 1, partmethod = DISTRIBUTE_BY_NONE, partkey = None,
            colocationid = 5, repmodel = REPLICATION_MODEL_2PC\<rparr>],
        pg_dist_colocation :=
          [\<lparr>groupColocationId = 5, shardcount = 1, replicationfactor = 1,
            distributioncolumntype = 0\<rparr>]\<rparr>"

text \<open>The command lists a replication sends when it copies from a chosen source: going
  through the workers in order, one list to each worker that holds no healthy placement of
  the shard in the metadata the run starts from, up to and including the first worker that
  fails to commit; and the error the run ends with, that of the first such worker.\<close>

fun copiesSent ::
  "collaborators \<Rightarrow> metadata \<Rightarrow> nat \<Rightarrow> string \<Rightarrow> string list \<Rightarrow> WorkerNode list \<Rightarrow> event list"
where
  "copiesSent env st shard tableOwner ddlCommandList [] = []"
| "copiesSent env st shard tableOwner ddlCommandList (workerNode # rest) =
     (if finalizedOn st shard (workerName workerNode) (workerPort workerNode)
      then copiesSent env st shard tableOwner ddlCommandList rest
      else if workerCommits env (workerName workerNode) (workerPort workerNode) ddlCommandList
      then SendCommandList (workerName workerNode) (workerPort workerNode) tableOwner
             ddlCommandList True #
           copiesSent env st shard tableOwner ddlCommandList rest
      else [SendCommandList (workerName workerNode) (workerPort workerNode) tableOwner
              ddlCommandList False])"

fun copyOutcome ::
  "collaborators \<Rightarrow> metadata \<Rightarrow> nat \<Rightarrow> string list \<Rightarrow> WorkerNode list \<Rightarrow> error option"
where
  "copyOutcome env st shard ddlCommandList [] = None"
| "copyOutcome env st shard ddlCommandList (workerNode # rest) =
     (if finalizedOn st shard (workerName workerNode) (workerPort workerNode) \<or>
         workerCommits env (workerName workerNode) (workerPort workerNode) ddlCommandList
      then copyOutcome env st shard ddlCommandList rest
      else Some (WorkerCommandFailed (workerName workerNode) (workerPort workerNode)))"



text \<open>The colocation id that the loop over the reference tables ends with when it starts
  with the invalid id: the id of the first table in the list that carries a valid one, and
  the invalid id when no table does.\<close>

fun firstValidColocationId :: "metadata \<Rightarrow> nat list \<Rightarrow> nat" where
  "firstValidColocationId st [] = INVALID_COLOCATION_ID"
| "firstValidColocationId st (referenceTableId # rest) =
     (case TableColocationId st referenceTableId of
        Inl e \<Rightarrow> firstValidColocationId st rest
      | Inr colocation \<Rightarrow>
          (if colocation \<noteq> INVALID_COLOCATION_ID then colocation
           else firstValidColocationId st rest))"

text \<open>The reference cluster with the reference table's partition row carrying the
  invalid colocation id, and the reference cluster with the shard's only placement
  inactive.\<close>

definition invalid_group_cluster :: metadata where
  "invalid_group_cluster =
     reference_cluster
       \<lparr>pg_dist_partition :=
          [\<lparr>logicalrelid = 1, partmethod = DISTRIBUTE_BY_NONE, partkey = None,
            colocationid = 0, repmodel = REPLICATION_MODEL_2PC\<rparr>]\<rparr>"

definition unhealthy_reference_cluster :: metadata where
  "unhealthy_reference_cluster =
     reference_cluster
       \<lparr>pg_dist_shard_placement := [placement_a\<lparr>shardState := FILE_INACTIVE\<rparr>]\<rparr>"

text \<open>The reference cluster with the shard healthy on both workers.\<close>

definition healthy_reference_cluster :: metadata where
  "healthy_reference_cluster =
     reference_cluster\<lparr>pg_dist_shard_placement := [placement_a, placement_b]\<rparr>"

section \<open>Properties of the executor\<close>

lemma CopyRows_tuples: "CopyRows rows store = store\<lparr>tuples := tuples store @ rows\<rparr>"
  by (induction rows arbitrary: store) (simp_all add: tuplestore_putvalues_def)

lemma Drain_no_store:
  "finishedUnderlyingScan s \<Longrightarrow> tuplestorestate s = None \<Longrightarrow> Drain run s w = (Inr [], s, w)"
  by (subst Drain.simps) (simp add: CitusExecScan_def)

lemma Drain_store:
  "finishedUnderlyingScan s \<Longrightarrow> tuplestorestate s = Some store \<Longrightarrow>
     fst (Drain run s w) = Inr (drop (readpos store) (tuples store)) \<and>
     snd (snd (Drain run s w)) = w"
proof (induction "length (tuples store) - readpos store" arbitrary: s store)
  case 0
  then show ?case
    by (subst Drain.simps, subst (2) Drain.simps)
       (simp add: CitusExecScan_def tuplestore_gettupleslot_def)
next
  case (Suc n)
  let ?store' = "store\<lparr>readpos := Suc (readpos store)\<rparr>"
  let ?s' = "s\<lparr>tuplestorestate := Some ?store'\<rparr>"
  from Suc.hyps(2) have lt: "readpos store < length (tuples store)" by simp
  have scan: "CitusExecScan run s w = (Inr (Some (tuples store ! readpos store)), ?s', w)"
    using Suc.prems lt by (simp add: CitusExecScan_def tuplestore_gettupleslot_def)
  have ih: "fst (Drain run ?s' w) = Inr (drop (readpos ?store') (tuples ?store')) \<and>
            snd (snd (Drain run ?s' w)) = w"
    using Suc.hyps(2) Suc.prems by (intro Suc.hyps(1)) simp_all
  have unf: "Drain run s w =
      (case Drain run ?s' w of
         (Inl e, s2, w2) \<Rightarrow> (Inl e, s2, w2)
       | (Inr rows, s2, w2) \<Rightarrow> (Inr (tuples store ! readpos store # rows), s2, w2))"
    by (subst Drain.simps) (simp add: scan)
  obtain r s2 w2 where d: "Drain run ?s' w = (r, s2, w2)"
    by (cases "Drain run ?s' w") auto
  with ih have "r = Inr (drop (Suc (readpos store)) (tuples store))" "w2 = w"
    by simp_all
  with unf d lt show ?case
    by (simp add: Cons_nth_drop_Suc)
qed

lemma Drain_store_state:
  "finishedUnderlyingScan s \<Longrightarrow> tuplestorestate s = Some store \<Longrightarrow>
     tuplestorestate (fst (snd (Drain run s w))) =
       Some (store\<lparr>readpos := max (readpos store) (length (tuples store))\<rparr>)"
proof (induction "length (tuples store) - readpos store" arbitrary: s store)
  case 0
  then have ge: "\<not> readpos store < length (tuples store)" by simp
  then have "max (readpos store) (length (tuples store)) = readpos store" by simp
  with 0 ge show ?case
    by (subst Drain.simps) (simp add: CitusExecScan_def tuplestore_gettupleslot_def)
next
  case (Suc n)
  let ?store' = "store\<lparr>readpos := Suc (readpos store)\<rparr>"
  let ?s' = "s\<lparr>tuplestorestate := Some ?store'\<rparr>"
  from Suc.hyps(2) have lt: "readpos store < length (tuples store)" by simp
  have scan: "CitusExecScan run s w = (Inr (Some (tuples store ! readpos store)), ?s', w)"
    using Suc.prems lt by (simp add: CitusExecScan_def tuplestore_gettupleslot_def)
  have ih: "tuplestorestate (fst (snd (Drain run ?s' w))) =
       Some (?store'\<lparr>readpos := max (readpos ?store') (length (tuples ?store'))\<rparr>)"
    using Suc.hyps(2) Suc.prems by (intro Suc.hyps(1)) simp_all
  have unf: "Drain run s w =
      (case Drain run ?s' w of
         (Inl e, s2, w2) \<Rightarrow> (Inl e, s2, w2)
       | (Inr rows, s2, w2) \<Rightarrow> (Inr (tuples store ! readpos store # rows), s2, w2))"
    by (subst Drain.simps) (simp add: scan)
  have "fst (snd (Drain run s w)) = fst (snd (Drain run ?s' w))"
    unfolding unf by (simp split: prod.splits sum.splits)
  with ih lt show ?case
    by (simp add: max_def)
qed

lemma CitusExecScan_unfinished:
  "\<not> finishedUnderlyingScan s \<Longrightarrow>
     CitusExecScan run s w =
       (case UnderlyingScan run s w of
          (Some e, s1, w1) \<Rightarrow> (Inl e, s1, w1)
        | (None, s1, w1) \<Rightarrow> CitusExecScan run s1 w1)"
  by (auto simp: CitusExecScan_def split: prod.splits option.splits
           dest: UnderlyingScan_finished)

lemma Drain_unfinished:
  assumes "\<not> finishedUnderlyingScan s"
  shows "Drain run s w =
       (case UnderlyingScan run s w of
          (Some e, s1, w1) \<Rightarrow> (Inl e, s1, w1)
        | (None, s1, w1) \<Rightarrow> Drain run s1 w1)"
proof -
  obtain r s1 w1 where u: "UnderlyingScan run s w = (r, s1, w1)"
    by (cases "UnderlyingScan run s w") auto
  show ?thesis
  proof (cases r)
    case None
    with u assms have "CitusExecScan run s w = CitusExecScan run s1 w1"
      by (simp add: CitusExecScan_unfinished)
    then have "Drain run s w = Drain run s1 w1"
      by (simp add: Drain.simps [of run s w] Drain.simps [of run s1 w1])
    with u None show ?thesis by simp
  next
    case (Some e)
    with u assms show ?thesis
      by (simp add: Drain.simps [of run s w] CitusExecScan_unfinished)
  qed
qed

lemma logCall_simps:
  "jobDirectories (logCall e w) = jobDirectories w"
  "rememberedJobDirectories (logCall e w) = rememberedJobDirectories w"
  "executorLog (logCall e w) = executorLog w @ [e]"
  by (simp_all add: logCall_def)

lemma TaskFileRows_cong:
  "jobDirectories w' = jobDirectories w \<Longrightarrow> TaskFileRows w' = TaskFileRows w"
  by (rule ext) (simp add: TaskFileRows_def)

lemma AttemptedTasks_cong:
  "jobDirectories w' = jobDirectories w \<Longrightarrow> AttemptedTasks w' ts = AttemptedTasks w ts"
  by (induction ts) (simp_all add: TaskFileRows_cong [of w' w] split: option.splits)

lemma TaskFilesRows_cong:
  "jobDirectories w' = jobDirectories w \<Longrightarrow> TaskFilesRows w' ts = TaskFilesRows w ts"
  by (induction ts) (simp_all add: TaskFileRows_cong [of w' w] split: option.splits)

lemma LoadTaskFiles_Cons:
  "LoadTaskFiles (t # ts) store w =
     (case TaskFileRows w t of
        None \<Rightarrow>
          (Some (CouldNotOpenFile (taskJobId t) (taskId t)), store,
           logCall (BeginCopyFromCall (taskJobId t) (taskId t)) w)
      | Some rows \<Rightarrow>
          LoadTaskFiles ts (CopyRows rows store)
            (logCall (BeginCopyFromCall (taskJobId t) (taskId t)) w))"
  by (simp add: TaskFileRows_def logCall_simps split: option.splits)

lemma LoadTaskFiles_world:
  "LoadTaskFiles ts store w = (r, store', w') \<Longrightarrow>
     jobDirectories w' = jobDirectories w \<and>
     rememberedJobDirectories w' = rememberedJobDirectories w \<and>
     executorLog w' = executorLog w @ BeginCopyFromCalls (AttemptedTasks w ts)"
proof (induction ts arbitrary: store w)
  case Nil
  then show ?case by (simp add: BeginCopyFromCalls_def)
next
  case (Cons t ts)
  let ?w1 = "logCall (BeginCopyFromCall (taskJobId t) (taskId t)) w"
  have same: "jobDirectories ?w1 = jobDirectories w" by (simp add: logCall_simps)
  show ?case
  proof (cases "TaskFileRows w t")
    case None
    with Cons.prems show ?thesis
      by (auto simp: LoadTaskFiles_Cons logCall_simps BeginCopyFromCalls_def
               simp del: LoadTaskFiles.simps)
  next
    case (Some rows)
    with Cons.prems have rec: "LoadTaskFiles ts (CopyRows rows store) ?w1 = (r, store', w')"
      by (simp add: LoadTaskFiles_Cons del: LoadTaskFiles.simps)
    have att: "AttemptedTasks ?w1 ts = AttemptedTasks w ts"
      using same by (rule AttemptedTasks_cong)
    from Cons.IH [OF rec] Some show ?thesis
      by (simp add: att logCall_simps BeginCopyFromCalls_def)
  qed
qed

lemma LoadTaskFiles_store:
  "LoadTaskFiles ts store w = (r, store', w') \<Longrightarrow>
     (case TaskFilesRows w ts of
        None \<Rightarrow> r \<noteq> None
      | Some rows \<Rightarrow> r = None \<and> store' = store\<lparr>tuples := tuples store @ rows\<rparr>)"
proof (induction ts arbitrary: store w)
  case Nil
  then show ?case by simp
next
  case (Cons t ts)
  let ?w1 = "logCall (BeginCopyFromCall (taskJobId t) (taskId t)) w"
  have same: "jobDirectories ?w1 = jobDirectories w" by (simp add: logCall_simps)
  show ?case
  proof (cases "TaskFileRows w t")
    case None
    with Cons.prems show ?thesis
      by (auto simp: LoadTaskFiles_Cons simp del: LoadTaskFiles.simps)
  next
    case (Some rows)
    with Cons.prems have rec: "LoadTaskFiles ts (CopyRows rows store) ?w1 = (r, store', w')"
      by (simp add: LoadTaskFiles_Cons del: LoadTaskFiles.simps)
    have rows: "TaskFilesRows ?w1 ts = TaskFilesRows w ts"
      using same by (rule TaskFilesRows_cong)
    from Cons.IH [OF rec] Some show ?thesis
      by (auto simp: rows CopyRows_tuples split: option.splits)
  qed
qed

lemma ExecuteTasks_remembered:
  "ExecuteTasks run ts w = (r, w') \<Longrightarrow>
     rememberedJobDirectories w' = rememberedJobDirectories w"
proof (induction ts arbitrary: w)
  case Nil
  then show ?case by simp
next
  case (Cons t ts)
  show ?case
  proof (cases "run t")
    case None
    with Cons.prems show ?thesis by (auto simp: logCall_def)
  next
    case (Some rows)
    show ?thesis
    proof (cases "jobDirectories w (taskJobId t)")
      case None
      with Some Cons.prems show ?thesis by (auto simp: logCall_def)
    next
      case files: (Some files)
      let ?w2 = "(logCall (WorkerCall t) w)\<lparr>jobDirectories :=
         (jobDirectories (logCall (WorkerCall t) w))(taskJobId t \<mapsto> files(taskId t \<mapsto> rows))\<rparr>"
      from Some files Cons.prems have rec: "ExecuteTasks run ts ?w2 = (r, w')"
        by (simp add: logCall_simps)
      from Cons.IH [OF rec] show ?thesis
        by (simp add: logCall_simps)
    qed
  qed
qed

lemma ExecuteTasks_log:
  "ExecuteTasks run ts w = (r, w') \<Longrightarrow> \<exists>evs. executorLog w' = executorLog w @ evs"
proof (induction ts arbitrary: w)
  case Nil
  then show ?case by simp
next
  case (Cons t ts)
  show ?case
  proof (cases "run t")
    case None
    with Cons.prems show ?thesis by (auto simp: logCall_def)
  next
    case (Some rows)
    show ?thesis
    proof (cases "jobDirectories w (taskJobId t)")
      case None
      with Some Cons.prems show ?thesis by (auto simp: logCall_def)
    next
      case files: (Some files)
      let ?w2 = "(logCall (WorkerCall t) w)\<lparr>jobDirectories :=
         (jobDirectories (logCall (WorkerCall t) w))(taskJobId t \<mapsto> files(taskId t \<mapsto> rows))\<rparr>"
      from Some files Cons.prems have rec: "ExecuteTasks run ts ?w2 = (r, w')"
        by (simp add: logCall_simps)
      from Cons.IH [OF rec] obtain evs where "executorLog w' = executorLog ?w2 @ evs" ..
      then have "executorLog w' = executorLog w @ (WorkerCall t # evs)"
        by (simp add: logCall_simps)
      then show ?thesis ..
    qed
  qed
qed

lemma ExecuteTasks_directories:
  "ExecuteTasks run ts w = (r, w') \<Longrightarrow> jobDirectories w job \<noteq> None \<Longrightarrow>
     jobDirectories w' job \<noteq> None"
proof (induction ts arbitrary: w)
  case Nil
  then show ?case by simp
next
  case (Cons t ts)
  show ?case
  proof (cases "run t")
    case None
    with Cons.prems show ?thesis by (auto simp: logCall_def)
  next
    case (Some rows)
    show ?thesis
    proof (cases "jobDirectories w (taskJobId t)")
      case None
      with Some Cons.prems show ?thesis by (auto simp: logCall_def)
    next
      case files: (Some files)
      let ?w2 = "(logCall (WorkerCall t) w)\<lparr>jobDirectories :=
         (jobDirectories (logCall (WorkerCall t) w))(taskJobId t \<mapsto> files(taskId t \<mapsto> rows))\<rparr>"
      from Some files Cons.prems have rec: "ExecuteTasks run ts ?w2 = (r, w')"
        by (simp add: logCall_simps)
      have "jobDirectories ?w2 job \<noteq> None"
        using Cons.prems(2) by (simp add: logCall_simps)
      with rec show ?thesis by (rule Cons.IH)
    qed
  qed
qed

lemma CitusExecScan_world:
  "snd (snd (CitusExecScan run s w)) =
     (if finishedUnderlyingScan s then w else snd (snd (UnderlyingScan run s w)))"
  by (auto simp: CitusExecScan_def split: prod.splits option.splits)

lemma explainWorld_simps:
  "jobDirectories (explainWorld job w) = jobDirectories (withJobDirectory job w)"
  "rememberedJobDirectories (explainWorld job w) = job # rememberedJobDirectories w"
  "executorLog (explainWorld job w) =
     executorLog w @ [CreateDirectoryCall job, RememberJobDirectoryCall job, TuplestoreBegin]"
  by (simp_all add: explainWorld_def withJobDirectory_def logCall_def
        ResourceOwnerRememberJobDirectory_def)

lemma UnderlyingScan_explain:
  assumes "es_top_eflags s AND EXEC_FLAG_EXPLAIN_ONLY \<noteq> 0"
    and "jobDirectories w (jobId (workerJob s)) = None"
  shows "UnderlyingScan run s w =
     (case LoadTaskFiles (taskList (workerJob s)) tuplestore_begin_heap
             (explainWorld (jobId (workerJob s)) w) of
        (Some e, store, w4) \<Rightarrow> (Some e, s\<lparr>tuplestorestate := Some store\<rparr>, w4)
      | (None, store, w4) \<Rightarrow>
          (None, s\<lparr>tuplestorestate := Some store, finishedUnderlyingScan := True\<rparr>, w4))"
  using assms
  by (simp add: UnderlyingScan_def CreateDirectory_def explainWorld_def logCall_simps Let_def)

lemma UnderlyingScan_directory:
  assumes "jobDirectories w (jobId (workerJob s)) = None"
    and "UnderlyingScan run s w = (r, s1, w1)"
  shows "jobDirectories w1 (jobId (workerJob s)) \<noteq> None"
    and "jobId (workerJob s) \<in> set (rememberedJobDirectories w1)"
    and "\<exists>rest. executorLog w1 =
           executorLog w @ CreateDirectoryCall (jobId (workerJob s)) #
             RememberJobDirectoryCall (jobId (workerJob s)) # rest"
proof -
  let ?j = "jobId (workerJob s)"
  let ?w2 = "ResourceOwnerRememberJobDirectory ?j
          ((logCall (CreateDirectoryCall ?j) w)
             \<lparr>jobDirectories := (jobDirectories w)(?j \<mapsto> Map.empty)\<rparr>)"
  let ?strategy =
    "if es_top_eflags s AND EXEC_FLAG_EXPLAIN_ONLY \<noteq> 0 then (None, ?w2)
     else if executorType s = MULTI_EXECUTOR_REAL_TIME
       then MultiRealTimeExecute run (workerJob s) ?w2
     else if executorType s = MULTI_EXECUTOR_TASK_TRACKER
       then MultiTaskTrackerExecute run (workerJob s) ?w2
     else (None, ?w2)"
  obtain r3 w3 where st: "?strategy = (r3, w3)"
    by (cases ?strategy) auto
  have w2: "jobDirectories ?w2 ?j \<noteq> None" "rememberedJobDirectories ?w2 = ?j # rememberedJobDirectories w"
    "executorLog ?w2 = executorLog w @ [CreateDirectoryCall ?j, RememberJobDirectoryCall ?j]"
    by (simp_all add: ResourceOwnerRememberJobDirectory_def logCall_def)
  have w3: "jobDirectories w3 ?j \<noteq> None \<and> rememberedJobDirectories w3 = ?j # rememberedJobDirectories w
    \<and> (\<exists>evs. executorLog w3 = executorLog w @ [CreateDirectoryCall ?j, RememberJobDirectoryCall ?j] @ evs)"
  proof (cases "es_top_eflags s AND EXEC_FLAG_EXPLAIN_ONLY \<noteq> 0 \<or>
                (executorType s \<noteq> MULTI_EXECUTOR_REAL_TIME \<and> executorType s \<noteq> MULTI_EXECUTOR_TASK_TRACKER)")
    case True
    with st have "w3 = ?w2" by (auto split: if_splits)
    with w2 show ?thesis by simp
  next
    case False
    then obtain ev where ex: "ExecuteTasks run (taskList (workerJob s)) (logCall ev ?w2) = (r3, w3)"
      using st by (auto simp: MultiRealTimeExecute_def MultiTaskTrackerExecute_def split: if_splits)
    have a: "jobDirectories w3 ?j \<noteq> None"
      using ex by (rule ExecuteTasks_directories) (simp add: logCall_simps w2)
    have b: "rememberedJobDirectories w3 = ?j # rememberedJobDirectories w"
      using ExecuteTasks_remembered [OF ex] by (simp add: logCall_simps w2)
    from ExecuteTasks_log [OF ex] obtain evs where "executorLog w3 = executorLog (logCall ev ?w2) @ evs" ..
    then have "executorLog w3 = executorLog w @ [CreateDirectoryCall ?j, RememberJobDirectoryCall ?j] @ (ev # evs)"
      by (simp add: logCall_simps w2)
    then have c: "\<exists>evs. executorLog w3 = executorLog w @ [CreateDirectoryCall ?j, RememberJobDirectoryCall ?j] @ evs" ..
    from a b c show ?thesis by simp
  qed
  have u: "UnderlyingScan run s w =
     (case (r3, w3) of
        (Some e, w3) \<Rightarrow> (Some e, s, w3)
      | (None, w3) \<Rightarrow>
         (case LoadTaskFiles (taskList (workerJob s)) tuplestore_begin_heap (logCall TuplestoreBegin w3) of
            (Some e, store, w4) \<Rightarrow> (Some e, s\<lparr>tuplestorestate := Some store\<rparr>, w4)
          | (None, store, w4) \<Rightarrow>
              (None, s\<lparr>tuplestorestate := Some store, finishedUnderlyingScan := True\<rparr>, w4)))"
    using assms(1) st [symmetric]
    by (simp add: UnderlyingScan_def CreateDirectory_def logCall_simps Let_def)
  have w1: "jobDirectories w1 ?j \<noteq> None \<and> rememberedJobDirectories w1 = ?j # rememberedJobDirectories w
    \<and> (\<exists>evs. executorLog w1 = executorLog w @ [CreateDirectoryCall ?j, RememberJobDirectoryCall ?j] @ evs)"
  proof (cases r3)
    case (Some e)
    with u assms(2) have "w1 = w3" by simp
    with w3 show ?thesis by simp
  next
    case None
    obtain r4 store w4 where l: "LoadTaskFiles (taskList (workerJob s)) tuplestore_begin_heap (logCall TuplestoreBegin w3) = (r4, store, w4)"
      by (cases "LoadTaskFiles (taskList (workerJob s)) tuplestore_begin_heap (logCall TuplestoreBegin w3)") auto
    with None u assms(2) have "w1 = w4" by (cases r4) simp_all
    moreover from w3 obtain evs where
      "executorLog w3 = executorLog w @ [CreateDirectoryCall ?j, RememberJobDirectoryCall ?j] @ evs" by blast
    ultimately show ?thesis
      using LoadTaskFiles_world [OF l] w3 by (simp add: logCall_simps)
  qed
  from w1 show "jobDirectories w1 ?j \<noteq> None" by simp
  from w1 show "?j \<in> set (rememberedJobDirectories w1)" by simp
  from w1 show "\<exists>rest. executorLog w1 =
           executorLog w @ CreateDirectoryCall ?j # RememberJobDirectoryCall ?j # rest" by simp
qed

lemma Drain_finished_world:
  "finishedUnderlyingScan s \<Longrightarrow> snd (snd (Drain run s w)) = w"
  by (cases "tuplestorestate s") (simp_all add: Drain_no_store Drain_store)

lemma filter_BeginCopyFromCalls: "filter isWorkerEvent (BeginCopyFromCalls ts) = []"
  by (induction ts) (simp_all add: BeginCopyFromCalls_def)

lemma UnderlyingScan_directory_exists:
  "jobDirectories w (jobId (workerJob s)) = Some files \<Longrightarrow>
     UnderlyingScan run s w =
       (Some (CouldNotCreateDirectory (jobId (workerJob s))), s,
        logCall (CreateDirectoryCall (jobId (workerJob s))) w)"
  by (simp add: UnderlyingScan_def CreateDirectory_def logCall_simps Let_def)

lemma UnderlyingScan_explain_log:
  assumes "es_top_eflags s AND EXEC_FLAG_EXPLAIN_ONLY \<noteq> 0"
    and "jobDirectories w (jobId (workerJob s)) = None"
  shows "executorLog (snd (snd (UnderlyingScan run s w))) =
     executorLog w @
       [CreateDirectoryCall (jobId (workerJob s)), RememberJobDirectoryCall (jobId (workerJob s)),
        TuplestoreBegin] @
       BeginCopyFromCalls
         (AttemptedTasks (withJobDirectory (jobId (workerJob s)) w) (taskList (workerJob s)))"
proof -
  let ?j = "jobId (workerJob s)"
  obtain r store w4 where l:
    "LoadTaskFiles (taskList (workerJob s)) tuplestore_begin_heap (explainWorld ?j w) = (r, store, w4)"
    by (cases "LoadTaskFiles (taskList (workerJob s)) tuplestore_begin_heap (explainWorld ?j w)") auto
  have w: "snd (snd (UnderlyingScan run s w)) = w4"
    using l by (cases r) (simp_all add: UnderlyingScan_explain [OF assms])
  have att: "AttemptedTasks (explainWorld ?j w) (taskList (workerJob s)) =
             AttemptedTasks (withJobDirectory ?j w) (taskList (workerJob s))"
    by (rule AttemptedTasks_cong) (simp add: explainWorld_simps)
  from LoadTaskFiles_world [OF l] show ?thesis
    by (simp add: w att explainWorld_simps)
qed

lemma UnderlyingScan_explain_store:
  assumes "es_top_eflags s AND EXEC_FLAG_EXPLAIN_ONLY \<noteq> 0"
    and "jobDirectories w (jobId (workerJob s)) = None"
  shows "case TaskFilesRows (withJobDirectory (jobId (workerJob s)) w) (taskList (workerJob s)) of
       None \<Rightarrow> fst (UnderlyingScan run s w) \<noteq> None
     | Some rows \<Rightarrow>
         fst (UnderlyingScan run s w) = None \<and>
         fst (snd (UnderlyingScan run s w)) =
           s\<lparr>tuplestorestate := Some \<lparr>tuples = rows, readpos = 0\<rparr>,
             finishedUnderlyingScan := True\<rparr>"
proof -
  let ?j = "jobId (workerJob s)"
  obtain r store w4 where l:
    "LoadTaskFiles (taskList (workerJob s)) tuplestore_begin_heap (explainWorld ?j w) = (r, store, w4)"
    by (cases "LoadTaskFiles (taskList (workerJob s)) tuplestore_begin_heap (explainWorld ?j w)") auto
  have rows: "TaskFilesRows (explainWorld ?j w) (taskList (workerJob s)) =
             TaskFilesRows (withJobDirectory ?j w) (taskList (workerJob s))"
    by (rule TaskFilesRows_cong) (simp add: explainWorld_simps)
  from LoadTaskFiles_store [OF l] show ?thesis
    using l
    by (auto simp: rows UnderlyingScan_explain [OF assms] tuplestore_begin_heap_def
             split: option.splits)
qed


subsection \<open>The first execution of the scan\<close>

text \<open>
  Claim C10, as amended. For every job, also one with the explain-only flag, the first
  execution of the scan (the underlying scan is not finished and the job directory does not
  exist yet) creates the job directory and registers it with the resource owner before the
  execution strategy is consulted: the two calls are the first two entries the execution
  adds to the log, under every strategy and whether the scan then returns or raises, so
  every call of an executor or of a worker comes after them; and after the execution the
  directory exists and is registered.
\<close>

theorem CitusExecScan_first_execution:
  assumes "\<not> finishedUnderlyingScan s"
    and "jobDirectories w (jobId (workerJob s)) = None"
  shows "jobDirectories (snd (snd (CitusExecScan run s w))) (jobId (workerJob s)) \<noteq> None \<and>
     jobId (workerJob s) \<in> set (rememberedJobDirectories (snd (snd (CitusExecScan run s w)))) \<and>
     (\<exists>rest. executorLog (snd (snd (CitusExecScan run s w))) =
        executorLog w @ CreateDirectoryCall (jobId (workerJob s)) #
          RememberJobDirectoryCall (jobId (workerJob s)) # rest)"
proof -
  obtain r s1 w1 where u: "UnderlyingScan run s w = (r, s1, w1)"
    by (cases "UnderlyingScan run s w") auto
  have world: "snd (snd (CitusExecScan run s w)) = w1"
    using assms(1) u by (simp add: CitusExecScan_world)
  from UnderlyingScan_directory [OF assms(2) u] show ?thesis
    unfolding world by blast
qed

theorem CitusExecScan_first_execution_witness:
  "jobDirectories (snd (snd (CitusExecScan example_run realtime_scan empty_world))) 7 \<noteq> None \<and>
   7 \<in> set (rememberedJobDirectories (snd (snd (CitusExecScan example_run realtime_scan empty_world)))) \<and>
   executorLog (snd (snd (CitusExecScan example_run realtime_scan empty_world))) =
     [CreateDirectoryCall 7, RememberJobDirectoryCall 7, MultiRealTimeExecuteCall 7,
      WorkerCall example_task, TuplestoreBegin, BeginCopyFromCall 7 1] \<and>
   fst (CitusExecScan example_run realtime_scan empty_world) = Inr (Some [1])"
proof -
  have log: "executorLog (snd (snd (CitusExecScan example_run realtime_scan empty_world))) =
     [CreateDirectoryCall 7, RememberJobDirectoryCall 7, MultiRealTimeExecuteCall 7,
      WorkerCall example_task, TuplestoreBegin, BeginCopyFromCall 7 1]"
    and row: "fst (CitusExecScan example_run realtime_scan empty_world) = Inr (Some [1])"
    by (simp_all add: CitusExecScan_def UnderlyingScan_def CreateDirectory_def
        ResourceOwnerRememberJobDirectory_def MultiRealTimeExecute_def logCall_def Let_def
        realtime_scan_def empty_world_def example_job_def example_task_def example_run_def
        EXEC_FLAG_EXPLAIN_ONLY_def tuplestore_begin_heap_def tuplestore_putvalues_def
        tuplestore_gettupleslot_def)
  from CitusExecScan_first_execution [of realtime_scan empty_world example_run]
  have "jobDirectories (snd (snd (CitusExecScan example_run realtime_scan empty_world))) 7 \<noteq> None \<and>
     7 \<in> set (rememberedJobDirectories (snd (snd (CitusExecScan example_run realtime_scan empty_world))))"
    by (simp add: realtime_scan_def empty_world_def example_job_def)
  with log row show ?thesis by simp
qed

text \<open>
  The first execution of the explain-only scan of a job with one task, on a master node
  with no job directory: the directory is created and registered, the task's file is
  opened, but no executor has written it, so the scan raises and the tuplestore holds no
  row; the file is not read into the tuplestore.
\<close>

theorem first_execution_counterexample:
  "es_top_eflags explain_scan AND EXEC_FLAG_EXPLAIN_ONLY \<noteq> 0 \<and>
   \<not> finishedUnderlyingScan explain_scan \<and>
   jobDirectories empty_world (jobId (workerJob explain_scan)) = None \<and>
   executorLog (snd (snd (CitusExecScan example_run explain_scan empty_world))) =
     [CreateDirectoryCall 7, RememberJobDirectoryCall 7, TuplestoreBegin, BeginCopyFromCall 7 1] \<and>
   fst (CitusExecScan example_run explain_scan empty_world) = Inl (CouldNotOpenFile 7 1) \<and>
   map_option tuples
     (tuplestorestate (fst (snd (CitusExecScan example_run explain_scan empty_world)))) = Some []"
  by (simp add: CitusExecScan_def UnderlyingScan_def CreateDirectory_def
        ResourceOwnerRememberJobDirectory_def logCall_def Let_def
        explain_scan_def empty_world_def example_job_def example_task_def
        EXEC_FLAG_EXPLAIN_ONLY_def tuplestore_begin_heap_def)

subsection \<open>Explain-only jobs\<close>

text \<open>
  What the scan does under the explain-only flag. Draining the scan makes no worker call,
  whatever the scan state and the world: the log gains no call of the real-time executor,
  of the task-tracker executor or of a worker. On the first execution (job directory not
  yet there) of a job with no task the drain yields the empty sequence of rows. The loop
  that loads the task files is not skipped with the executors: for a job whose first task
  carries the job's id, the first execution raises on that task's file.
\<close>

lemma explain_only_scan:
  assumes "es_top_eflags s AND EXEC_FLAG_EXPLAIN_ONLY \<noteq> 0"
  shows "filter isWorkerEvent (executorLog (snd (snd (Drain run s w)))) =
       filter isWorkerEvent (executorLog w) \<and>
     (\<not> finishedUnderlyingScan s \<and> jobDirectories w (jobId (workerJob s)) = None \<and>
      taskList (workerJob s) = [] \<longrightarrow> fst (Drain run s w) = Inr []) \<and>
     (\<not> finishedUnderlyingScan s \<and> jobDirectories w (jobId (workerJob s)) = None \<and>
      taskList (workerJob s) = t # ts \<and> taskJobId t = jobId (workerJob s) \<longrightarrow>
        fst (Drain run s w) = Inl (CouldNotOpenFile (jobId (workerJob s)) (taskId t)))"
proof -
  let ?j = "jobId (workerJob s)"
  have calls: "filter isWorkerEvent (executorLog (snd (snd (Drain run s w)))) =
       filter isWorkerEvent (executorLog w)"
  proof (cases "finishedUnderlyingScan s")
    case True
    then show ?thesis by (simp add: Drain_finished_world)
  next
    case False
    obtain r s1 w1 where u: "UnderlyingScan run s w = (r, s1, w1)"
      by (cases "UnderlyingScan run s w") auto
    have w1: "filter isWorkerEvent (executorLog w1) = filter isWorkerEvent (executorLog w)"
    proof (cases "jobDirectories w ?j")
      case None
      from UnderlyingScan_explain_log [OF assms None, of run] u show ?thesis
        by (simp add: filter_BeginCopyFromCalls)
    next
      case (Some files)
      from UnderlyingScan_directory_exists [OF Some, of run] u show ?thesis
        by (simp add: logCall_simps)
    qed
    show ?thesis
    proof (cases r)
      case None
      with u have "finishedUnderlyingScan s1" by (simp add: UnderlyingScan_finished)
      then have "snd (snd (Drain run s1 w1)) = w1" by (rule Drain_finished_world)
      with False u None w1 show ?thesis by (simp add: Drain_unfinished)
    next
      case (Some e)
      with False u w1 show ?thesis by (simp add: Drain_unfinished)
    qed
  qed
  have empty: "fst (Drain run s w) = Inr []"
    if "\<not> finishedUnderlyingScan s" "jobDirectories w ?j = None" "taskList (workerJob s) = []"
  proof -
    from UnderlyingScan_explain_store [OF assms that(2), of run] that(3)
    have "fst (UnderlyingScan run s w) = None"
      and "fst (snd (UnderlyingScan run s w)) =
           s\<lparr>tuplestorestate := Some \<lparr>tuples = [], readpos = 0\<rparr>,
             finishedUnderlyingScan := True\<rparr>"
      by simp_all
    then obtain w1 where u: "UnderlyingScan run s w =
        (None, s\<lparr>tuplestorestate := Some \<lparr>tuples = [], readpos = 0\<rparr>,
             finishedUnderlyingScan := True\<rparr>, w1)"
      by (cases "UnderlyingScan run s w") auto
    have "fst (Drain run (s\<lparr>tuplestorestate := Some \<lparr>tuples = [], readpos = 0\<rparr>,
             finishedUnderlyingScan := True\<rparr>) w1) = Inr []"
      using Drain_store [of "s\<lparr>tuplestorestate := Some \<lparr>tuples = [], readpos = 0\<rparr>,
             finishedUnderlyingScan := True\<rparr>" "\<lparr>tuples = [], readpos = 0\<rparr>" run w1]
      by simp
    with that(1) u show ?thesis by (simp add: Drain_unfinished)
  qed
  have missing: "fst (Drain run s w) = Inl (CouldNotOpenFile ?j (taskId t))"
    if "\<not> finishedUnderlyingScan s" "jobDirectories w ?j = None"
       "taskList (workerJob s) = t # ts" "taskJobId t = ?j"
  proof -
    have "TaskFileRows (explainWorld ?j w) t = None"
      using that(4) by (simp add: TaskFileRows_def explainWorld_simps withJobDirectory_def)
    then have "fst (UnderlyingScan run s w) = Some (CouldNotOpenFile ?j (taskId t))"
      using that(3,4)
      by (simp add: UnderlyingScan_explain [OF assms that(2)] LoadTaskFiles_Cons
               del: LoadTaskFiles.simps)
    then obtain s1 w1 where "UnderlyingScan run s w = (Some (CouldNotOpenFile ?j (taskId t)), s1, w1)"
      by (cases "UnderlyingScan run s w") auto
    with that(1) show ?thesis by (simp add: Drain_unfinished)
  qed
  from calls empty missing show ?thesis by blast
qed

lemma explain_only_no_task:
  "filter isWorkerEvent (executorLog (snd (snd (Drain example_run explain_no_task_scan empty_world)))) = [] \<and>
   fst (Drain example_run explain_no_task_scan empty_world) = Inr []"
  using explain_only_scan [of explain_no_task_scan example_run empty_world]
  by (simp add: explain_no_task_scan_def empty_world_def EXEC_FLAG_EXPLAIN_ONLY_def)

text \<open>
  Claim C7. An explain-only job yields an empty sequence of rows and makes no worker call.
  The code skips the executors under the flag, as its comment says, but not the loading of
  the files the executors would have written. For job 7 with task 1, scanned with the
  explain-only flag for the first time on a master node with no job directory, the drain
  makes no worker call, and instead of the empty sequence it raises the error for the
  task's file, which does not exist.
\<close>

theorem explain_only_drain_raises:
  "es_top_eflags explain_scan AND EXEC_FLAG_EXPLAIN_ONLY \<noteq> 0 \<and>
   filter isWorkerEvent
     (executorLog (snd (snd (Drain example_run explain_scan empty_world)))) = [] \<and>
   fst (Drain example_run explain_scan empty_world) = Inl (CouldNotOpenFile 7 1) \<and>
   fst (Drain example_run explain_scan empty_world) \<noteq> Inr []"
proof -
  have u: "fst (UnderlyingScan example_run explain_scan empty_world) = Some (CouldNotOpenFile 7 1)"
    by (simp add: UnderlyingScan_def CreateDirectory_def ResourceOwnerRememberJobDirectory_def
        logCall_def Let_def explain_scan_def empty_world_def
        example_job_def example_task_def EXEC_FLAG_EXPLAIN_ONLY_def)
  then obtain s1 w1 where
    "UnderlyingScan example_run explain_scan empty_world = (Some (CouldNotOpenFile 7 1), s1, w1)"
    by (cases "UnderlyingScan example_run explain_scan empty_world") auto
  moreover have "\<not> finishedUnderlyingScan explain_scan"
    by (simp add: explain_scan_def)
  ultimately have raised:
    "fst (Drain example_run explain_scan empty_world) = Inl (CouldNotOpenFile 7 1)"
    by (simp add: Drain_unfinished)
  have flag: "es_top_eflags explain_scan AND EXEC_FLAG_EXPLAIN_ONLY \<noteq> 0"
    by (simp add: explain_scan_def EXEC_FLAG_EXPLAIN_ONLY_def)
  have "filter isWorkerEvent
     (executorLog (snd (snd (Drain example_run explain_scan empty_world)))) =
     filter isWorkerEvent (executorLog empty_world)"
    using explain_only_scan [OF flag, of example_run empty_world] by blast
  then have calls: "filter isWorkerEvent
     (executorLog (snd (snd (Drain example_run explain_scan empty_world)))) = []"
    by (simp add: empty_world_def)
  from flag calls raised show ?thesis by simp
qed

lemma EndScanTimes_ended:
  "tuplestorestate s = None \<Longrightarrow> EndScanTimes n s w = (s, w)"
  by (induction n) (simp_all add: CitusEndScan_def)

subsection \<open>Teardown\<close>

text \<open>
  Claim C9. Teardown of the result spool is idempotent. For every scan state and world,
  \<^verbatim>\<open>CitusEndScan\<close> leaves the tuplestore pointer \<^verbatim>\<open>NULL\<close>; it calls
  \<^verbatim>\<open>tuplestore_end\<close> exactly once when a tuplestore is present and not at all when none
  is; and one call followed by any number \<open>n\<close> of further calls yields the scan state and
  world of the single call, so the further calls have no effect.
\<close>

theorem CitusEndScan_idempotent:
  "tuplestorestate (fst (CitusEndScan s w)) = None \<and>
   executorLog (snd (CitusEndScan s w)) =
     executorLog w @ (case tuplestorestate s of Some store \<Rightarrow> [TuplestoreEnd] | None \<Rightarrow> []) \<and>
   EndScanTimes (Suc n) s w = CitusEndScan s w"
proof -
  obtain s' w' where e: "CitusEndScan s w = (s', w')"
    by (cases "CitusEndScan s w") auto
  then have none: "tuplestorestate s' = None"
    by (auto simp: CitusEndScan_def split: option.splits)
  have "EndScanTimes (Suc n) s w = EndScanTimes n s' w'"
    by (simp add: e)
  also have "\<dots> = (s', w')"
    using none by (rule EndScanTimes_ended)
  finally have "EndScanTimes (Suc n) s w = CitusEndScan s w"
    by (simp add: e)
  moreover have "executorLog (snd (CitusEndScan s w)) =
     executorLog w @ (case tuplestorestate s of Some store \<Rightarrow> [TuplestoreEnd] | None \<Rightarrow> [])"
    by (simp add: CitusEndScan_def logCall_def split: option.splits)
  ultimately show ?thesis
    using none e by simp
qed

theorem CitusEndScan_idempotent_witness:
  "executorLog (snd (CitusEndScan spooled_scan empty_world)) = [TuplestoreEnd] \<and>
   executorLog (snd (EndScanTimes 3 spooled_scan empty_world)) = [TuplestoreEnd] \<and>
   tuplestorestate (fst (EndScanTimes 3 spooled_scan empty_world)) = None"
  using CitusEndScan_idempotent [of spooled_scan empty_world 2]
  by (simp add: spooled_scan_def empty_world_def numeral_3_eq_3)

subsection \<open>Re-scanning\<close>

text \<open>
  Claim C8, as amended. Re-scanning is not supported. For every scan state and world,
  \<^verbatim>\<open>CitusReScan\<close> leaves the tuplestore pointer \<^verbatim>\<open>NULL\<close> and adds to the log the
  warning alone (so the store is not released and no task is re-run); draining the scan
  afterwards yields the empty sequence of rows and changes neither the scan state nor the
  world.
\<close>

theorem CitusReScan_discards_spool:
  "tuplestorestate (fst (CitusReScan s w)) = None \<and>
   executorLog (snd (CitusReScan s w)) = executorLog w @ [Warning ''unsupported at this point''] \<and>
   Drain run (fst (CitusReScan s w)) (snd (CitusReScan s w)) = (Inr [], CitusReScan s w)"
  by (simp add: CitusReScan_def logCall_def Drain_no_store)

text \<open>
  The real-time scan of a job with one task, whose worker yields two rows, is drained,
  re-scanned and drained again: the first drain yields the two rows and leaves them
  spooled, the second yields none.
\<close>

lemma realtime_underlying:
  "\<exists>w1. UnderlyingScan example_run realtime_scan empty_world =
     (None, realtime_scan\<lparr>tuplestorestate := Some \<lparr>tuples = [[1], [2]], readpos = 0\<rparr>,
                          finishedUnderlyingScan := True\<rparr>, w1)"
  by (simp add: UnderlyingScan_def CreateDirectory_def ResourceOwnerRememberJobDirectory_def
        MultiRealTimeExecute_def logCall_def Let_def realtime_scan_def empty_world_def
        example_job_def example_task_def example_run_def EXEC_FLAG_EXPLAIN_ONLY_def
        tuplestore_begin_heap_def tuplestore_putvalues_def)

lemma first_scan_rows: "fst first_scan = Inr [[1], [2]]"
proof -
  from realtime_underlying obtain w1 where
    u: "UnderlyingScan example_run realtime_scan empty_world =
     (None, realtime_scan\<lparr>tuplestorestate := Some \<lparr>tuples = [[1], [2]], readpos = 0\<rparr>,
                          finishedUnderlyingScan := True\<rparr>, w1)" ..
  have "\<not> finishedUnderlyingScan realtime_scan" by (simp add: realtime_scan_def)
  then have "first_scan = Drain example_run
      (realtime_scan\<lparr>tuplestorestate := Some \<lparr>tuples = [[1], [2]], readpos = 0\<rparr>,
                          finishedUnderlyingScan := True\<rparr>) w1"
    by (simp add: first_scan_def Drain_unfinished u)
  then show ?thesis
    using Drain_store [of "realtime_scan\<lparr>tuplestorestate := Some \<lparr>tuples = [[1], [2]], readpos = 0\<rparr>,
                          finishedUnderlyingScan := True\<rparr>" "\<lparr>tuples = [[1], [2]], readpos = 0\<rparr>"
                          example_run w1]
    by simp
qed

lemma first_scan_spool:
  "tuplestorestate (fst (snd first_scan)) = Some \<lparr>tuples = [[1], [2]], readpos = 2\<rparr>"
proof -
  from realtime_underlying obtain w1 where
    u: "UnderlyingScan example_run realtime_scan empty_world =
     (None, realtime_scan\<lparr>tuplestorestate := Some \<lparr>tuples = [[1], [2]], readpos = 0\<rparr>,
                          finishedUnderlyingScan := True\<rparr>, w1)" ..
  have "\<not> finishedUnderlyingScan realtime_scan" by (simp add: realtime_scan_def)
  then have "first_scan = Drain example_run
      (realtime_scan\<lparr>tuplestorestate := Some \<lparr>tuples = [[1], [2]], readpos = 0\<rparr>,
                          finishedUnderlyingScan := True\<rparr>) w1"
    by (simp add: first_scan_def Drain_unfinished u)
  then show ?thesis
    using Drain_store_state [of "realtime_scan\<lparr>tuplestorestate := Some \<lparr>tuples = [[1], [2]], readpos = 0\<rparr>,
                          finishedUnderlyingScan := True\<rparr>" "\<lparr>tuples = [[1], [2]], readpos = 0\<rparr>"
                          example_run w1]
    by simp
qed

theorem rescan_counterexample:
  "fst first_scan = Inr [[1], [2]] \<and>
   tuplestorestate (fst (snd first_scan)) = Some \<lparr>tuples = [[1], [2]], readpos = 2\<rparr> \<and>
   fst second_scan = Inr [] \<and> fst second_scan \<noteq> fst first_scan"
proof -
  have "fst second_scan = Inr []"
    unfolding second_scan_def
    by (simp add: CitusReScan_def Drain_no_store)
  with first_scan_rows first_scan_spool show ?thesis by simp
qed

section \<open>Properties of the replicator\<close>

lemma find_filter: "find P (filter Q xs) = find (\<lambda>x. Q x \<and> P x) xs"
  by (induction xs) simp_all

lemma Search_placementOn:
  "SearchShardPlacementInList (ShardPlacementList st shard) name port True =
     Inr (placementOn shard name port (pg_dist_shard_placement st))"
  by (simp add: SearchShardPlacementInList_def ShardPlacementList_def placementOn_def find_filter
           split: option.splits)


text \<open>The outcomes of the loop body.\<close>

lemma step_skip:
  assumes "placementOn (shardId si) (workerName w) (workerPort w) (pg_dist_shard_placement st0) = Some target"
    and "shardState target = FILE_FINALIZED"
  shows "ReplicateShardToWorker env si (ShardPlacementList st0 (shardId si)) owner cmds w s = (None, s)"
  using assms by (simp add: ReplicateShardToWorker_def Search_placementOn)

lemma step_fail:
  assumes "case placementOn (shardId si) (workerName w) (workerPort w) (pg_dist_shard_placement st0) of
             None \<Rightarrow> True | Some target \<Rightarrow> shardState target \<noteq> FILE_FINALIZED"
    and "\<not> workerCommits env (workerName w) (workerPort w) cmds"
  shows "ReplicateShardToWorker env si (ShardPlacementList st0 (shardId si)) owner cmds w s =
     (Some (WorkerCommandFailed (workerName w) (workerPort w)),
      s\<lparr>events := events s @ [Notice (workerName w) (workerPort w),
           SendCommandList (workerName w) (workerPort w) owner cmds False]\<rparr>)"
  using assms
  by (simp add: ReplicateShardToWorker_def Search_placementOn
        SendCommandListToWorkerInSingleTransaction_def logEvent_def)

lemma step_insert:
  assumes "placementOn (shardId si) (workerName w) (workerPort w) (pg_dist_shard_placement st0) = None"
    and "workerCommits env (workerName w) (workerPort w) cmds"
  shows "ReplicateShardToWorker env si (ShardPlacementList st0 (shardId si)) owner cmds w s =
     (None,
      s\<lparr>placementid_seq := Suc (placementid_seq s),
        pg_dist_shard_placement := pg_dist_shard_placement s @
          [\<lparr>placementId = placementid_seq s, placementShardId = shardId si,
            shardState = FILE_FINALIZED, nodeName = workerName w, nodePort = workerPort w\<rparr>],
        events := events s @ [Notice (workerName w) (workerPort w),
           SendCommandList (workerName w) (workerPort w) owner cmds True,
           InsertShardPlacementRowCall
             \<lparr>placementId = placementid_seq s, placementShardId = shardId si,
              shardState = FILE_FINALIZED, nodeName = workerName w, nodePort = workerPort w\<rparr>]\<rparr>)"
  using assms
  by (simp add: ReplicateShardToWorker_def Search_placementOn
        SendCommandListToWorkerInSingleTransaction_def logEvent_def InsertShardPlacementRow_def
        INVALID_PLACEMENT_ID_def Let_def)

lemma step_update:
  assumes "placementOn (shardId si) (workerName w) (workerPort w) (pg_dist_shard_placement st0) = Some target"
    and "shardState target \<noteq> FILE_FINALIZED"
    and "workerCommits env (workerName w) (workerPort w) cmds"
    and "find (\<lambda>row. placementId row = placementId target) (pg_dist_shard_placement s) = Some found"
  shows "ReplicateShardToWorker env si (ShardPlacementList st0 (shardId si)) owner cmds w s =
     (None,
      s\<lparr>pg_dist_shard_placement := map (finalize (placementId target)) (pg_dist_shard_placement s),
        events := events s @ [Notice (workerName w) (workerPort w),
           SendCommandList (workerName w) (workerPort w) owner cmds True,
           UpdateShardPlacementStateCall (placementId target) FILE_FINALIZED]\<rparr>)"
proof -
  have "finalize (placementId target) =
     (\<lambda>row. if placementId row = placementId target then row\<lparr>shardState := FILE_FINALIZED\<rparr> else row)"
    by (rule ext) (simp add: finalize_def)
  with assms show ?thesis
    by (simp add: ReplicateShardToWorker_def Search_placementOn
        SendCommandListToWorkerInSingleTransaction_def logEvent_def UpdateShardPlacementState_def)
qed

lemma step_update_missing:
  assumes "placementOn (shardId si) (workerName w) (workerPort w) (pg_dist_shard_placement st0) = Some target"
    and "shardState target \<noteq> FILE_FINALIZED"
    and "workerCommits env (workerName w) (workerPort w) cmds"
    and "find (\<lambda>row. placementId row = placementId target) (pg_dist_shard_placement s) = None"
  shows "ReplicateShardToWorker env si (ShardPlacementList st0 (shardId si)) owner cmds w s =
     (Some (NoPlacementEntry (placementId target)),
      s\<lparr>events := events s @ [Notice (workerName w) (workerPort w),
           SendCommandList (workerName w) (workerPort w) owner cmds True]\<rparr>)"
  using assms
  by (simp add: ReplicateShardToWorker_def Search_placementOn
        SendCommandListToWorkerInSingleTransaction_def logEvent_def UpdateShardPlacementState_def)

lemma placementOn_append:
  "placementOn shard name port (rows @ rest) =
     (case placementOn shard name port rows of
        None \<Rightarrow> placementOn shard name port rest
      | Some row \<Rightarrow> Some row)"
  by (induction rows) (simp_all add: placementOn_def)

lemma finalize_fields:
  "placementId (finalize placement row) = placementId row"
  "placementShardId (finalize placement row) = placementShardId row"
  "nodeName (finalize placement row) = nodeName row"
  "nodePort (finalize placement row) = nodePort row"
  "shardState (finalize placement row) =
     (if placementId row = placement then FILE_FINALIZED else shardState row)"
  by (simp_all add: finalize_def)

lemma placementOn_finalize:
  "placementOn shard name port (map (finalize placement) rows) =
     map_option (finalize placement) (placementOn shard name port rows)"
  by (induction rows) (simp_all add: placementOn_def finalize_fields)

lemma placementOn_None:
  "placementOn shard name port rows = None \<Longrightarrow> row \<in> set rows \<Longrightarrow>
     \<not> (placementShardId row = shard \<and> nodeName row = name \<and> nodePort row = port)"
  by (auto simp: placementOn_def find_None_iff)

lemma placementOn_Some:
  "placementOn shard name port rows = Some row \<Longrightarrow>
     row \<in> set rows \<and> placementShardId row = shard \<and> nodeName row = name \<and> nodePort row = port"
  by (auto simp: placementOn_def find_Some_iff)

lemma agrees_absent:
  assumes "agrees shard rows0 rows" and "placementOn shard name port rows0 = None"
    and "row \<in> set rows" and "placementShardId row = shard"
    and "nodeName row = name" and "nodePort row = port"
  shows "shardState row = FILE_FINALIZED"
proof -
  from assms(1) have "case placementOn shard name port rows0 of
          None \<Rightarrow>
            (\<forall>row \<in> set rows.
               placementShardId row = shard \<and> nodeName row = name \<and> nodePort row = port \<longrightarrow>
               shardState row = FILE_FINALIZED)
        | Some row0 \<Rightarrow>
            (\<exists>row. placementOn shard name port rows = Some row \<and>
                   placementId row = placementId row0 \<and>
                   (shardState row0 = FILE_FINALIZED \<longrightarrow> shardState row = FILE_FINALIZED))"
    unfolding agrees_def by blast
  with assms(2-) show ?thesis by simp
qed

lemma agrees_found:
  assumes "agrees shard rows0 rows" and "placementOn shard name port rows0 = Some target"
  shows "\<exists>row. placementOn shard name port rows = Some row \<and> placementId row = placementId target \<and>
           (shardState target = FILE_FINALIZED \<longrightarrow> shardState row = FILE_FINALIZED)"
proof -
  from assms(1) have "case placementOn shard name port rows0 of
          None \<Rightarrow>
            (\<forall>row \<in> set rows.
               placementShardId row = shard \<and> nodeName row = name \<and> nodePort row = port \<longrightarrow>
               shardState row = FILE_FINALIZED)
        | Some row0 \<Rightarrow>
            (\<exists>row. placementOn shard name port rows = Some row \<and>
                   placementId row = placementId row0 \<and>
                   (shardState row0 = FILE_FINALIZED \<longrightarrow> shardState row = FILE_FINALIZED))"
    unfolding agrees_def by blast
  with assms(2) show ?thesis by simp
qed

lemma agrees_refl: "agrees shard rows rows"
  by (auto simp: agrees_def split: option.splits dest: placementOn_None)

lemma agrees_insert:
  assumes "agrees shard rows0 rows"
  shows "agrees shard rows0
     (rows @ [\<lparr>placementId = newId, placementShardId = shard', shardState = FILE_FINALIZED,
               nodeName = name, nodePort = port\<rparr>])"
  unfolding agrees_def
proof (intro allI)
  fix n p
  from assms have a: "case placementOn shard n p rows0 of
          None \<Rightarrow>
            (\<forall>row \<in> set rows.
               placementShardId row = shard \<and> nodeName row = n \<and> nodePort row = p \<longrightarrow>
               shardState row = FILE_FINALIZED)
        | Some row0 \<Rightarrow>
            (\<exists>row. placementOn shard n p rows = Some row \<and>
                   placementId row = placementId row0 \<and>
                   (shardState row0 = FILE_FINALIZED \<longrightarrow> shardState row = FILE_FINALIZED))"
    unfolding agrees_def by blast
  show "case placementOn shard n p rows0 of
          None \<Rightarrow>
            (\<forall>row \<in> set (rows @ [\<lparr>placementId = newId, placementShardId = shard', shardState = FILE_FINALIZED,
               nodeName = name, nodePort = port\<rparr>]).
               placementShardId row = shard \<and> nodeName row = n \<and> nodePort row = p \<longrightarrow>
               shardState row = FILE_FINALIZED)
        | Some row0 \<Rightarrow>
            (\<exists>row. placementOn shard n p (rows @ [\<lparr>placementId = newId, placementShardId = shard', shardState = FILE_FINALIZED,
               nodeName = name, nodePort = port\<rparr>]) = Some row \<and>
                   placementId row = placementId row0 \<and>
                   (shardState row0 = FILE_FINALIZED \<longrightarrow> shardState row = FILE_FINALIZED))"
    using a by (auto simp: placementOn_append split: option.splits)
qed

lemma agrees_finalize:
  assumes "agrees shard rows0 rows"
  shows "agrees shard rows0 (map (finalize placement) rows)"
  unfolding agrees_def
proof (intro allI)
  fix n p
  from assms have a: "case placementOn shard n p rows0 of
          None \<Rightarrow>
            (\<forall>row \<in> set rows.
               placementShardId row = shard \<and> nodeName row = n \<and> nodePort row = p \<longrightarrow>
               shardState row = FILE_FINALIZED)
        | Some row0 \<Rightarrow>
            (\<exists>row. placementOn shard n p rows = Some row \<and>
                   placementId row = placementId row0 \<and>
                   (shardState row0 = FILE_FINALIZED \<longrightarrow> shardState row = FILE_FINALIZED))"
    unfolding agrees_def by blast
  show "case placementOn shard n p rows0 of
          None \<Rightarrow>
            (\<forall>row \<in> set (map (finalize placement) rows).
               placementShardId row = shard \<and> nodeName row = n \<and> nodePort row = p \<longrightarrow>
               shardState row = FILE_FINALIZED)
        | Some row0 \<Rightarrow>
            (\<exists>row. placementOn shard n p (map (finalize placement) rows) = Some row \<and>
                   placementId row = placementId row0 \<and>
                   (shardState row0 = FILE_FINALIZED \<longrightarrow> shardState row = FILE_FINALIZED))"
    using a by (auto simp: placementOn_finalize finalize_fields split: option.splits)
qed

lemma finalizedIn_append:
  "finalizedIn shard name port rows \<Longrightarrow> finalizedIn shard name port (rows @ rest)"
  by (auto simp: finalizedIn_def placementOn_append split: option.splits)

lemma finalizedIn_finalize:
  "finalizedIn shard name port rows \<Longrightarrow> finalizedIn shard name port (map (finalize placement) rows)"
  by (auto simp: finalizedIn_def placementOn_finalize finalize_fields split: option.splits)

lemma finalizedIn_inserted:
  assumes "agrees shard rows0 rows" and "placementOn shard name port rows0 = None"
  shows "finalizedIn shard name port
     (rows @ [\<lparr>placementId = newId, placementShardId = shard, shardState = FILE_FINALIZED,
               nodeName = name, nodePort = port\<rparr>])"
proof (cases "placementOn shard name port rows")
  case None
  then show ?thesis
    by (simp add: finalizedIn_def placementOn_append) (simp add: placementOn_def)
next
  case (Some row)
  from placementOn_Some [OF Some] have "shardState row = FILE_FINALIZED"
    by (intro agrees_absent [OF assms]) simp_all
  with Some show ?thesis
    by (simp add: finalizedIn_def placementOn_append)
qed

lemma finalizedIn_updated:
  assumes "agrees shard rows0 rows" and "placementOn shard name port rows0 = Some target"
  shows "finalizedIn shard name port (map (finalize (placementId target)) rows)"
proof -
  from agrees_found [OF assms] obtain row where
    "placementOn shard name port rows = Some row" "placementId row = placementId target" by blast
  then show ?thesis
    by (simp add: finalizedIn_def placementOn_finalize finalize_fields)
qed

lemma finalizedIn_skipped:
  assumes "agrees shard rows0 rows" and "placementOn shard name port rows0 = Some target"
    and "shardState target = FILE_FINALIZED"
  shows "finalizedIn shard name port rows"
  using agrees_found [OF assms(1,2)] assms(3) by (auto simp: finalizedIn_def)

lemma update_target_found:
  assumes "agrees shard rows0 rows" and "placementOn shard name port rows0 = Some target"
  shows "\<exists>found. find (\<lambda>row. placementId row = placementId target) rows = Some found"
proof -
  from agrees_found [OF assms] obtain row where
    "placementOn shard name port rows = Some row" "placementId row = placementId target" by blast
  with placementOn_Some [of shard name port rows row]
  have "\<exists>row \<in> set rows. placementId row = placementId target" by auto
  then have "find (\<lambda>row. placementId row = placementId target) rows \<noteq> None"
    by (auto simp: find_None_iff)
  then show ?thesis by auto
qed

lemma stepLog_finalizedAfterCopy:
  "stepLog pl owner cmds w evs \<Longrightarrow> length evs \<noteq> 2 \<Longrightarrow>
     finalizedAfterCopy pl None (evs @ rest) = finalizedAfterCopy pl None rest"
  unfolding stepLog_def by (elim disjE exE conjE) simp_all

lemma stepLog_failed:
  "stepLog pl owner cmds w evs \<Longrightarrow> finalizedAfterCopy pl None evs"
  unfolding stepLog_def by (elim disjE exE conjE) simp_all

lemma stepLog_isReplicationEvent:
  "stepLog pl owner cmds w evs \<Longrightarrow> list_all (isReplicationEvent owner cmds) evs"
  unfolding stepLog_def by (elim disjE exE conjE) simp_all

lemma stepLog_committed:
  "stepLog pl owner cmds w evs \<Longrightarrow> SendCommandList name port owner' cmds' True \<in> set evs \<Longrightarrow>
     name = workerName w \<and> port = workerPort w \<and> length evs = 3"
  unfolding stepLog_def by (elim disjE exE conjE) auto

lemma find_placementOn:
  "find (\<lambda>row. nodeName row = name \<and> nodePort row = port) (ShardPlacementList st shard) =
     placementOn shard name port (pg_dist_shard_placement st)"
  by (simp add: ShardPlacementList_def placementOn_def find_filter)

lemma step_props:
  assumes ag: "agrees (shardId si) (pg_dist_shard_placement st0) (pg_dist_shard_placement s)"
    and step: "ReplicateShardToWorker env si (ShardPlacementList st0 (shardId si)) owner cmds w s = (r, s1)"
  shows "agrees (shardId si) (pg_dist_shard_placement st0) (pg_dist_shard_placement s1)"
    and "finalizedOn s (shardId si) name port \<Longrightarrow> finalizedOn s1 (shardId si) name port"
    and "r = None \<Longrightarrow> finalizedOn s1 (shardId si) (workerName w) (workerPort w)"
    and "sameCatalogs s s1"
    and "\<exists>evs. events s1 = events s @ evs \<and>
           stepLog (ShardPlacementList st0 (shardId si)) owner cmds w evs \<and>
           (length evs = 3 \<longrightarrow> finalizedOn s1 (shardId si) (workerName w) (workerPort w)) \<and>
           (length evs = 2 \<longleftrightarrow> r \<noteq> None)"
    and "row \<in> set (pg_dist_shard_placement s) \<Longrightarrow> shardState row = FILE_FINALIZED \<Longrightarrow>
           row \<in> set (pg_dist_shard_placement s1)"
proof -
  let ?pl = "ShardPlacementList st0 (shardId si)"
  let ?target = "placementOn (shardId si) (workerName w) (workerPort w) (pg_dist_shard_placement st0)"
  let ?goal = "agrees (shardId si) (pg_dist_shard_placement st0) (pg_dist_shard_placement s1) \<and>
    (finalizedOn s (shardId si) name port \<longrightarrow> finalizedOn s1 (shardId si) name port) \<and>
    (r = None \<longrightarrow> finalizedOn s1 (shardId si) (workerName w) (workerPort w)) \<and>
    sameCatalogs s s1 \<and>
    (\<exists>evs. events s1 = events s @ evs \<and> stepLog ?pl owner cmds w evs \<and>
           (length evs = 3 \<longrightarrow> finalizedOn s1 (shardId si) (workerName w) (workerPort w)) \<and>
           (length evs = 2 \<longleftrightarrow> r \<noteq> None)) \<and>
    (row \<in> set (pg_dist_shard_placement s) \<longrightarrow> shardState row = FILE_FINALIZED \<longrightarrow>
           row \<in> set (pg_dist_shard_placement s1))"
  have ?goal
  proof (cases ?target)
    case None
    show ?thesis
    proof (cases "workerCommits env (workerName w) (workerPort w) cmds")
      case True
      note eq = step [unfolded step_insert [OF None True]]
      from eq have r: "r = None" by simp
      from eq have s1: "s1 = s\<lparr>placementid_seq := Suc (placementid_seq s),
        pg_dist_shard_placement := pg_dist_shard_placement s @
          [\<lparr>placementId = placementid_seq s, placementShardId = shardId si,
            shardState = FILE_FINALIZED, nodeName = workerName w, nodePort = workerPort w\<rparr>],
        events := events s @ [Notice (workerName w) (workerPort w),
           SendCommandList (workerName w) (workerPort w) owner cmds True,
           InsertShardPlacementRowCall
             \<lparr>placementId = placementid_seq s, placementShardId = shardId si,
              shardState = FILE_FINALIZED, nodeName = workerName w, nodePort = workerPort w\<rparr>]\<rparr>"
        by simp
      have fin: "finalizedOn s1 (shardId si) (workerName w) (workerPort w)"
        unfolding finalizedOn_def s1 using finalizedIn_inserted [OF ag None] by simp
      show ?thesis
        using fin r agrees_insert [OF ag]
        by (simp add: s1 sameCatalogs_def stepLog_def finalizedOn_def finalizedIn_append)
    next
      case False
      have t: "case ?target of None \<Rightarrow> True | Some target \<Rightarrow> shardState target \<noteq> FILE_FINALIZED"
        using None by simp
      note eq = step [unfolded step_fail [OF t False]]
      then show ?thesis
        using ag by (auto simp: sameCatalogs_def stepLog_def finalizedOn_def)
    qed
  next
    case (Some target)
    show ?thesis
    proof (cases "shardState target = FILE_FINALIZED")
      case True
      note eq = step [unfolded step_skip [OF Some True]]
      have "finalizedOn s (shardId si) (workerName w) (workerPort w)"
        unfolding finalizedOn_def by (rule finalizedIn_skipped [OF ag Some True])
      with eq ag show ?thesis
        by (auto simp: sameCatalogs_def stepLog_def)
    next
      case nonfinal: False
      show ?thesis
      proof (cases "workerCommits env (workerName w) (workerPort w) cmds")
        case True
        from update_target_found [OF ag Some] obtain found where
          found: "find (\<lambda>row. placementId row = placementId target) (pg_dist_shard_placement s) = Some found"
          by blast
        note eq = step [unfolded step_update [OF Some nonfinal True found]]
        from eq have r: "r = None" by simp
        from eq have s1: "s1 = s\<lparr>pg_dist_shard_placement :=
            map (finalize (placementId target)) (pg_dist_shard_placement s),
          events := events s @ [Notice (workerName w) (workerPort w),
           SendCommandList (workerName w) (workerPort w) owner cmds True,
           UpdateShardPlacementStateCall (placementId target) FILE_FINALIZED]\<rparr>"
          by simp
        have fin: "finalizedOn s1 (shardId si) (workerName w) (workerPort w)"
          unfolding finalizedOn_def s1 using finalizedIn_updated [OF ag Some] by simp
        have keep: "row \<in> set (pg_dist_shard_placement s) \<Longrightarrow> shardState row = FILE_FINALIZED \<Longrightarrow>
            row \<in> set (map (finalize (placementId target)) (pg_dist_shard_placement s))"
        proof -
          assume a: "row \<in> set (pg_dist_shard_placement s)" "shardState row = FILE_FINALIZED"
          then have "finalize (placementId target) row = row" by (simp add: finalize_def)
          with a(1) show ?thesis by (metis image_eqI set_map)
        qed
        have log: "stepLog ?pl owner cmds w [Notice (workerName w) (workerPort w),
           SendCommandList (workerName w) (workerPort w) owner cmds True,
           UpdateShardPlacementStateCall (placementId target) FILE_FINALIZED]"
          unfolding stepLog_def using Some by (simp add: find_placementOn)
        show ?thesis
          using fin r agrees_finalize [OF ag] keep log
          by (simp add: s1 sameCatalogs_def finalizedOn_def finalizedIn_finalize)
      next
        case False
        have t: "case ?target of None \<Rightarrow> True | Some target \<Rightarrow> shardState target \<noteq> FILE_FINALIZED"
          using Some nonfinal by simp
        note eq = step [unfolded step_fail [OF t False]]
        then show ?thesis
          using ag by (auto simp: sameCatalogs_def stepLog_def finalizedOn_def)
      qed
    qed
  qed
  then show "agrees (shardId si) (pg_dist_shard_placement st0) (pg_dist_shard_placement s1)"
    and "finalizedOn s (shardId si) name port \<Longrightarrow> finalizedOn s1 (shardId si) name port"
    and "r = None \<Longrightarrow> finalizedOn s1 (shardId si) (workerName w) (workerPort w)"
    and "sameCatalogs s s1"
    and "\<exists>evs. events s1 = events s @ evs \<and>
           stepLog (ShardPlacementList st0 (shardId si)) owner cmds w evs \<and>
           (length evs = 3 \<longrightarrow> finalizedOn s1 (shardId si) (workerName w) (workerPort w)) \<and>
           (length evs = 2 \<longleftrightarrow> r \<noteq> None)"
    and "row \<in> set (pg_dist_shard_placement s) \<Longrightarrow> shardState row = FILE_FINALIZED \<Longrightarrow>
           row \<in> set (pg_dist_shard_placement s1)"
    by blast+
qed

lemma loop_Cons:
  assumes "ReplicateShardToWorkers env si pl owner cmds (w # ws) s = (r, s')"
  obtains (raised) e where "ReplicateShardToWorker env si pl owner cmds w s = (Some e, s')" "r = Some e"
  | (continued) s1 where "ReplicateShardToWorker env si pl owner cmds w s = (None, s1)"
      "ReplicateShardToWorkers env si pl owner cmds ws s1 = (r, s')"
proof (cases "ReplicateShardToWorker env si pl owner cmds w s")
  case (Pair r1 s1)
  show ?thesis
  proof (cases r1)
    case None
    with Pair assms show ?thesis by (intro continued [of s1]) simp_all
  next
    case (Some e)
    with Pair assms show ?thesis by (intro raised [of e]) simp_all
  qed
qed

lemma sameCatalogs_refl: "sameCatalogs s s"
  by (simp add: sameCatalogs_def)

lemma sameCatalogs_trans: "sameCatalogs s s1 \<Longrightarrow> sameCatalogs s1 s' \<Longrightarrow> sameCatalogs s s'"
  by (simp add: sameCatalogs_def)

lemma loop_agrees:
  assumes "agrees (shardId si) (pg_dist_shard_placement st0) (pg_dist_shard_placement s)"
    and "ReplicateShardToWorkers env si (ShardPlacementList st0 (shardId si)) owner cmds ws s = (r, s')"
  shows "agrees (shardId si) (pg_dist_shard_placement st0) (pg_dist_shard_placement s')"
  using assms
proof (induction ws arbitrary: s)
  case Nil
  then show ?case by simp
next
  case (Cons w ws)
  from Cons.prems(2) show ?case
  proof (cases rule: loop_Cons)
    case (raised e)
    from step_props(1) [OF Cons.prems(1) raised(1)] show ?thesis .
  next
    case (continued s1)
    from step_props(1) [OF Cons.prems(1) continued(1)] continued(2) show ?thesis
      by (rule Cons.IH)
  qed
qed

lemma loop_sameCatalogs:
  assumes "agrees (shardId si) (pg_dist_shard_placement st0) (pg_dist_shard_placement s)"
    and "ReplicateShardToWorkers env si (ShardPlacementList st0 (shardId si)) owner cmds ws s = (r, s')"
  shows "sameCatalogs s s'"
  using assms
proof (induction ws arbitrary: s)
  case Nil
  then show ?case by (simp add: sameCatalogs_refl)
next
  case (Cons w ws)
  from Cons.prems(2) show ?case
  proof (cases rule: loop_Cons)
    case (raised e)
    from step_props(4) [OF Cons.prems(1) raised(1)] show ?thesis .
  next
    case (continued s1)
    have "sameCatalogs s1 s'"
      using step_props(1) [OF Cons.prems(1) continued(1)] continued(2) by (rule Cons.IH)
    with step_props(4) [OF Cons.prems(1) continued(1)] show ?thesis
      by (rule sameCatalogs_trans)
  qed
qed

lemma loop_finalized_stays:
  assumes "agrees (shardId si) (pg_dist_shard_placement st0) (pg_dist_shard_placement s)"
    and "ReplicateShardToWorkers env si (ShardPlacementList st0 (shardId si)) owner cmds ws s = (r, s')"
    and "finalizedOn s (shardId si) name port"
  shows "finalizedOn s' (shardId si) name port"
  using assms
proof (induction ws arbitrary: s)
  case Nil
  then show ?case by simp
next
  case (Cons w ws)
  from Cons.prems(2) show ?case
  proof (cases rule: loop_Cons)
    case (raised e)
    from step_props(2) [OF Cons.prems(1) raised(1) Cons.prems(3)] show ?thesis .
  next
    case (continued s1)
    from step_props(1) [OF Cons.prems(1) continued(1)] continued(2)
      step_props(2) [OF Cons.prems(1) continued(1) Cons.prems(3)]
    show ?thesis by (rule Cons.IH)
  qed
qed

lemma loop_rows_stay:
  assumes "agrees (shardId si) (pg_dist_shard_placement st0) (pg_dist_shard_placement s)"
    and "ReplicateShardToWorkers env si (ShardPlacementList st0 (shardId si)) owner cmds ws s = (r, s')"
    and "row \<in> set (pg_dist_shard_placement s)" and "shardState row = FILE_FINALIZED"
  shows "row \<in> set (pg_dist_shard_placement s')"
  using assms
proof (induction ws arbitrary: s)
  case Nil
  then show ?case by simp
next
  case (Cons w ws)
  from Cons.prems(2) show ?case
  proof (cases rule: loop_Cons)
    case (raised e)
    from step_props(6) [OF Cons.prems(1) raised(1) Cons.prems(3,4)] show ?thesis .
  next
    case (continued s1)
    from step_props(1) [OF Cons.prems(1) continued(1)] continued(2)
      step_props(6) [OF Cons.prems(1) continued(1) Cons.prems(3,4)] Cons.prems(4)
    show ?thesis by (rule Cons.IH)
  qed
qed

lemma loop_all_finalized:
  assumes "agrees (shardId si) (pg_dist_shard_placement st0) (pg_dist_shard_placement s)"
    and "ReplicateShardToWorkers env si (ShardPlacementList st0 (shardId si)) owner cmds ws s = (None, s')"
    and "w \<in> set ws"
  shows "finalizedOn s' (shardId si) (workerName w) (workerPort w)"
  using assms
proof (induction ws arbitrary: s)
  case Nil
  then show ?case by simp
next
  case (Cons w' ws)
  from Cons.prems(2) show ?case
  proof (cases rule: loop_Cons)
    case (raised e)
    then show ?thesis by simp
  next
    case (continued s1)
    note ag1 = step_props(1) [OF Cons.prems(1) continued(1)]
    show ?thesis
    proof (cases "w = w'")
      case True
      have "finalizedOn s1 (shardId si) (workerName w) (workerPort w)"
        using step_props(3) [OF Cons.prems(1) continued(1)] True by simp
      with ag1 continued(2) show ?thesis by (rule loop_finalized_stays)
    next
      case False
      with Cons.prems(3) have "w \<in> set ws" by simp
      with ag1 continued(2) show ?thesis by (rule Cons.IH)
    qed
  qed
qed

lemma loop_events:
  assumes "agrees (shardId si) (pg_dist_shard_placement st0) (pg_dist_shard_placement s)"
    and "ReplicateShardToWorkers env si (ShardPlacementList st0 (shardId si)) owner cmds ws s = (r, s')"
  shows "\<exists>evs. events s' = events s @ evs \<and>
     finalizedAfterCopy (ShardPlacementList st0 (shardId si)) None evs \<and>
     list_all (isReplicationEvent owner cmds) evs \<and>
     (\<forall>name port owner' cmds'. SendCommandList name port owner' cmds' True \<in> set evs \<longrightarrow>
        finalizedOn s' (shardId si) name port)"
  using assms
proof (induction ws arbitrary: s)
  case Nil
  then show ?case by simp
next
  case (Cons w ws)
  let ?pl = "ShardPlacementList st0 (shardId si)"
  from Cons.prems(2) show ?case
  proof (cases rule: loop_Cons)
    case (raised e)
    from step_props(5) [OF Cons.prems(1) raised(1)] obtain evs where
      evs: "events s' = events s @ evs" "stepLog ?pl owner cmds w evs"
        "length evs = 3 \<longrightarrow> finalizedOn s' (shardId si) (workerName w) (workerPort w)"
      by blast
    have "\<forall>name port owner' cmds'. SendCommandList name port owner' cmds' True \<in> set evs \<longrightarrow>
        finalizedOn s' (shardId si) name port"
      using stepLog_committed [OF evs(2)] evs(3) by blast
    with evs(1) stepLog_failed [OF evs(2)] stepLog_isReplicationEvent [OF evs(2)]
    show ?thesis by blast
  next
    case (continued s1)
    note ag1 = step_props(1) [OF Cons.prems(1) continued(1)]
    from step_props(5) [OF Cons.prems(1) continued(1)] obtain evs where
      evs: "events s1 = events s @ evs" "stepLog ?pl owner cmds w evs"
        "length evs = 3 \<longrightarrow> finalizedOn s1 (shardId si) (workerName w) (workerPort w)"
        "length evs \<noteq> 2"
      by auto
    from Cons.IH [OF ag1 continued(2)] obtain evs' where
      evs': "events s' = events s1 @ evs'" "finalizedAfterCopy ?pl None evs'"
        "list_all (isReplicationEvent owner cmds) evs'"
        "\<forall>name port owner' cmds'. SendCommandList name port owner' cmds' True \<in> set evs' \<longrightarrow>
           finalizedOn s' (shardId si) name port"
      by blast
    have a: "events s' = events s @ (evs @ evs')"
      using evs(1) evs'(1) by simp
    have b: "finalizedAfterCopy ?pl None (evs @ evs')"
      using stepLog_finalizedAfterCopy [OF evs(2,4)] evs'(2) by simp
    have c: "list_all (isReplicationEvent owner cmds) (evs @ evs')"
      using stepLog_isReplicationEvent [OF evs(2)] evs'(3) by simp
    have d: "finalizedOn s' (shardId si) name port"
      if "SendCommandList name port owner' cmds' True \<in> set (evs @ evs')" for name port owner' cmds'
    proof (cases "SendCommandList name port owner' cmds' True \<in> set evs")
      case True
      from stepLog_committed [OF evs(2) True] evs(3)
      have "finalizedOn s1 (shardId si) name port" by simp
      with ag1 continued(2) show ?thesis by (rule loop_finalized_stays)
    next
      case False
      with that have "SendCommandList name port owner' cmds' True \<in> set evs'" by simp
      with evs'(4) show ?thesis by blast
    qed
    from a b c d show ?thesis by blast
  qed
qed

lemma loop_healthy:
  assumes "\<forall>w \<in> set ws. finalizedOn st0 (shardId si) (workerName w) (workerPort w)"
  shows "ReplicateShardToWorkers env si (ShardPlacementList st0 (shardId si)) owner cmds ws s = (None, s)"
  using assms
proof (induction ws)
  case Nil
  then show ?case by simp
next
  case (Cons w ws)
  then have "finalizedOn st0 (shardId si) (workerName w) (workerPort w)" by simp
  then obtain target where
    "placementOn (shardId si) (workerName w) (workerPort w) (pg_dist_shard_placement st0) = Some target"
    "shardState target = FILE_FINALIZED"
    by (auto simp: finalizedOn_def finalizedIn_def split: option.splits)
  then have "ReplicateShardToWorker env si (ShardPlacementList st0 (shardId si)) owner cmds w s = (None, s)"
    by (rule step_skip)
  with Cons show ?case by simp
qed

lemma set_insertSorted: "set (insertSorted compare x xs) = insert x (set xs)"
  by (induction xs) auto

lemma set_SortList: "set (SortList xs compare) = set xs"
  by (induction xs) (simp_all add: set_insertSorted)

lemma acquireLock_simps:
  "pg_dist_partition (acquireLock l st) = pg_dist_partition st"
  "pg_dist_shard (acquireLock l st) = pg_dist_shard st"
  "pg_dist_shard_placement (acquireLock l st) = pg_dist_shard_placement st"
  "pg_dist_colocation (acquireLock l st) = pg_dist_colocation st"
  "pg_dist_node (acquireLock l st) = pg_dist_node st"
  "placementid_seq (acquireLock l st) = placementid_seq st"
  "colocationid_seq (acquireLock l st) = colocationid_seq st"
  "heldLocks (acquireLock l st) = List.insert l (heldLocks st)"
  "events (acquireLock l st) = events st"
  by (simp_all add: acquireLock_def)

lemma acquireLock_held: "l \<in> set (heldLocks st) \<Longrightarrow> acquireLock l st = st"
  by (simp add: acquireLock_def)

lemma replicate_no_source:
  "FinalizedShardPlacementList st (shardId si) = [] \<Longrightarrow>
     ReplicateShardToAllWorkers env si st = (Some (NoHealthyPlacement (shardId si)), st)"
  by (simp add: ReplicateShardToAllWorkers_def FinalizedShardPlacement_def)

lemma replicate_source:
  "FinalizedShardPlacementList st (shardId si) = src # others \<Longrightarrow>
     ReplicateShardToAllWorkers env si st =
       ReplicateShardToWorkers env si (ShardPlacementList st (shardId si))
         (TableOwner env (relationId si))
         (CopyShardCommandList env si (nodeName src) (nodePort src))
         (SortList (pg_dist_node st) CompareWorkerNodes)
         (acquireLock (DistNodeRelationLock AccessShareLock) st)"
  by (simp add: ReplicateShardToAllWorkers_def FinalizedShardPlacement_def Let_def
        WorkerNodeList_def acquireLock_simps)

lemma agrees_acquireLock:
  "agrees shard (pg_dist_shard_placement st) (pg_dist_shard_placement (acquireLock l st))"
  by (simp add: acquireLock_simps agrees_refl)

lemma finalized_source:
  "FinalizedShardPlacementList st shard = src # others \<Longrightarrow>
     src \<in> set (pg_dist_shard_placement st) \<and> placementShardId src = shard \<and>
     shardState src = FILE_FINALIZED"
proof -
  assume "FinalizedShardPlacementList st shard = src # others"
  then have "src \<in> set (FinalizedShardPlacementList st shard)" by simp
  then show ?thesis
    by (simp add: FinalizedShardPlacementList_def ShardPlacementList_def)
qed

lemma step_copies:
  assumes ag: "agrees (shardId si) (pg_dist_shard_placement st0) (pg_dist_shard_placement s)"
    and step: "ReplicateShardToWorker env si (ShardPlacementList st0 (shardId si)) owner cmds w s = (r, s1)"
  shows "\<exists>evs. events s1 = events s @ evs \<and>
      filter isCopy evs =
        (if finalizedOn st0 (shardId si) (workerName w) (workerPort w) then []
         else [SendCommandList (workerName w) (workerPort w) owner cmds
                 (workerCommits env (workerName w) (workerPort w) cmds)]) \<and>
      r = (if finalizedOn st0 (shardId si) (workerName w) (workerPort w) \<or>
              workerCommits env (workerName w) (workerPort w) cmds
           then None else Some (WorkerCommandFailed (workerName w) (workerPort w)))"
proof (cases "placementOn (shardId si) (workerName w) (workerPort w) (pg_dist_shard_placement st0)")
  case None
  then have nf: "\<not> finalizedOn st0 (shardId si) (workerName w) (workerPort w)"
    by (simp add: finalizedOn_def finalizedIn_def)
  show ?thesis
  proof (cases "workerCommits env (workerName w) (workerPort w) cmds")
    case True
    from step [unfolded step_insert [OF None True]] nf True show ?thesis by auto
  next
    case False
    have t: "case placementOn (shardId si) (workerName w) (workerPort w) (pg_dist_shard_placement st0) of
        None \<Rightarrow> True | Some target \<Rightarrow> shardState target \<noteq> FILE_FINALIZED"
      using None by simp
    from step [unfolded step_fail [OF t False]] nf False show ?thesis by auto
  qed
next
  case (Some target)
  show ?thesis
  proof (cases "shardState target = FILE_FINALIZED")
    case True
    with Some have f: "finalizedOn st0 (shardId si) (workerName w) (workerPort w)"
      by (simp add: finalizedOn_def finalizedIn_def)
    from step [unfolded step_skip [OF Some True]] f show ?thesis by auto
  next
    case nonfinal: False
    with Some have nf: "\<not> finalizedOn st0 (shardId si) (workerName w) (workerPort w)"
      by (simp add: finalizedOn_def finalizedIn_def)
    show ?thesis
    proof (cases "workerCommits env (workerName w) (workerPort w) cmds")
      case True
      from update_target_found [OF ag Some] obtain found where
        found: "find (\<lambda>row. placementId row = placementId target) (pg_dist_shard_placement s) = Some found"
        by blast
      from step [unfolded step_update [OF Some nonfinal True found]] nf True show ?thesis by auto
    next
      case False
      have t: "case placementOn (shardId si) (workerName w) (workerPort w) (pg_dist_shard_placement st0) of
          None \<Rightarrow> True | Some target \<Rightarrow> shardState target \<noteq> FILE_FINALIZED"
        using Some nonfinal by simp
      from step [unfolded step_fail [OF t False]] nf False show ?thesis by auto
    qed
  qed
qed

lemma loop_copies:
  assumes "agrees (shardId si) (pg_dist_shard_placement st0) (pg_dist_shard_placement s)"
    and "ReplicateShardToWorkers env si (ShardPlacementList st0 (shardId si)) owner cmds ws s = (r, s')"
  shows "\<exists>evs. events s' = events s @ evs \<and>
      filter isCopy evs = copiesSent env st0 (shardId si) owner cmds ws \<and>
      r = copyOutcome env st0 (shardId si) cmds ws"
  using assms
proof (induction ws arbitrary: s)
  case Nil
  then show ?case by simp
next
  case (Cons w ws)
  from Cons.prems(2) show ?case
  proof (cases rule: loop_Cons)
    case (raised e)
    from step_copies [OF Cons.prems(1) raised(1)] obtain evs where
      evs: "events s' = events s @ evs"
        "filter isCopy evs =
        (if finalizedOn st0 (shardId si) (workerName w) (workerPort w) then []
         else [SendCommandList (workerName w) (workerPort w) owner cmds
                 (workerCommits env (workerName w) (workerPort w) cmds)])"
        "Some e = (if finalizedOn st0 (shardId si) (workerName w) (workerPort w) \<or>
              workerCommits env (workerName w) (workerPort w) cmds
           then None else Some (WorkerCommandFailed (workerName w) (workerPort w)))"
      by blast
    from evs(3) have no: "\<not> finalizedOn st0 (shardId si) (workerName w) (workerPort w)"
      "\<not> workerCommits env (workerName w) (workerPort w) cmds"
      "e = WorkerCommandFailed (workerName w) (workerPort w)"
      by (auto split: if_splits)
    with evs(1,2) raised(2) show ?thesis by simp
  next
    case (continued s1)
    note ag1 = step_props(1) [OF Cons.prems(1) continued(1)]
    from step_copies [OF Cons.prems(1) continued(1)] obtain evs where
      evs: "events s1 = events s @ evs"
        "filter isCopy evs =
        (if finalizedOn st0 (shardId si) (workerName w) (workerPort w) then []
         else [SendCommandList (workerName w) (workerPort w) owner cmds
                 (workerCommits env (workerName w) (workerPort w) cmds)])"
        "None = (if finalizedOn st0 (shardId si) (workerName w) (workerPort w) \<or>
              workerCommits env (workerName w) (workerPort w) cmds
           then None else Some (WorkerCommandFailed (workerName w) (workerPort w)))"
      by blast
    from evs(3) have ok: "finalizedOn st0 (shardId si) (workerName w) (workerPort w) \<or>
              workerCommits env (workerName w) (workerPort w) cmds"
      by (auto split: if_splits)
    from Cons.IH [OF ag1 continued(2)] obtain evs' where
      evs': "events s' = events s1 @ evs'"
        "filter isCopy evs' = copiesSent env st0 (shardId si) owner cmds ws"
        "r = copyOutcome env st0 (shardId si) cmds ws"
      by blast
    have "events s' = events s @ (evs @ evs')"
      using evs(1) evs'(1) by simp
    moreover have "filter isCopy (evs @ evs') = copiesSent env st0 (shardId si) owner cmds (w # ws)"
      using evs(2) evs'(2) ok by auto
    moreover have "r = copyOutcome env st0 (shardId si) cmds (w # ws)"
      using evs'(3) ok by auto
    ultimately show ?thesis by blast
  qed
qed

subsection \<open>The source of a copy\<close>

text \<open>
  Claim C5. For every shard with no \<^verbatim>\<open>FINALIZED\<close> placement,
  \<^verbatim>\<open>ReplicateShardToAllWorkers\<close> raises the error for a missing healthy placement and
  returns the metadata as it found it: nothing is sent to a worker, no placement row is
  touched, no lock is taken. For every shard with a \<^verbatim>\<open>FINALIZED\<close> placement, the first
  such placement \<open>src\<close> of the shard is selected as the source and used: it is a placement
  row of this shard in state \<^verbatim>\<open>FINALIZED\<close>; the run does not raise the error for a missing
  healthy placement, it ends as the copies end (without error when every worker that lacks a
  healthy placement commits, with the failure of the first that does not); every command
  list the run sends is the one list \<^verbatim>\<open>CopyShardCommandList\<close> builds from the node of
  \<open>src\<close>, sent as the owner of the table; and that list is sent, in the order of the sorted
  worker nodes, to each worker that lacks a healthy placement of the shard, up to and
  including the first worker that fails.
\<close>

theorem ReplicateShardToAllWorkers_source:
  "(FinalizedShardPlacementList st (shardId si) = [] \<longrightarrow>
      ReplicateShardToAllWorkers env si st = (Some (NoHealthyPlacement (shardId si)), st)) \<and>
   (FinalizedShardPlacementList st (shardId si) = src # others \<longrightarrow>
      src \<in> set (pg_dist_shard_placement st) \<and> placementShardId src = shardId si \<and>
      shardState src = FILE_FINALIZED \<and>
      fst (ReplicateShardToAllWorkers env si st) =
        copyOutcome env st (shardId si)
          (CopyShardCommandList env si (nodeName src) (nodePort src))
          (SortList (pg_dist_node st) CompareWorkerNodes) \<and>
      fst (ReplicateShardToAllWorkers env si st) \<noteq> Some (NoHealthyPlacement (shardId si)) \<and>
      (\<exists>evs. events (snd (ReplicateShardToAllWorkers env si st)) = events st @ evs \<and>
         list_all
           (isReplicationEvent (TableOwner env (relationId si))
              (CopyShardCommandList env si (nodeName src) (nodePort src))) evs \<and>
         filter isCopy evs =
           copiesSent env st (shardId si) (TableOwner env (relationId si))
             (CopyShardCommandList env si (nodeName src) (nodePort src))
             (SortList (pg_dist_node st) CompareWorkerNodes)))"
proof (intro conjI impI)
  assume "FinalizedShardPlacementList st (shardId si) = []"
  then show "ReplicateShardToAllWorkers env si st = (Some (NoHealthyPlacement (shardId si)), st)"
    by (rule replicate_no_source)
next
  assume src: "FinalizedShardPlacementList st (shardId si) = src # others"
  let ?cmds = "CopyShardCommandList env si (nodeName src) (nodePort src)"
  let ?ws = "SortList (pg_dist_node st) CompareWorkerNodes"
  from finalized_source [OF src]
  show "src \<in> set (pg_dist_shard_placement st)" "placementShardId src = shardId si"
    "shardState src = FILE_FINALIZED"
    by simp_all
  obtain r st' where run: "ReplicateShardToAllWorkers env si st = (r, st')"
    by (cases "ReplicateShardToAllWorkers env si st") auto
  note loop = run [unfolded replicate_source [OF src]]
  from loop_copies [OF agrees_acquireLock loop] obtain evs where
    evs: "events st' = events st @ evs"
      "filter isCopy evs = copiesSent env st (shardId si) (TableOwner env (relationId si)) ?cmds ?ws"
      "r = copyOutcome env st (shardId si) ?cmds ?ws"
    by (auto simp: acquireLock_simps)
  from loop_events [OF agrees_acquireLock loop] obtain evs' where
    evs': "events st' = events st @ evs'"
      "list_all (isReplicationEvent (TableOwner env (relationId si)) ?cmds) evs'"
    by (auto simp: acquireLock_simps)
  from evs(1) evs'(1) have same: "evs' = evs" by simp
  from evs(3) show "fst (ReplicateShardToAllWorkers env si st) = copyOutcome env st (shardId si) ?cmds ?ws"
    by (simp add: run)
  have "copyOutcome env st (shardId si) ?cmds ws \<noteq> Some (NoHealthyPlacement (shardId si))" for ws
    by (induction ws) simp_all
  with evs(3) show "fst (ReplicateShardToAllWorkers env si st) \<noteq> Some (NoHealthyPlacement (shardId si))"
    by (simp add: run)
  from evs(1,2) evs'(2) same
  show "\<exists>evs. events (snd (ReplicateShardToAllWorkers env si st)) = events st @ evs \<and>
         list_all (isReplicationEvent (TableOwner env (relationId si)) ?cmds) evs \<and>
         filter isCopy evs =
           copiesSent env st (shardId si) (TableOwner env (relationId si)) ?cmds ?ws"
    unfolding run by auto
qed

subsection \<open>Copy, then finalize\<close>

text \<open>
  Claim C6. In the log of every run of \<^verbatim>\<open>ReplicateShardToAllWorkers\<close>, whether it returns
  or raises, each insert of a placement row and each update of a placement state sets the
  state \<^verbatim>\<open>FINALIZED\<close> and comes directly after a command list that the same worker has run
  and committed in its own transaction (for an update, the worker is the one whose
  placement in the shard's placement list carries the updated placement id); a worker whose
  commit fails gets no insert and no update. Every worker that committed the command list
  has a \<^verbatim>\<open>FINALIZED\<close> placement in the metadata the run leaves, also when a later worker
  fails, and every placement row that was \<^verbatim>\<open>FINALIZED\<close> before the run is still there.
\<close>

theorem ReplicateShardToAllWorkers_finalizes_after_copy:
  "\<exists>evs. events (snd (ReplicateShardToAllWorkers env si st)) = events st @ evs \<and>
     finalizedAfterCopy (ShardPlacementList st (shardId si)) None evs \<and>
     (\<forall>name port owner cmds. SendCommandList name port owner cmds True \<in> set evs \<longrightarrow>
        finalizedOn (snd (ReplicateShardToAllWorkers env si st)) (shardId si) name port) \<and>
     (\<forall>row \<in> set (pg_dist_shard_placement st). shardState row = FILE_FINALIZED \<longrightarrow>
        row \<in> set (pg_dist_shard_placement (snd (ReplicateShardToAllWorkers env si st))))"
proof (cases "FinalizedShardPlacementList st (shardId si)")
  case Nil
  then show ?thesis by (simp add: replicate_no_source)
next
  case (Cons src others)
  obtain r st' where run: "ReplicateShardToAllWorkers env si st = (r, st')"
    by (cases "ReplicateShardToAllWorkers env si st") auto
  note loop = run [unfolded replicate_source [OF Cons]]
  from loop_events [OF agrees_acquireLock loop] obtain evs where
    evs: "events st' = events st @ evs"
      "finalizedAfterCopy (ShardPlacementList st (shardId si)) None evs"
      "\<forall>name port owner' cmds'. SendCommandList name port owner' cmds' True \<in> set evs \<longrightarrow>
        finalizedOn st' (shardId si) name port"
    by (auto simp: acquireLock_simps)
  have "\<forall>row \<in> set (pg_dist_shard_placement st). shardState row = FILE_FINALIZED \<longrightarrow>
        row \<in> set (pg_dist_shard_placement st')"
    using loop_rows_stay [OF agrees_acquireLock loop] by (simp add: acquireLock_simps)
  with evs show ?thesis unfolding run by auto
qed

subsection \<open>Idempotence\<close>

text \<open>
  Claim C1. A worker that holds a \<^verbatim>\<open>FINALIZED\<close> placement of the shard is skipped: the
  loop body returns the metadata unchanged, so nothing is sent to the worker and no
  placement row is inserted or updated for it. When a call of
  \<^verbatim>\<open>ReplicateShardToAllWorkers\<close> returns without error, a second call on the metadata it
  leaves, whatever the workers would answer then, returns without error and leaves the
  metadata exactly as it is: no copy, no insert, no update.
\<close>

theorem ReplicateShardToAllWorkers_idempotent:
  "(finalizedOn st (shardId si) (workerName w) (workerPort w) \<longrightarrow>
      ReplicateShardToWorker env si (ShardPlacementList st (shardId si)) owner cmds w s = (None, s)) \<and>
   (ReplicateShardToAllWorkers env si st = (None, st') \<longrightarrow>
      ReplicateShardToAllWorkers env' si st' = (None, st'))"
proof (intro conjI impI)
  assume "finalizedOn st (shardId si) (workerName w) (workerPort w)"
  then have "\<forall>w' \<in> set [w]. finalizedOn st (shardId si) (workerName w') (workerPort w')" by simp
  from loop_healthy [OF this, of env owner cmds s]
  show "ReplicateShardToWorker env si (ShardPlacementList st (shardId si)) owner cmds w s = (None, s)"
    by (auto split: prod.splits option.splits)
next
  let ?lock = "DistNodeRelationLock AccessShareLock"
  assume run: "ReplicateShardToAllWorkers env si st = (None, st')"
  then obtain src others where src: "FinalizedShardPlacementList st (shardId si) = src # others"
    by (cases "FinalizedShardPlacementList st (shardId si)") (auto simp: replicate_no_source)
  note loop = run [unfolded replicate_source [OF src]]
  have same: "sameCatalogs (acquireLock ?lock st) st'"
    using agrees_acquireLock loop by (rule loop_sameCatalogs)
  then have nodes: "pg_dist_node st' = pg_dist_node st"
    and held: "?lock \<in> set (heldLocks st')"
    by (simp_all add: sameCatalogs_def acquireLock_simps)
  have all: "\<forall>w \<in> set (SortList (pg_dist_node st') CompareWorkerNodes).
      finalizedOn st' (shardId si) (workerName w) (workerPort w)"
    using loop_all_finalized [OF agrees_acquireLock loop] by (simp add: nodes)
  from finalized_source [OF src] have "src \<in> set (pg_dist_shard_placement st')"
    using loop_rows_stay [OF agrees_acquireLock loop, of src] by (simp add: acquireLock_simps)
  with finalized_source [OF src] have "src \<in> set (FinalizedShardPlacementList st' (shardId si))"
    by (simp add: FinalizedShardPlacementList_def ShardPlacementList_def)
  then obtain src' others' where src': "FinalizedShardPlacementList st' (shardId si) = src' # others'"
    by (cases "FinalizedShardPlacementList st' (shardId si)") auto
  show "ReplicateShardToAllWorkers env' si st' = (None, st')"
    unfolding replicate_source [OF src'] acquireLock_held [OF held]
    using all by (rule loop_healthy)
qed

lemmas replicate_eval =
  ReplicateShardToAllWorkers_def ReplicateShardToWorker_def FinalizedShardPlacement_def
  FinalizedShardPlacementList_def ShardPlacementList_def SearchShardPlacementInList_def
  SendCommandListToWorkerInSingleTransaction_def InsertShardPlacementRow_def
  UpdateShardPlacementState_def WorkerNodeList_def CompareWorkerNodes_def
  INVALID_PLACEMENT_ID_def logEvent_def acquireLock_def Let_def

lemma example_first_run:
  "ReplicateShardToAllWorkers example_env example_shard example_metadata = (None, replicated_metadata)"
  by (simp add: replicate_eval example_env_def example_shard_def example_metadata_def
        replicated_metadata_def placement_a_def placement_b_def)

lemma three_worker_run:
  "fst (ReplicateShardToAllWorkers example_env example_shard three_worker_metadata) =
     Some (WorkerCommandFailed ''c'' 5432) \<and>
   events (snd (ReplicateShardToAllWorkers example_env example_shard three_worker_metadata)) =
     [Notice ''b'' 5432, SendCommandList ''b'' 5432 ''owner'' [''copy''] True,
      InsertShardPlacementRowCall placement_b,
      Notice ''c'' 5432, SendCommandList ''c'' 5432 ''owner'' [''copy''] False]"
  by (simp add: replicate_eval example_env_def example_shard_def example_metadata_def
        three_worker_metadata_def placement_a_def placement_b_def)

theorem ReplicateShardToAllWorkers_idempotent_witness:
  "ReplicateShardToAllWorkers example_env example_shard example_metadata = (None, replicated_metadata) \<and>
   ReplicateShardToAllWorkers example_env example_shard replicated_metadata = (None, replicated_metadata)"
  using ReplicateShardToAllWorkers_idempotent
          [where st = example_metadata and st' = replicated_metadata and env = example_env
             and env' = example_env and si = example_shard, THEN conjunct2]
        example_first_run
  by simp

theorem ReplicateShardToAllWorkers_source_witness:
  "ReplicateShardToAllWorkers example_env example_shard no_source_metadata =
     (Some (NoHealthyPlacement 100), no_source_metadata) \<and>
   fst (ReplicateShardToAllWorkers example_env example_shard example_metadata) = None \<and>
   filter isCopy
     (events (snd (ReplicateShardToAllWorkers example_env example_shard example_metadata))) =
     [SendCommandList ''b'' 5432 ''owner'' [''copy''] True] \<and>
   fst (ReplicateShardToAllWorkers example_env example_shard three_worker_metadata) =
     Some (WorkerCommandFailed ''c'' 5432) \<and>
   filter isCopy
     (events (snd (ReplicateShardToAllWorkers example_env example_shard three_worker_metadata))) =
     [SendCommandList ''b'' 5432 ''owner'' [''copy''] True,
      SendCommandList ''c'' 5432 ''owner'' [''copy''] False]"
proof -
  have none: "FinalizedShardPlacementList no_source_metadata (shardId example_shard) = []"
    by (simp add: FinalizedShardPlacementList_def ShardPlacementList_def no_source_metadata_def
          example_metadata_def example_shard_def placement_a_def)
  have some: "FinalizedShardPlacementList example_metadata (shardId example_shard) = placement_a # []"
    by (simp add: FinalizedShardPlacementList_def ShardPlacementList_def
          example_metadata_def example_shard_def placement_a_def)
  have some3: "FinalizedShardPlacementList three_worker_metadata (shardId example_shard) = placement_a # []"
    by (simp add: FinalizedShardPlacementList_def ShardPlacementList_def three_worker_metadata_def
          example_metadata_def example_shard_def placement_a_def)
  from ReplicateShardToAllWorkers_source
         [where st = no_source_metadata and si = example_shard and env = example_env,
          THEN conjunct1] none
  have a: "ReplicateShardToAllWorkers example_env example_shard no_source_metadata =
     (Some (NoHealthyPlacement 100), no_source_metadata)"
    by (simp add: example_shard_def)
  from ReplicateShardToAllWorkers_source
         [where st = example_metadata and si = example_shard and env = example_env
            and src = placement_a and others = "[]", THEN conjunct2] some
  have b: "fst (ReplicateShardToAllWorkers example_env example_shard example_metadata) = None \<and>
     filter isCopy
       (events (snd (ReplicateShardToAllWorkers example_env example_shard example_metadata))) =
     [SendCommandList ''b'' 5432 ''owner'' [''copy''] True]"
    by (auto simp: example_env_def example_metadata_def example_shard_def placement_a_def
          finalizedOn_def finalizedIn_def placementOn_def CompareWorkerNodes_def Let_def)
  from ReplicateShardToAllWorkers_source
         [where st = three_worker_metadata and si = example_shard and env = example_env
            and src = placement_a and others = "[]", THEN conjunct2] some3
  have c: "fst (ReplicateShardToAllWorkers example_env example_shard three_worker_metadata) =
       Some (WorkerCommandFailed ''c'' 5432) \<and>
     filter isCopy
       (events (snd (ReplicateShardToAllWorkers example_env example_shard three_worker_metadata))) =
     [SendCommandList ''b'' 5432 ''owner'' [''copy''] True,
      SendCommandList ''c'' 5432 ''owner'' [''copy''] False]"
    by (auto simp: example_env_def example_metadata_def three_worker_metadata_def
          example_shard_def placement_a_def
          finalizedOn_def finalizedIn_def placementOn_def CompareWorkerNodes_def Let_def)
  from a b c show ?thesis by simp
qed

theorem ReplicateShardToAllWorkers_finalizes_after_copy_witness:
  "fst (ReplicateShardToAllWorkers example_env example_shard three_worker_metadata) =
     Some (WorkerCommandFailed ''c'' 5432) \<and>
   finalizedOn (snd (ReplicateShardToAllWorkers example_env example_shard three_worker_metadata))
     100 ''b'' 5432 \<and>
   placement_a \<in> set (pg_dist_shard_placement
     (snd (ReplicateShardToAllWorkers example_env example_shard three_worker_metadata)))"
proof -
  let ?st' = "snd (ReplicateShardToAllWorkers example_env example_shard three_worker_metadata)"
  from ReplicateShardToAllWorkers_finalizes_after_copy
         [of example_env example_shard three_worker_metadata]
  obtain evs where
    evs: "events ?st' = events three_worker_metadata @ evs"
      "\<forall>name port owner cmds. SendCommandList name port owner cmds True \<in> set evs \<longrightarrow>
        finalizedOn ?st' (shardId example_shard) name port"
      "\<forall>row \<in> set (pg_dist_shard_placement three_worker_metadata).
         shardState row = FILE_FINALIZED \<longrightarrow> row \<in> set (pg_dist_shard_placement ?st')"
    by blast
  have "events three_worker_metadata = []"
    by (simp add: three_worker_metadata_def example_metadata_def)
  with evs(1) three_worker_run
  have "evs = [Notice ''b'' 5432, SendCommandList ''b'' 5432 ''owner'' [''copy''] True,
      InsertShardPlacementRowCall placement_b,
      Notice ''c'' 5432, SendCommandList ''c'' 5432 ''owner'' [''copy''] False]" by simp
  then have "SendCommandList ''b'' 5432 ''owner'' [''copy''] True \<in> set evs" by simp
  with evs(2) have b: "finalizedOn ?st' 100 ''b'' 5432"
    by (auto simp: example_shard_def)
  have "placement_a \<in> set (pg_dist_shard_placement three_worker_metadata)"
    "shardState placement_a = FILE_FINALIZED"
    by (simp_all add: three_worker_metadata_def example_metadata_def placement_a_def)
  with evs(3) have a: "placement_a \<in> set (pg_dist_shard_placement ?st')" by blast
  from three_worker_run a b show ?thesis by simp
qed

lemma LoadShardIntervalList_acquireLock:
  "LoadShardIntervalList (acquireLock l st) relation = LoadShardIntervalList st relation"
  by (simp add: LoadShardIntervalList_def acquireLock_simps)

lemma single_shard_foreign_key:
  assumes "LoadShardIntervalList st relation = [shardInterval]"
    and "CopyShardForeignConstraintCommandList env shardInterval \<noteq> [] \<or> TableReferenced env relation"
  shows "ReplicateSingleShardTableToAllWorkers env relation st =
           (Some (PartOfForeignConstraint relation), st)"
  using assms by (auto simp: ReplicateSingleShardTableToAllWorkers_def linitial_def)

subsection \<open>Preconditions of the promotion\<close>

text \<open>
  Claim C2. For every table that violates a precondition of the promotion (it is not
  distributed, it is a reference table already, its shard count is not one, it is
  referenced by a foreign key or a shard of it has foreign-key commands),
  \<^verbatim>\<open>upgrade_to_reference_table\<close> raises, and in the metadata reached at the raise every
  row of the partition, shard, placement, colocation and node tables is as before, both
  sequences are as before and the log is as before: nothing was sent to a worker and no row
  was inserted, updated or deleted. This part holds on every node. On the schema node,
  where the node-role guard that precedes the checks passes, the error raised names a rule
  that the table violates.
\<close>

theorem upgrade_to_reference_table_precondition:
  assumes "violatesPrecondition env st relation"
  shows "fst (upgrade_to_reference_table env relation st) \<noteq> None \<and>
     sameRows st (snd (upgrade_to_reference_table env relation st)) \<and>
     (GetLocalGroupId env = 0 \<longrightarrow>
        (\<exists>e. fst (upgrade_to_reference_table env relation st) = Some e \<and>
             namesViolatedRule env st relation e))"
proof (cases "GetLocalGroupId env = 0")
  case False
  then show ?thesis
    by (simp add: upgrade_to_reference_table_def EnsureSchemaNode_def sameRows_def)
next
  case schema: True
  show ?thesis
  proof (cases "IsDistributedTable st relation")
    case False
    with schema show ?thesis
      by (simp add: upgrade_to_reference_table_def EnsureSchemaNode_def sameRows_def)
  next
    case distributed: True
    then obtain partitionMethod where pm: "PartitionMethod st relation = Inr partitionMethod"
      by (auto simp: IsDistributedTable_def PartitionMethod_def split: option.splits)
    show ?thesis
    proof (cases "partitionMethod = DISTRIBUTE_BY_NONE")
      case True
      with schema distributed pm show ?thesis
        by (simp add: upgrade_to_reference_table_def EnsureSchemaNode_def sameRows_def)
    next
      case notref: False
      show ?thesis
      proof (cases "length (LoadShardIntervalList st relation) = 1")
        case False
        with schema distributed pm notref show ?thesis
          by (simp add: upgrade_to_reference_table_def EnsureSchemaNode_def sameRows_def)
      next
        case True
        then obtain shardInterval where one: "LoadShardIntervalList st relation = [shardInterval]"
          by (cases "LoadShardIntervalList st relation") auto
        let ?locked = "acquireLock (ShardResourceLock (shardId shardInterval) ExclusiveLock)
           (acquireLock (ShardDistributionMetadataLock (shardId shardInterval) ExclusiveLock) st)"
        from assms distributed pm notref one
        have fk: "CopyShardForeignConstraintCommandList env shardInterval \<noteq> [] \<or>
                  TableReferenced env relation"
          by (auto simp: violatesPrecondition_def)
        have "LoadShardIntervalList ?locked relation = [shardInterval]"
          by (simp add: LoadShardIntervalList_acquireLock one)
        then have "ReplicateSingleShardTableToAllWorkers env relation ?locked =
           (Some (PartOfForeignConstraint relation), ?locked)"
          using fk by (rule single_shard_foreign_key)
        then have run: "upgrade_to_reference_table env relation st =
           (Some (PartOfForeignConstraint relation), ?locked)"
          using schema distributed pm notref one
          by (simp add: upgrade_to_reference_table_def EnsureSchemaNode_def linitial_def)
        have "sameRows st ?locked"
          by (simp add: sameRows_def acquireLock_simps)
        with run fk one show ?thesis by auto
      qed
    qed
  qed
qed

theorem upgrade_to_reference_table_precondition_witness:
  "upgrade_to_reference_table example_env 1 two_shard_metadata =
     (Some (ShardCountNotOne 1), two_shard_metadata) \<and>
   upgrade_to_reference_table example_env 1 reference_metadata =
     (Some (AlreadyReferenceTable 1), reference_metadata) \<and>
   upgrade_to_reference_table example_env 2 example_metadata =
     (Some (RelationNotDistributed 2), example_metadata)"
proof -
  have v: "violatesPrecondition example_env two_shard_metadata 1"
    by (simp add: violatesPrecondition_def LoadShardIntervalList_def two_shard_metadata_def
          example_metadata_def example_shard_def)
  have g: "GetLocalGroupId example_env = 0" by (simp add: example_env_def)
  from upgrade_to_reference_table_precondition [OF v] g
  obtain e where e: "fst (upgrade_to_reference_table example_env 1 two_shard_metadata) = Some e"
    "namesViolatedRule example_env two_shard_metadata 1 e"
    by blast
  have "upgrade_to_reference_table example_env 1 two_shard_metadata =
     (Some (ShardCountNotOne 1), two_shard_metadata)"
    by (simp add: upgrade_to_reference_table_def EnsureSchemaNode_def IsDistributedTable_def
          PartitionMethod_def LoadShardIntervalList_def two_shard_metadata_def
          example_metadata_def example_shard_def example_env_def)
  moreover have "upgrade_to_reference_table example_env 1 reference_metadata =
     (Some (AlreadyReferenceTable 1), reference_metadata)"
    by (simp add: upgrade_to_reference_table_def EnsureSchemaNode_def IsDistributedTable_def
          PartitionMethod_def reference_metadata_def example_metadata_def example_env_def)
  moreover have "upgrade_to_reference_table example_env 2 example_metadata =
     (Some (RelationNotDistributed 2), example_metadata)"
    by (simp add: upgrade_to_reference_table_def EnsureSchemaNode_def IsDistributedTable_def
          example_metadata_def example_env_def)
  ultimately show ?thesis using e by simp
qed












subsection \<open>The metadata rewrite\<close>






lemma isReplicationEvent_not_factor:
  "list_all (isReplicationEvent owner cmds) evs \<Longrightarrow> filter isFactorUpdate evs = []"
proof (induction evs)
  case Nil
  then show ?case by simp
next
  case (Cons e evs)
  then show ?case by (cases e) simp_all
qed

lemma replicate_shard_frame:
  assumes "ReplicateShardToAllWorkers env si st = (r, st')"
  shows "sameTables st st'"
    and "\<exists>evs. events st' = events st @ evs \<and> filter isFactorUpdate evs = []"
proof -
  have "sameTables st st' \<and> (\<exists>evs. events st' = events st @ evs \<and> filter isFactorUpdate evs = [])"
  proof (cases "FinalizedShardPlacementList st (shardId si)")
    case Nil
    with assms show ?thesis by (simp add: replicate_no_source sameTables_def)
  next
    case (Cons src others)
    note loop = assms [unfolded replicate_source [OF Cons]]
    from loop_sameCatalogs [OF agrees_acquireLock loop]
    have a: "sameTables st st'"
      by (simp add: sameCatalogs_def sameTables_def acquireLock_simps)
    from loop_events [OF agrees_acquireLock loop] obtain evs where
      "events st' = events st @ evs"
      "list_all (isReplicationEvent (TableOwner env (relationId si))
          (CopyShardCommandList env si (nodeName src) (nodePort src))) evs"
      by (auto simp: acquireLock_simps)
    with isReplicationEvent_not_factor [of _ _ evs] a show ?thesis by blast
  qed
  then show "sameTables st st'"
    and "\<exists>evs. events st' = events st @ evs \<and> filter isFactorUpdate evs = []"
    by blast+
qed

lemma replicate_shard_healthy:
  assumes "list_all (\<lambda>w. finalizedOn st (shardId si) (workerName w) (workerPort w)) (pg_dist_node st)"
    and "ReplicateShardToAllWorkers env si st = (r, st')"
  shows "sameData st st'"
proof (cases "FinalizedShardPlacementList st (shardId si)")
  case Nil
  with assms(2) show ?thesis by (simp add: replicate_no_source sameData_def)
next
  case (Cons src others)
  let ?locked = "acquireLock (DistNodeRelationLock AccessShareLock) st"
  have "\<forall>w \<in> set (SortList (pg_dist_node st) CompareWorkerNodes).
          finalizedOn st (shardId si) (workerName w) (workerPort w)"
    using assms(1) by (simp add: set_SortList list_all_iff)
  from loop_healthy [OF this] assms(2) [unfolded replicate_source [OF Cons]]
  have "st' = ?locked" by simp
  then show ?thesis by (simp add: sameData_def acquireLock_simps)
qed

lemma sameTables_trans: "sameTables s s1 \<Longrightarrow> sameTables s1 s' \<Longrightarrow> sameTables s s'"
  by (simp add: sameTables_def)

lemma sameData_trans: "sameData s s1 \<Longrightarrow> sameData s1 s' \<Longrightarrow> sameData s s'"
  by (simp add: sameData_def)

lemma sameTables_acquireLock: "sameTables st (acquireLock l st)"
  by (simp add: sameTables_def acquireLock_simps)

lemma sameData_acquireLock: "sameData st (acquireLock l st)"
  by (simp add: sameData_def acquireLock_simps)

lemma shardHealthy_sameData: "sameData st st' \<Longrightarrow> shardHealthy st' t = shardHealthy st t"
  by (auto simp: shardHealthy_def sameData_def LoadShardIntervalList_def finalizedOn_def
           split: list.splits)

lemma TableColocationId_sameTables:
  "sameTables st st' \<Longrightarrow> TableColocationId st' t = TableColocationId st t"
  by (simp add: TableColocationId_def sameTables_def)

lemma refloop_Cons:
  assumes "ReplicateReferenceTables env (t # ts) cur st = (res, st')"
  obtains (raised) e where "res = Inl e" "sameTables st st'"
      "\<exists>evs. events st' = events st @ evs \<and> filter isFactorUpdate evs = []"
      "shardHealthy st t \<longrightarrow> sameData st st'"
  | (continued) st1 cur' where "ReplicateReferenceTables env ts cur' st1 = (res, st')"
      "sameTables st st1"
      "\<exists>evs. events st1 = events st @ evs \<and> filter isFactorUpdate evs = []"
      "shardHealthy st t \<longrightarrow> sameData st st1"
      "cur' = (if cur = INVALID_COLOCATION_ID then (case TableColocationId st t of Inr c \<Rightarrow> c | Inl e \<Rightarrow> cur) else cur)"
      "cur = INVALID_COLOCATION_ID \<longrightarrow> TableColocationId st t = Inr cur'"
proof (cases "LoadShardIntervalList st t")
  case Nil
  with assms have "res = Inl NullPointerDereference" "st' = st"
    by (simp_all add: linitial_def)
  then show ?thesis
    by (intro raised [of NullPointerDereference]) (simp_all add: sameTables_def sameData_def)
next
  case (Cons si others)
  let ?locked = "acquireLock (ShardDistributionMetadataLock (shardId si) ExclusiveLock) st"
  obtain r st1 where rep: "ReplicateShardToAllWorkers env si ?locked = (r, st1)"
    by (cases "ReplicateShardToAllWorkers env si ?locked") auto
  have tables: "sameTables st st1"
    using sameTables_acquireLock replicate_shard_frame(1) [OF rep] by (rule sameTables_trans)
  have log: "\<exists>evs. events st1 = events st @ evs \<and> filter isFactorUpdate evs = []"
    using replicate_shard_frame(2) [OF rep] by (simp add: acquireLock_simps)
  have healthy: "shardHealthy st t \<longrightarrow> sameData st st1"
  proof
    assume "shardHealthy st t"
    with Cons have "list_all (\<lambda>w. finalizedOn ?locked (shardId si) (workerName w) (workerPort w))
        (pg_dist_node ?locked)"
      by (simp add: shardHealthy_def finalizedOn_def acquireLock_simps)
    from replicate_shard_healthy [OF this rep] sameData_acquireLock [of st]
    show "sameData st st1" by (rule sameData_trans [rotated])
  qed
  have coloc: "TableColocationId st1 t = TableColocationId st t"
    using tables by (rule TableColocationId_sameTables)
  show ?thesis
  proof (cases r)
    case (Some e)
    with assms Cons rep have "res = Inl e" "st' = st1"
      by (simp_all add: linitial_def)
    with tables log healthy show ?thesis
      by (intro raised [of e]) simp_all
  next
    case None
    show ?thesis
    proof (cases "cur = INVALID_COLOCATION_ID")
      case False
      with assms Cons rep None have "ReplicateReferenceTables env ts cur st1 = (res, st')"
        by (simp add: linitial_def)
      with tables log healthy False show ?thesis
        by (intro continued [of cur st1]) simp_all
    next
      case True
      show ?thesis
      proof (cases "TableColocationId st t")
        case (Inl e)
        with assms Cons rep None True coloc have "res = Inl e" "st' = st1"
          by (simp_all add: linitial_def)
        with tables log healthy show ?thesis
          by (intro raised [of e]) simp_all
      next
        case (Inr c)
        with assms Cons rep None True coloc
        have "ReplicateReferenceTables env ts c st1 = (res, st')"
          by (simp add: linitial_def)
        with tables log healthy True Inr show ?thesis
          by (intro continued [of c st1]) simp_all
      qed
    qed
  qed
qed

lemma refloop_frame:
  "ReplicateReferenceTables env ts cur st = (res, st') \<Longrightarrow>
     sameTables st st' \<and> (\<exists>evs. events st' = events st @ evs \<and> filter isFactorUpdate evs = [])"
proof (induction ts arbitrary: cur st)
  case Nil
  then show ?case by (simp add: sameTables_def)
next
  case (Cons t ts)
  from Cons.prems show ?case
  proof (cases rule: refloop_Cons)
    case (raised e)
    then show ?thesis by simp
  next
    case (continued st1 cur')
    from Cons.IH [OF continued(1)] obtain evs' where
      a: "sameTables st1 st'" "events st' = events st1 @ evs'" "filter isFactorUpdate evs' = []"
      by blast
    from continued(3) obtain evs where
      b: "events st1 = events st @ evs" "filter isFactorUpdate evs = []"
      by blast
    have "events st' = events st @ (evs @ evs')" "filter isFactorUpdate (evs @ evs') = []"
      using a b by simp_all
    with sameTables_trans [OF continued(2) a(1)] show ?thesis by blast
  qed
qed

lemma refloop_healthy:
  "ReplicateReferenceTables env ts cur st = (res, st') \<Longrightarrow> list_all (shardHealthy st) ts \<Longrightarrow>
     sameData st st'"
proof (induction ts arbitrary: cur st)
  case Nil
  then show ?case by (simp add: sameData_def)
next
  case (Cons t ts)
  from Cons.prems(1) show ?case
  proof (cases rule: refloop_Cons)
    case (raised e)
    with Cons.prems(2) show ?thesis by simp
  next
    case (continued st1 cur')
    from continued(4) Cons.prems(2) have s1: "sameData st st1" by simp
    have "shardHealthy st1 = shardHealthy st"
      by (rule ext) (rule shardHealthy_sameData [OF s1])
    then have "list_all (shardHealthy st1) ts"
      using Cons.prems(2) by simp
    with continued(1) have "sameData st1 st'" by (rule Cons.IH)
    with s1 show ?thesis by (rule sameData_trans)
  qed
qed

lemma factor_set:
  "list_all (\<lambda>row. groupColocationId row = colocation \<longrightarrow> replicationfactor row = factor)
     (map (\<lambda>row. if groupColocationId row = colocation
                  then row\<lparr>replicationfactor := factor\<rparr> else row) rows)"
  by (induction rows) simp_all

lemma update_factor_cases:
  assumes "UpdateColocationGroupReplicationFactor colocation factor st = (r, st')"
  obtains (missing) "r \<noteq> None" "st' = st"
  | (updated) "r = None"
      "events st' = events st @ [UpdateColocationGroupReplicationFactorCall colocation factor]"
      "list_all (\<lambda>row. groupColocationId row = colocation \<longrightarrow> replicationfactor row = factor)
         (pg_dist_colocation st')"
proof (cases "find (\<lambda>row. groupColocationId row = colocation) (pg_dist_colocation st)")
  case None
  then have "UpdateColocationGroupReplicationFactor colocation factor st =
      (Some (NoColocationEntry colocation), st)"
    by (simp add: UpdateColocationGroupReplicationFactor_def)
  with assms have "r = Some (NoColocationEntry colocation)" "st' = st" by simp_all
  then show ?thesis by (intro missing) simp_all
next
  case (Some found)
  let ?rows = "map (\<lambda>row. if groupColocationId row = colocation
                             then row\<lparr>replicationfactor := factor\<rparr> else row)
                      (pg_dist_colocation st)"
  from Some have "UpdateColocationGroupReplicationFactor colocation factor st =
      (None, logEvent (UpdateColocationGroupReplicationFactorCall colocation factor)
               (st\<lparr>pg_dist_colocation := ?rows\<rparr>))"
    by (simp add: UpdateColocationGroupReplicationFactor_def)
  with assms have r: "r = None"
    and st': "st' = logEvent (UpdateColocationGroupReplicationFactorCall colocation factor)
               (st\<lparr>pg_dist_colocation := ?rows\<rparr>)"
    by simp_all
  have ev: "events st' = events st @ [UpdateColocationGroupReplicationFactorCall colocation factor]"
    by (simp add: st' logEvent_def)
  have "pg_dist_colocation st' = ?rows"
    by (simp add: st' logEvent_def)
  then have rows: "list_all (\<lambda>row. groupColocationId row = colocation \<longrightarrow> replicationfactor row = factor)
         (pg_dist_colocation st')"
    by (simp only: factor_set)
  from r ev rows show ?thesis by (rule updated)
qed

lemma step_keeps_finalized:
  assumes step: "ReplicateShardToWorker env si (ShardPlacementList st0 (shardId si)) owner cmds w s = (r, s1)"
    and fin: "finalizedOn s shard name port"
  shows "finalizedOn s1 shard name port"
proof (cases "placementOn (shardId si) (workerName w) (workerPort w) (pg_dist_shard_placement st0)")
  case None
  show ?thesis
  proof (cases "workerCommits env (workerName w) (workerPort w) cmds")
    case True
    from step [unfolded step_insert [OF None True]] fin show ?thesis
      by (auto simp: finalizedOn_def finalizedIn_append)
  next
    case False
    have t: "case placementOn (shardId si) (workerName w) (workerPort w) (pg_dist_shard_placement st0) of
        None \<Rightarrow> True | Some target \<Rightarrow> shardState target \<noteq> FILE_FINALIZED"
      using None by simp
    from step [unfolded step_fail [OF t False]] fin show ?thesis
      by (auto simp: finalizedOn_def)
  qed
next
  case (Some target)
  show ?thesis
  proof (cases "shardState target = FILE_FINALIZED")
    case True
    from step [unfolded step_skip [OF Some True]] fin show ?thesis by simp
  next
    case nonfinal: False
    show ?thesis
    proof (cases "workerCommits env (workerName w) (workerPort w) cmds")
      case True
      show ?thesis
      proof (cases "find (\<lambda>row. placementId row = placementId target) (pg_dist_shard_placement s)")
        case None
        from step [unfolded step_update_missing [OF Some nonfinal True None]] fin show ?thesis
          by (auto simp: finalizedOn_def)
      next
        case (Some found)
        from step [unfolded step_update [OF \<open>placementOn (shardId si) (workerName w) (workerPort w)
            (pg_dist_shard_placement st0) = Some target\<close> nonfinal True Some]] fin
        show ?thesis
          by (auto simp: finalizedOn_def finalizedIn_finalize)
      qed
    next
      case False
      have t: "case placementOn (shardId si) (workerName w) (workerPort w) (pg_dist_shard_placement st0) of
          None \<Rightarrow> True | Some target \<Rightarrow> shardState target \<noteq> FILE_FINALIZED"
        using Some nonfinal by simp
      from step [unfolded step_fail [OF t False]] fin show ?thesis
        by (auto simp: finalizedOn_def)
    qed
  qed
qed

lemma loop_keeps_finalized:
  assumes "ReplicateShardToWorkers env si (ShardPlacementList st0 (shardId si)) owner cmds ws s = (r, s')"
    and "finalizedOn s shard name port"
  shows "finalizedOn s' shard name port"
  using assms
proof (induction ws arbitrary: s)
  case Nil
  then show ?case by simp
next
  case (Cons w ws)
  from Cons.prems(1) show ?case
  proof (cases rule: loop_Cons)
    case (raised e)
    from raised(1) Cons.prems(2) show ?thesis by (rule step_keeps_finalized)
  next
    case (continued s1)
    from continued(1) Cons.prems(2) have "finalizedOn s1 shard name port"
      by (rule step_keeps_finalized)
    with continued(2) show ?thesis by (rule Cons.IH)
  qed
qed

lemma replicate_shard_keeps_finalized:
  assumes "ReplicateShardToAllWorkers env si st = (r, st')"
    and "finalizedOn st shard name port"
  shows "finalizedOn st' shard name port"
proof (cases "FinalizedShardPlacementList st (shardId si)")
  case Nil
  with assms show ?thesis by (simp add: replicate_no_source)
next
  case (Cons src others)
  note loop = assms(1) [unfolded replicate_source [OF Cons]]
  have "finalizedOn (acquireLock (DistNodeRelationLock AccessShareLock) st) shard name port"
    using assms(2) by (simp add: finalizedOn_def acquireLock_simps)
  with loop show ?thesis by (rule loop_keeps_finalized)
qed

lemma replicate_shard_finalizes:
  assumes "ReplicateShardToAllWorkers env si st = (None, st')"
  shows "list_all (\<lambda>w. finalizedOn st' (shardId si) (workerName w) (workerPort w)) (pg_dist_node st)"
proof (cases "FinalizedShardPlacementList st (shardId si)")
  case Nil
  with assms show ?thesis by (simp add: replicate_no_source)
next
  case (Cons src others)
  note loop = assms [unfolded replicate_source [OF Cons]]
  have "\<forall>w \<in> set (SortList (pg_dist_node st) CompareWorkerNodes).
      finalizedOn st' (shardId si) (workerName w) (workerPort w)"
    using loop_all_finalized [OF agrees_acquireLock loop] by blast
  then show ?thesis by (simp add: set_SortList list_all_iff)
qed

lemma shardHealthy_mono:
  assumes "sameTables st st'"
    and "\<And>shard name port. finalizedOn st shard name port \<Longrightarrow> finalizedOn st' shard name port"
    and "shardHealthy st t"
  shows "shardHealthy st' t"
proof -
  from assms(1) have same: "LoadShardIntervalList st' t = LoadShardIntervalList st t"
    "pg_dist_node st' = pg_dist_node st"
    by (simp_all add: sameTables_def LoadShardIntervalList_def)
  show ?thesis
  proof (cases "LoadShardIntervalList st t")
    case Nil
    then show ?thesis by (simp add: shardHealthy_def same)
  next
    case (Cons si others)
    with assms(3) have "list_all (\<lambda>w. finalizedOn st (shardId si) (workerName w) (workerPort w))
        (pg_dist_node st)"
      by (simp add: shardHealthy_def)
    then have "list_all (\<lambda>w. finalizedOn st' (shardId si) (workerName w) (workerPort w))
        (pg_dist_node st)"
      using assms(2) by (simp add: list_all_iff)
    with Cons show ?thesis by (simp add: shardHealthy_def same)
  qed
qed

lemma refloop_step:
  assumes "ReplicateReferenceTables env (t # ts) cur st = (Inr c, st')"
  obtains st1 cur' where "ReplicateReferenceTables env ts cur' st1 = (Inr c, st')"
      "sameTables st st1" "shardHealthy st1 t"
      "\<And>shard name port. finalizedOn st shard name port \<Longrightarrow> finalizedOn st1 shard name port"
      "cur' = (if cur = INVALID_COLOCATION_ID
               then (case TableColocationId st t of Inr colocation \<Rightarrow> colocation | Inl e \<Rightarrow> cur)
               else cur)"
proof (cases "LoadShardIntervalList st t")
  case Nil
  with assms show ?thesis by (simp add: linitial_def)
next
  case (Cons si others)
  let ?locked = "acquireLock (ShardDistributionMetadataLock (shardId si) ExclusiveLock) st"
  obtain r st1 where rep: "ReplicateShardToAllWorkers env si ?locked = (r, st1)"
    by (cases "ReplicateShardToAllWorkers env si ?locked") auto
  have ok: "r = None"
    using assms Cons rep by (cases r) (simp_all add: linitial_def)
  have tables: "sameTables st st1"
    using sameTables_acquireLock replicate_shard_frame(1) [OF rep] by (rule sameTables_trans)
  have keeps: "finalizedOn st1 shard name port" if "finalizedOn st shard name port"
    for shard name port
  proof -
    from that have "finalizedOn ?locked shard name port"
      by (simp add: finalizedOn_def acquireLock_simps)
    with rep show ?thesis by (rule replicate_shard_keeps_finalized)
  qed
  have healthy: "shardHealthy st1 t"
  proof -
    from replicate_shard_finalizes [OF rep [unfolded ok]]
    have "list_all (\<lambda>w. finalizedOn st1 (shardId si) (workerName w) (workerPort w))
        (pg_dist_node st)"
      by (simp add: acquireLock_simps)
    moreover from tables have "LoadShardIntervalList st1 t = LoadShardIntervalList st t"
      "pg_dist_node st1 = pg_dist_node st"
      by (simp_all add: sameTables_def LoadShardIntervalList_def)
    ultimately show ?thesis using Cons by (simp add: shardHealthy_def)
  qed
  have coloc: "TableColocationId st1 t = TableColocationId st t"
    using tables by (rule TableColocationId_sameTables)
  let ?cur' = "if cur = INVALID_COLOCATION_ID
               then (case TableColocationId st t of Inr colocation \<Rightarrow> colocation | Inl e \<Rightarrow> cur)
               else cur"
  have rest: "ReplicateReferenceTables env ts ?cur' st1 = (Inr c, st')"
    using assms Cons rep ok coloc
    by (auto simp: linitial_def split: sum.splits if_splits)
  show ?thesis
  proof (rule that [of ?cur' st1])
    show "ReplicateReferenceTables env ts ?cur' st1 = (Inr c, st')" by (rule rest)
    show "sameTables st st1" by (rule tables)
    show "shardHealthy st1 t" by (rule healthy)
    show "finalizedOn st1 shard name port" if "finalizedOn st shard name port"
      for shard name port
      using that by (rule keeps)
    show "?cur' = (if cur = INVALID_COLOCATION_ID
               then (case TableColocationId st t of Inr colocation \<Rightarrow> colocation | Inl e \<Rightarrow> cur)
               else cur)"
      by (rule refl)
  qed
qed

lemma refloop_keeps_finalized:
  "ReplicateReferenceTables env ts cur st = (Inr c, st') \<Longrightarrow> finalizedOn st shard name port \<Longrightarrow>
     finalizedOn st' shard name port"
proof (induction ts arbitrary: cur st)
  case Nil
  then show ?case by simp
next
  case (Cons t ts)
  show ?case
  proof (rule refloop_step [OF Cons.prems(1)])
    fix st1 cur'
    assume step: "ReplicateReferenceTables env ts cur' st1 = (Inr c, st')"
      and keeps: "\<And>shard name port. finalizedOn st shard name port \<Longrightarrow>
                   finalizedOn st1 shard name port"
    from keeps [OF Cons.prems(2)] have "finalizedOn st1 shard name port" .
    with step show ?thesis by (rule Cons.IH)
  qed
qed

lemma refloop_replicated:
  "ReplicateReferenceTables env ts cur st = (Inr c, st') \<Longrightarrow> list_all (shardHealthy st') ts"
proof (induction ts arbitrary: cur st)
  case Nil
  then show ?case by simp
next
  case (Cons t ts)
  show ?case
  proof (rule refloop_step [OF Cons.prems])
    fix st1 cur'
    assume step: "ReplicateReferenceTables env ts cur' st1 = (Inr c, st')"
      and healthy: "shardHealthy st1 t"
    from refloop_frame [OF step] have tables: "sameTables st1 st'" by simp
    have "shardHealthy st' t"
      using tables refloop_keeps_finalized [OF step] healthy by (rule shardHealthy_mono)
    moreover from step have "list_all (shardHealthy st') ts" by (rule Cons.IH)
    ultimately show ?thesis by simp
  qed
qed

lemma firstValidColocationId_sameTables:
  "sameTables st st' \<Longrightarrow> firstValidColocationId st' ts = firstValidColocationId st ts"
  by (induction ts) (simp_all add: TableColocationId_sameTables split: sum.splits)

lemma refloop_result:
  "ReplicateReferenceTables env ts cur st = (Inr c, st') \<Longrightarrow>
     c = (if cur \<noteq> INVALID_COLOCATION_ID then cur else firstValidColocationId st ts)"
proof (induction ts arbitrary: cur st)
  case Nil
  then show ?case by auto
next
  case (Cons t ts)
  show ?case
  proof (rule refloop_step [OF Cons.prems])
    fix st1 cur'
    assume step: "ReplicateReferenceTables env ts cur' st1 = (Inr c, st')"
      and tables: "sameTables st st1"
      and cur': "cur' = (if cur = INVALID_COLOCATION_ID
               then (case TableColocationId st t of Inr colocation \<Rightarrow> colocation | Inl e \<Rightarrow> cur)
               else cur)"
    from Cons.IH [OF step]
    have c: "c = (if cur' \<noteq> INVALID_COLOCATION_ID then cur' else firstValidColocationId st ts)"
      by (simp add: firstValidColocationId_sameTables [OF tables])
    show ?thesis
    proof (cases "cur = INVALID_COLOCATION_ID")
      case False
      with c cur' show ?thesis by simp
    next
      case True
      with c cur' show ?thesis
        by (cases "TableColocationId st t") auto
    qed
  qed
qed

lemma update_factor_frame:
  assumes "UpdateColocationGroupReplicationFactor colocation factor st = (r, st')"
  shows "pg_dist_partition st' = pg_dist_partition st" "pg_dist_shard st' = pg_dist_shard st"
    "pg_dist_shard_placement st' = pg_dist_shard_placement st" "pg_dist_node st' = pg_dist_node st"
  using assms
  by (auto simp: UpdateColocationGroupReplicationFactor_def logEvent_def split: option.splits)

lemma referenceTablesHealthy_cong:
  assumes "pg_dist_partition st' = pg_dist_partition st" "pg_dist_shard st' = pg_dist_shard st"
    "pg_dist_shard_placement st' = pg_dist_shard_placement st" "pg_dist_node st' = pg_dist_node st"
  shows "referenceTablesHealthy st' = referenceTablesHealthy st"
proof -
  have "shardHealthy st' = shardHealthy st"
    by (rule ext)
       (auto simp: shardHealthy_def LoadShardIntervalList_def finalizedOn_def assms
             split: list.splits)
  then show ?thesis
    by (simp add: referenceTablesHealthy_def ReferenceTableList_def assms)
qed

subsection \<open>Replicating all reference tables\<close>

text \<open>
  Claim C4, as amended. Every run of \<^verbatim>\<open>ReplicateAllReferenceTablesToAllNodes\<close>,
  whether it returns or raises, updates the replication factor of a colocation group at
  most once, and a run that raises updates none. When the run returns without error, every
  reference table has been replicated: the shard of each has a \<^verbatim>\<open>FINALIZED\<close> placement
  on every worker node in the metadata the run leaves. Such a run updates the replication
  factor exactly once when some reference table carries a valid colocation id, however many
  reference tables there are, and not at all when none does: the update is for the
  colocation id of the first reference table that carries a valid one, it sets the factor
  to the number of worker nodes, and it is the last entry the run adds to the log, so it
  comes after every reference table has been replicated. When every reference table's
  shard has a \<^verbatim>\<open>FINALIZED\<close> placement on every worker before the run, the run sends no
  command list to any worker.
\<close>

theorem ReplicateAllReferenceTablesToAllNodes_factor:
  "\<exists>evs. events (snd (ReplicateAllReferenceTablesToAllNodes env st)) = events st @ evs \<and>
     length (filter isFactorUpdate evs) \<le> 1 \<and>
     (fst (ReplicateAllReferenceTablesToAllNodes env st) \<noteq> None \<longrightarrow>
        filter isFactorUpdate evs = []) \<and>
     (fst (ReplicateAllReferenceTablesToAllNodes env st) = None \<longrightarrow>
        referenceTablesHealthy (snd (ReplicateAllReferenceTablesToAllNodes env st)) \<and>
        filter isFactorUpdate evs =
          (if firstValidColocationId st (ReferenceTableList st) = INVALID_COLOCATION_ID then []
           else [UpdateColocationGroupReplicationFactorCall
                   (firstValidColocationId st (ReferenceTableList st))
                   (length (pg_dist_node st))]) \<and>
        (firstValidColocationId st (ReferenceTableList st) \<noteq> INVALID_COLOCATION_ID \<longrightarrow>
           last evs =
             UpdateColocationGroupReplicationFactorCall
               (firstValidColocationId st (ReferenceTableList st)) (length (pg_dist_node st)) \<and>
           list_all (\<lambda>row. groupColocationId row = firstValidColocationId st (ReferenceTableList st) \<longrightarrow>
                            replicationfactor row = length (pg_dist_node st))
             (pg_dist_colocation (snd (ReplicateAllReferenceTablesToAllNodes env st))))) \<and>
     (referenceTablesHealthy st \<longrightarrow> filter isCopy evs = [])"
proof -
  let ?locked = "acquireLock (DistNodeRelationLock AccessShareLock) st"
  let ?count = "length (pg_dist_node st)"
  let ?fv = "firstValidColocationId st (ReferenceTableList st)"
  obtain res st1 where loop:
    "ReplicateReferenceTables env (ReferenceTableList st) INVALID_COLOCATION_ID ?locked = (res, st1)"
    by (cases "ReplicateReferenceTables env (ReferenceTableList st) INVALID_COLOCATION_ID ?locked")
       auto
  from refloop_frame [OF loop] obtain evs where
    evs: "events st1 = events st @ evs" "filter isFactorUpdate evs = []"
    and tables: "sameTables ?locked st1"
    by (auto simp: acquireLock_simps)
  have healthy: "evs = []" if "referenceTablesHealthy st"
  proof -
    have "shardHealthy ?locked = shardHealthy st"
      by (rule ext) (rule shardHealthy_sameData [OF sameData_acquireLock])
    with that have "list_all (shardHealthy ?locked) (ReferenceTableList st)"
      by (simp add: referenceTablesHealthy_def)
    from refloop_healthy [OF loop this] have "events st1 = events st"
      by (simp add: sameData_def acquireLock_simps)
    with evs(1) show ?thesis by simp
  qed
  have run: "ReplicateAllReferenceTablesToAllNodes env st =
     (case res of
        Inl e \<Rightarrow> (Some e, st1)
      | Inr currentColocationId \<Rightarrow>
          (if currentColocationId \<noteq> INVALID_COLOCATION_ID
           then UpdateColocationGroupReplicationFactor currentColocationId ?count st1
           else (None, st1)))"
    using loop
    by (simp add: ReplicateAllReferenceTablesToAllNodes_def Let_def WorkerNodeList_def
          acquireLock_simps split: sum.splits)
  have result: "c = ?fv" if "res = Inr c" for c
  proof -
    from refloop_result [OF loop [unfolded that]]
    have "c = firstValidColocationId ?locked (ReferenceTableList st)" by simp
    then show ?thesis
      by (simp add: firstValidColocationId_sameTables [OF sameTables_acquireLock])
  qed
  have replicated: "referenceTablesHealthy st1" if "res = Inr c" for c
  proof -
    from refloop_replicated [OF loop [unfolded that]]
    have "list_all (shardHealthy st1) (ReferenceTableList st)" .
    moreover from tables have "ReferenceTableList st1 = ReferenceTableList st"
      by (simp add: ReferenceTableList_def sameTables_def acquireLock_simps)
    ultimately show ?thesis by (simp add: referenceTablesHealthy_def)
  qed
  let ?goal = "\<lambda>r st' evs'. events st' = events st @ evs' \<and>
     length (filter isFactorUpdate evs') \<le> 1 \<and>
     (r \<noteq> None \<longrightarrow> filter isFactorUpdate evs' = []) \<and>
     (r = None \<longrightarrow>
        referenceTablesHealthy st' \<and>
        filter isFactorUpdate evs' =
          (if ?fv = INVALID_COLOCATION_ID then []
           else [UpdateColocationGroupReplicationFactorCall ?fv ?count]) \<and>
        (?fv \<noteq> INVALID_COLOCATION_ID \<longrightarrow>
           last evs' = UpdateColocationGroupReplicationFactorCall ?fv ?count \<and>
           list_all (\<lambda>row. groupColocationId row = ?fv \<longrightarrow> replicationfactor row = ?count)
             (pg_dist_colocation st'))) \<and>
     (referenceTablesHealthy st \<longrightarrow> filter isCopy evs' = [])"
  have "\<exists>evs'. ?goal (fst (ReplicateAllReferenceTablesToAllNodes env st))
                      (snd (ReplicateAllReferenceTablesToAllNodes env st)) evs'"
  proof (cases res)
    case (Inl e)
    with run have "ReplicateAllReferenceTablesToAllNodes env st = (Some e, st1)" by simp
    with evs healthy have "?goal (fst (ReplicateAllReferenceTablesToAllNodes env st))
                      (snd (ReplicateAllReferenceTablesToAllNodes env st)) evs"
      by auto
    then show ?thesis ..
  next
    case (Inr c)
    note c = result [OF Inr]
    note rep = replicated [OF Inr]
    show ?thesis
    proof (cases "c = INVALID_COLOCATION_ID")
      case True
      with run Inr have r: "ReplicateAllReferenceTablesToAllNodes env st = (None, st1)" by simp
      have "?goal None st1 evs"
        using evs healthy c True rep by auto
      with r show ?thesis by auto
    next
      case False
      obtain r st2 where up: "UpdateColocationGroupReplicationFactor c ?count st1 = (r, st2)"
        by (cases "UpdateColocationGroupReplicationFactor c ?count st1") auto
      with run Inr False have r: "ReplicateAllReferenceTablesToAllNodes env st = (r, st2)" by simp
      have rep2: "referenceTablesHealthy st2"
        using referenceTablesHealthy_cong [OF update_factor_frame [OF up]] rep by simp
      from up show ?thesis
      proof (cases rule: update_factor_cases)
        case missing
        with evs healthy have "?goal r st2 evs" by auto
        with r show ?thesis by auto
      next
        case updated
        let ?evs' = "evs @ [UpdateColocationGroupReplicationFactorCall c ?count]"
        have "?goal r st2 ?evs'"
          using evs healthy c False rep2 updated by auto
        with r show ?thesis by auto
      qed
    qed
  qed
  then show ?thesis by simp
qed

lemma reference_cluster_run:
  "fst (ReplicateAllReferenceTablesToAllNodes example_env reference_cluster) = None \<and>
   events (snd (ReplicateAllReferenceTablesToAllNodes example_env reference_cluster)) =
     [Notice ''b'' 5432, SendCommandList ''b'' 5432 ''owner'' [''copy''] True,
      InsertShardPlacementRowCall placement_b,
      UpdateColocationGroupReplicationFactorCall 5 2]"
  by (simp add: ReplicateAllReferenceTablesToAllNodes_def ReferenceTableList_def
        LoadShardIntervalList_def linitial_def TableColocationId_def
        UpdateColocationGroupReplicationFactor_def INVALID_COLOCATION_ID_def
        replicate_eval example_env_def example_shard_def example_metadata_def
        reference_cluster_def placement_a_def placement_b_def)

lemmas reference_eval =
  ReplicateAllReferenceTablesToAllNodes_def ReferenceTableList_def
  LoadShardIntervalList_def linitial_def TableColocationId_def
  UpdateColocationGroupReplicationFactor_def INVALID_COLOCATION_ID_def
  replicate_eval example_env_def example_shard_def example_metadata_def
  reference_cluster_def placement_a_def placement_b_def

lemma healthy_cluster_healthy: "referenceTablesHealthy healthy_reference_cluster"
  by (simp add: referenceTablesHealthy_def shardHealthy_def ReferenceTableList_def
        LoadShardIntervalList_def finalizedOn_def finalizedIn_def placementOn_def
        healthy_reference_cluster_def reference_cluster_def example_metadata_def
        example_shard_def placement_a_def placement_b_def)

theorem ReplicateAllReferenceTablesToAllNodes_factor_witness:
  "fst (ReplicateAllReferenceTablesToAllNodes example_env reference_cluster) = None \<and>
   referenceTablesHealthy (snd (ReplicateAllReferenceTablesToAllNodes example_env reference_cluster)) \<and>
   filter isFactorUpdate
     (events (snd (ReplicateAllReferenceTablesToAllNodes example_env reference_cluster))) =
     [UpdateColocationGroupReplicationFactorCall 5 2] \<and>
   last (events (snd (ReplicateAllReferenceTablesToAllNodes example_env reference_cluster))) =
     UpdateColocationGroupReplicationFactorCall 5 2 \<and>
   list_all (\<lambda>row. groupColocationId row = 5 \<longrightarrow> replicationfactor row = 2)
     (pg_dist_colocation (snd (ReplicateAllReferenceTablesToAllNodes example_env reference_cluster))) \<and>
   referenceTablesHealthy healthy_reference_cluster \<and>
   filter isCopy
     (events (snd (ReplicateAllReferenceTablesToAllNodes example_env healthy_reference_cluster))) = [] \<and>
   fst (ReplicateAllReferenceTablesToAllNodes example_env unhealthy_reference_cluster) \<noteq> None \<and>
   filter isFactorUpdate
     (events (snd (ReplicateAllReferenceTablesToAllNodes example_env unhealthy_reference_cluster))) = []"
proof -
  let ?run = "ReplicateAllReferenceTablesToAllNodes example_env reference_cluster"
  let ?again = "ReplicateAllReferenceTablesToAllNodes example_env healthy_reference_cluster"
  let ?raise = "ReplicateAllReferenceTablesToAllNodes example_env unhealthy_reference_cluster"
  have fv: "firstValidColocationId reference_cluster (ReferenceTableList reference_cluster) = 5"
    by (simp add: ReferenceTableList_def TableColocationId_def reference_cluster_def
          example_metadata_def INVALID_COLOCATION_ID_def)
  have valid: "(5::nat) \<noteq> INVALID_COLOCATION_ID"
    by (simp add: INVALID_COLOCATION_ID_def)
  have nodes: "length (pg_dist_node reference_cluster) = 2"
    and log: "events reference_cluster = []"
    by (simp_all add: reference_cluster_def example_metadata_def)
  from reference_cluster_run have ok: "fst ?run = None" by simp
  from ReplicateAllReferenceTablesToAllNodes_factor [of example_env reference_cluster, unfolded fv nodes log]
  obtain evs where
    evs: "events (snd ?run) = [] @ evs"
      "fst ?run = None \<longrightarrow>
        referenceTablesHealthy (snd ?run) \<and>
        filter isFactorUpdate evs =
          (if 5 = INVALID_COLOCATION_ID then []
           else [UpdateColocationGroupReplicationFactorCall 5 2]) \<and>
        (5 \<noteq> INVALID_COLOCATION_ID \<longrightarrow>
           last evs = UpdateColocationGroupReplicationFactorCall 5 2 \<and>
           list_all (\<lambda>row. groupColocationId row = 5 \<longrightarrow> replicationfactor row = 2)
             (pg_dist_colocation (snd ?run)))"
    by (elim exE conjE) (rule that)
  from evs(1) have same: "evs = events (snd ?run)" by simp
  from evs(2) ok valid have a: "referenceTablesHealthy (snd ?run)"
    and b: "filter isFactorUpdate evs = [UpdateColocationGroupReplicationFactorCall 5 2]"
    and c: "last evs = UpdateColocationGroupReplicationFactorCall 5 2"
    and d: "list_all (\<lambda>row. groupColocationId row = 5 \<longrightarrow> replicationfactor row = 2)
          (pg_dist_colocation (snd ?run))"
    by simp_all
  have log2: "events healthy_reference_cluster = []"
    by (simp add: healthy_reference_cluster_def reference_cluster_def example_metadata_def)
  from ReplicateAllReferenceTablesToAllNodes_factor [of example_env healthy_reference_cluster, unfolded log2]
  obtain evs2 where
    evs2: "events (snd ?again) = [] @ evs2"
      "referenceTablesHealthy healthy_reference_cluster \<longrightarrow> filter isCopy evs2 = []"
    by (elim exE conjE) (rule that)
  from evs2 healthy_cluster_healthy have e: "filter isCopy (events (snd ?again)) = []" by simp
  have log3: "events unhealthy_reference_cluster = []"
    by (simp add: unhealthy_reference_cluster_def reference_cluster_def example_metadata_def)
  have raised: "fst ?raise \<noteq> None"
    by (simp add: reference_eval unhealthy_reference_cluster_def)
  from ReplicateAllReferenceTablesToAllNodes_factor [of example_env unhealthy_reference_cluster, unfolded log3]
  obtain evs3 where
    evs3: "events (snd ?raise) = [] @ evs3"
      "fst ?raise \<noteq> None \<longrightarrow> filter isFactorUpdate evs3 = []"
    by (elim exE conjE) (rule that)
  from evs3 raised have f: "filter isFactorUpdate (events (snd ?raise)) = []" by simp
  from ok a b [unfolded same] c [unfolded same] d healthy_cluster_healthy e raised f show ?thesis
    by (intro conjI)
qed

text \<open>
  Two runs in clusters with one reference table. When the table's partition row carries
  the invalid colocation id, the run replicates the shard and returns without updating any
  replication factor. When the shard has no healthy placement, the run raises and updates
  none.
\<close>

theorem ReplicateAllReferenceTablesToAllNodes_counterexample:
  "ReferenceTableList invalid_group_cluster = [1] \<and>
   fst (ReplicateAllReferenceTablesToAllNodes example_env invalid_group_cluster) = None \<and>
   events (snd (ReplicateAllReferenceTablesToAllNodes example_env invalid_group_cluster)) =
     [Notice ''b'' 5432, SendCommandList ''b'' 5432 ''owner'' [''copy''] True,
      InsertShardPlacementRowCall placement_b] \<and>
   ReferenceTableList unhealthy_reference_cluster = [1] \<and>
   fst (ReplicateAllReferenceTablesToAllNodes example_env unhealthy_reference_cluster) =
     Some (NoHealthyPlacement 100) \<and>
   events (snd (ReplicateAllReferenceTablesToAllNodes example_env unhealthy_reference_cluster)) = []"
  by (simp add: reference_eval invalid_group_cluster_def unhealthy_reference_cluster_def)

end
